(* ===== verification/Prelude.thy ===== *)
theory Prelude
  imports Main
begin

text \<open>
  Prelude of the development: the Python exceptions as values, the result type and its
  bind, Python strings as lists of code points, and SQL tables as lists of rows with the
  conditional UPDATE that every arbitration of the gateway goes through.

  A Python \<open>str\<close> is a sequence of Unicode code points, so it is modelled as a list of
  natural numbers (\<open>ustr\<close>); a literal of the source is written \<open>u ''abc''\<close>.
\<close>

named_theorems result_iff
named_theorems str_simps

section \<open>Strings\<close>

type_synonym ustr = "nat list"

definition u :: "string \<Rightarrow> ustr" where
  "u s = map of_char s"

lemma inj_of_char_nat: "inj (of_char :: char \<Rightarrow> nat)"
  by (rule inj_of_char)

lemma u_inject [simp]: "u s = u t \<longleftrightarrow> s = t"
  by (simp add: u_def inj_map_eq_map [OF inj_of_char_nat])

lemma u_Nil_iff [simp]: "u s = [] \<longleftrightarrow> s = []" "[] = u s \<longleftrightarrow> s = []"
  by (auto simp: u_def)

lemma length_u [simp]: "length (u s) = length s"
  by (simp add: u_def)

text \<open>The code points that \<open>str.isspace\<close> accepts; \<open>str.strip\<close> and \<open>str.split\<close> use them.\<close>

definition py_space :: "nat \<Rightarrow> bool" where
  "py_space c \<longleftrightarrow> (9 \<le> c \<and> c \<le> 13) \<or> (28 \<le> c \<and> c \<le> 32) \<or> c = 133 \<or> c = 160 \<or> c = 5760 \<or>
     (8192 \<le> c \<and> c \<le> 8202) \<or> c = 8232 \<or> c = 8233 \<or> c = 8239 \<or> c = 8287 \<or> c = 12288"

definition lstrip :: "ustr \<Rightarrow> ustr" where
  "lstrip s = dropWhile py_space s"

definition rstrip :: "ustr \<Rightarrow> ustr" where
  "rstrip s = rev (dropWhile py_space (rev s))"

definition strip :: "ustr \<Rightarrow> ustr" where
  "strip s = rstrip (lstrip s)"

definition blank :: "ustr \<Rightarrow> bool" where
  "blank s \<longleftrightarrow> strip s = []"

definition startswith :: "ustr \<Rightarrow> ustr \<Rightarrow> bool" where
  "startswith s p \<longleftrightarrow> take (length p) s = p"

text \<open>\<open>s.partition(c)\<close> for a separator of one character: the part before it and the part after.\<close>

definition partition_at :: "nat \<Rightarrow> ustr \<Rightarrow> ustr \<times> ustr" where
  "partition_at c s = (takeWhile (\<lambda>x. x \<noteq> c) s, drop 1 (dropWhile (\<lambda>x. x \<noteq> c) s))"

text \<open>\<open>s.split()\<close>: the maximal runs of characters that are not white space.\<close>

fun words_acc :: "ustr \<Rightarrow> ustr \<Rightarrow> ustr list" where
  "words_acc acc [] = (if acc = [] then [] else [rev acc])"
| "words_acc acc (c # cs) =
     (if py_space c then (if acc = [] then words_acc [] cs else rev acc # words_acc [] cs)
      else words_acc (c # acc) cs)"

definition py_split :: "ustr \<Rightarrow> ustr list" where
  "py_split s = words_acc [] s"

text \<open>
  \<open>str.lower\<close> on the ASCII letters. The source lowers texts only to compare them with ASCII
  words, none of which contains a \<open>k\<close> (the one ASCII letter another code point lowers to).
\<close>

definition lower_char :: "nat \<Rightarrow> nat" where
  "lower_char c = (if 65 \<le> c \<and> c \<le> 90 then c + 32 else c)"

definition ascii_lower :: "ustr \<Rightarrow> ustr" where
  "ascii_lower s = map lower_char s"

fun join :: "ustr \<Rightarrow> ustr list \<Rightarrow> ustr" where
  "join sep [] = []"
| "join sep [x] = x"
| "join sep (x # y # xs) = x @ sep @ join sep (y # xs)"

lemma strip_Nil [simp]: "strip [] = []"
  by (simp add: strip_def rstrip_def lstrip_def)

lemma rstrip_idem [simp]: "rstrip (rstrip s) = rstrip s"
  by (simp add: rstrip_def dropWhile_idem)

lemma lstrip_head: "lstrip s = [] \<or> \<not> py_space (hd (lstrip s))"
  unfolding lstrip_def using hd_dropWhile by blast

lemma rstrip_prefix: "\<exists>t. s = rstrip s @ t \<and> (\<forall>c \<in> set t. py_space c)"
proof (intro exI conjI)
  let ?t = "rev (takeWhile py_space (rev s))"
  show "s = rstrip s @ ?t" by (simp add: rstrip_def flip: rev_append)
  show "\<forall>c \<in> set ?t. py_space c" by (auto dest: set_takeWhileD)
qed

lemma lstrip_noop: "s = [] \<or> \<not> py_space (hd s) \<Longrightarrow> lstrip s = s"
  by (cases s) (auto simp: lstrip_def)

lemma strip_head: "strip s = [] \<or> \<not> py_space (hd (strip s))"
proof -
  obtain t where t: "lstrip s = rstrip (lstrip s) @ t"
    using rstrip_prefix by blast
  show ?thesis
  proof (cases "strip s")
    case (Cons c cs)
    then have "hd (lstrip s) = c" using t by (metis append_Cons list.sel(1) strip_def)
    moreover have "lstrip s \<noteq> []" using t Cons by (metis append_is_Nil_conv list.discI strip_def)
    ultimately show ?thesis using lstrip_head [of s] Cons by simp
  qed simp
qed

lemma strip_idem [simp]: "strip (strip s) = strip s"
proof -
  have "lstrip (strip s) = strip s"
    by (rule lstrip_noop) (rule strip_head)
  then show ?thesis by (metis rstrip_idem strip_def)
qed

lemma not_blank_strip: "\<not> blank s \<Longrightarrow> \<not> blank (strip s)"
  by (simp add: blank_def)

lemma blank_Nil [simp]: "blank []"
  by (simp add: blank_def)

section \<open>Exceptions and results\<close>

text \<open>
  The codes of \<open>DomainErrorCode\<close> (\<open>app/domain/errors.py\<close>) and the exception that carries
  one. The texts of the messages are Chinese in most places; a message of the model is an
  ASCII gloss of the source's text, except where the source's text is ASCII itself.
\<close>

datatype domain_error_code =
    INVALID_REQUEST | INVALID_API_KEY | MODEL_NOT_FOUND | RATE_LIMIT_EXCEEDED | REQUEST_TIMEOUT
  | PAYLOAD_TOO_LARGE | UPSTREAM_ERROR | CONTEXT_LENGTH_EXCEEDED | UNSUPPORTED_PARAMETER
  | CONFLICT | NOT_FOUND | FORBIDDEN | UNAUTHORIZED | VALIDATION_FAILED | INVALID_INVITATION

record domain_error =
  de_code :: domain_error_code
  de_message :: ustr
  de_status_code :: int
  de_public_code :: "ustr option"

text \<open>The built-in exceptions the modelled code can raise besides its own.\<close>

datatype py_kind = TypeError | ValueError | KeyError | AttributeError | OverflowError
  | IntegrityError | SchemaError

datatype exn = DomainError domain_error | PyError py_kind

type_synonym 'a result = "exn + 'a"

definition mk_domain_error :: "domain_error_code \<Rightarrow> string \<Rightarrow> int \<Rightarrow> domain_error" where
  "mk_domain_error c m st =
     \<lparr>de_code = c, de_message = u m, de_status_code = st, de_public_code = None\<rparr>"

definition err :: "domain_error_code \<Rightarrow> string \<Rightarrow> int \<Rightarrow> exn" where
  "err c m st = DomainError (mk_domain_error c m st)"

definition err_public :: "domain_error_code \<Rightarrow> string \<Rightarrow> int \<Rightarrow> string \<Rightarrow> exn" where
  "err_public c m st p =
     DomainError \<lparr>de_code = c, de_message = u m, de_status_code = st, de_public_code = Some (u p)\<rparr>"

text \<open>The same with a message computed from the input.\<close>

definition err_text :: "domain_error_code \<Rightarrow> ustr \<Rightarrow> int \<Rightarrow> ustr option \<Rightarrow> exn" where
  "err_text c m st p =
     DomainError \<lparr>de_code = c, de_message = m, de_status_code = st, de_public_code = p\<rparr>"

fun is_domain_error :: "exn \<Rightarrow> bool" where
  "is_domain_error (DomainError e) = True"
| "is_domain_error (PyError k) = False"

lemma is_domain_error_err [simp]: "is_domain_error (err c m st)" "is_domain_error (err_public c m st p)"
  by (simp_all add: err_def err_public_def)

lemma is_domain_error_err_text [simp]: "is_domain_error (err_text c t st q)"
  by (simp add: err_text_def)

lemma err_not_PyError [simp]: "err c m st \<noteq> PyError k" "err_public c m st p \<noteq> PyError k"
    "PyError k \<noteq> err c m st" "PyError k \<noteq> err_public c m st p"
  by (auto simp: err_def err_public_def)

text \<open>Sequencing: a raise skips the rest, as in Python.\<close>

fun bindr :: "'e + 'a \<Rightarrow> ('a \<Rightarrow> 'e + 'b) \<Rightarrow> 'e + 'b" where
  "bindr (Inl e) f = Inl e"
| "bindr (Inr x) f = f x"

definition raise_if :: "bool \<Rightarrow> 'e \<Rightarrow> 'e + unit" where
  "raise_if b e = (if b then Inl e else Inr ())"

fun mapr :: "('a \<Rightarrow> 'e + 'b) \<Rightarrow> 'a list \<Rightarrow> 'e + 'b list" where
  "mapr f [] = Inr []"
| "mapr f (x # xs) = bindr (f x) (\<lambda>y. bindr (mapr f xs) (\<lambda>ys. Inr (y # ys)))"

fun is_ok :: "'e + 'a \<Rightarrow> bool" where
  "is_ok (Inl e) = False"
| "is_ok (Inr x) = True"

lemma is_ok_iff: "is_ok m \<longleftrightarrow> (\<exists>x. m = Inr x)"
  by (cases m) auto

lemma bindr_Inr_iff [result_iff]: "bindr m f = Inr y \<longleftrightarrow> (\<exists>x. m = Inr x \<and> f x = Inr y)"
  by (cases m) auto

lemma bindr_Inl_iff [result_iff]:
  "bindr m f = Inl e \<longleftrightarrow> m = Inl e \<or> (\<exists>x. m = Inr x \<and> f x = Inl e)"
  by (cases m) auto

lemma raise_if_Inr_iff [result_iff, simp]: "raise_if b e = Inr x \<longleftrightarrow> \<not> b"
  by (simp add: raise_if_def)

lemma raise_if_Inl_iff [result_iff, simp]: "raise_if b e = Inl e' \<longleftrightarrow> b \<and> e' = e"
  by (auto simp: raise_if_def)

lemma raise_if_simps [simp]: "raise_if True e = Inl e" "raise_if False e = Inr ()"
  by (simp_all add: raise_if_def)

lemma bindr_cong [fundef_cong]:
  "m = m' \<Longrightarrow> (\<And>x. m' = Inr x \<Longrightarrow> f x = f' x) \<Longrightarrow> bindr m f = bindr m' f'"
  by (cases m') auto

lemma mapr_cong [fundef_cong]:
  "xs = ys \<Longrightarrow> (\<And>x. x \<in> set ys \<Longrightarrow> f x = g x) \<Longrightarrow> mapr f xs = mapr g ys"
  by (induction ys arbitrary: xs) auto

lemma mapr_Inr_iff: "mapr f xs = Inr ys \<longleftrightarrow> list_all2 (\<lambda>x y. f x = Inr y) xs ys"
proof (induction xs arbitrary: ys)
  case Nil
  then show ?case by auto
next
  case (Cons x xs)
  then show ?case by (cases ys) (auto simp: bindr_Inr_iff)
qed

lemma mapr_length: "mapr f xs = Inr ys \<Longrightarrow> length ys = length xs"
  by (auto simp: mapr_Inr_iff dest: list_all2_lengthD)

lemma mapr_all: "(\<And>x. x \<in> set xs \<Longrightarrow> f x = Inr (g x)) \<Longrightarrow> mapr f xs = Inr (map g xs)"
  by (induction xs) auto

lemma mapr_map: "mapr f (map g xs) = mapr (\<lambda>x. f (g x)) xs"
  by (induction xs) auto

lemma mapr_append: "mapr f (xs @ ys) = bindr (mapr f xs) (\<lambda>as. bindr (mapr f ys) (\<lambda>bs. Inr (as @ bs)))"
proof (induction xs)
  case Nil
  then show ?case by (cases "mapr f ys") auto
next
  case (Cons x xs)
  then show ?case by (cases "f x"; cases "mapr f xs"; cases "mapr f ys") auto
qed

lemma mapr_Inl: "mapr f xs = Inl e \<Longrightarrow> \<exists>x \<in> set xs. f x = Inl e"
  by (induction xs) (auto simp: bindr_Inl_iff)

lemma mapr_member: "mapr f xs = Inr ys \<Longrightarrow> y \<in> set ys \<Longrightarrow> \<exists>x \<in> set xs. f x = Inr y"
  by (induction xs arbitrary: ys) (auto simp: bindr_Inr_iff)

section \<open>Tables\<close>

text \<open>
  An SQL table is the list of its rows. \<open>sql_update\<close> is \<open>UPDATE t SET .. WHERE ..\<close> and
  returns the new rows with the row count, on which the repositories decide who won.
\<close>

definition rowcount :: "('r \<Rightarrow> bool) \<Rightarrow> 'r list \<Rightarrow> nat" where
  "rowcount cond rows = length (filter cond rows)"

definition sql_update :: "('r \<Rightarrow> bool) \<Rightarrow> ('r \<Rightarrow> 'r) \<Rightarrow> 'r list \<Rightarrow> 'r list \<times> nat" where
  "sql_update cond upd rows = (map (\<lambda>r. if cond r then upd r else r) rows, rowcount cond rows)"

text \<open>\<open>session.get\<close> by primary key, and the key SQLite gives a new row.\<close>

definition get_row :: "('r \<Rightarrow> int) \<Rightarrow> int \<Rightarrow> 'r list \<Rightarrow> 'r option" where
  "get_row key k rows = find (\<lambda>r. key r = k) rows"

definition fresh_id :: "('r \<Rightarrow> int) \<Rightarrow> 'r list \<Rightarrow> int" where
  "fresh_id key rows = 1 + fold max (map key rows) 0"

lemma rowcount_simps [simp]:
  "rowcount c [] = 0"
  "rowcount c (r # rs) = (if c r then Suc (rowcount c rs) else rowcount c rs)"
  "rowcount c (rs @ ts) = rowcount c rs + rowcount c ts"
  by (simp_all add: rowcount_def)

lemma rowcount_0_iff: "rowcount c rows = 0 \<longleftrightarrow> (\<forall>r \<in> set rows. \<not> c r)"
  by (simp add: rowcount_def filter_empty_conv)

lemma rowcount_pos_iff: "0 < rowcount c rows \<longleftrightarrow> (\<exists>r \<in> set rows. c r)"
  by (metis neq0_conv rowcount_0_iff)

lemma rowcount_key_notin: "k \<notin> key ` set rows \<Longrightarrow> rowcount (\<lambda>r. key r = k \<and> c r) rows = 0"
  by (auto simp: rowcount_0_iff)

lemma rowcount_le_key:
  "distinct (map key rows) \<Longrightarrow> rowcount (\<lambda>r. key r = k \<and> c r) rows \<le> 1"
proof (induction rows)
  case (Cons r rs)
  have "key r = k \<Longrightarrow> rowcount (\<lambda>r. key r = k \<and> c r) rs = 0"
    using Cons.prems by (simp add: rowcount_key_notin)
  with Cons show ?case by auto
qed simp

lemma find_SomeD: "find P xs = Some x \<Longrightarrow> x \<in> set xs \<and> P x"
  by (induction xs) (auto split: if_splits)

lemma find_unique:
  "(\<And>x y. x \<in> set xs \<Longrightarrow> y \<in> set xs \<Longrightarrow> P x \<Longrightarrow> P y \<Longrightarrow> x = y) \<Longrightarrow>
   find P xs = Some x \<longleftrightarrow> x \<in> set xs \<and> P x"
  by (induction xs) auto

lemma get_row_Some: "get_row key k rows = Some r \<Longrightarrow> r \<in> set rows \<and> key r = k"
  by (auto simp: get_row_def find_Some_iff)

lemma get_row_None: "get_row key k rows = None \<longleftrightarrow> (\<forall>r \<in> set rows. key r \<noteq> k)"
  by (auto simp: get_row_def find_None_iff)

lemma get_row_member:
  "distinct (map key rows) \<Longrightarrow> r \<in> set rows \<Longrightarrow> get_row key (key r) rows = Some r"
proof (induction rows)
  case (Cons a rows)
  then show ?case by (force simp: get_row_def)
qed simp

lemma rowcount_get_row:
  "distinct (map key rows) \<Longrightarrow>
   rowcount (\<lambda>r. key r = k \<and> c r) rows
     = (case get_row key k rows of Some r \<Rightarrow> if c r then 1 else 0 | None \<Rightarrow> 0)"
proof (induction rows)
  case Nil
  then show ?case by (simp add: get_row_def)
next
  case (Cons a rows)
  show ?case
  proof (cases "key a = k")
    case True
    then have "rowcount (\<lambda>r. key r = k \<and> c r) rows = 0"
      using Cons.prems by (simp add: rowcount_key_notin)
    with True show ?thesis by (simp add: get_row_def)
  next
    case False
    with Cons show ?thesis by (simp add: get_row_def)
  qed
qed

lemma get_row_map:
  "(\<And>r. key (f r) = key r) \<Longrightarrow> get_row key k (map f rows) = map_option f (get_row key k rows)"
  by (induction rows) (auto simp: get_row_def)

lemma map_update_none: "(\<And>x. x \<in> set rows \<Longrightarrow> \<not> c x) \<Longrightarrow> map (\<lambda>x. if c x then f x else x) rows = rows"
  by (simp add: map_idI)

text \<open>How an UPDATE of one row changes the count of another condition.\<close>

lemma rowcount_update_one:
  assumes "distinct (map key rows)" "r \<in> set rows" "key r = k" "c r"
  shows "int (rowcount P (map (\<lambda>x. if key x = k \<and> c x then f x else x) rows))
     = int (rowcount P rows) - of_bool (P r) + of_bool (P (f r))"
  using assms
proof (induction rows)
  case (Cons a rows)
  show ?case
  proof (cases "a = r")
    case True
    have "k \<notin> key ` set rows" using Cons.prems True by auto
    then have "map (\<lambda>x. if key x = k \<and> c x then f x else x) rows = rows"
      by (intro map_update_none) auto
    with True Cons.prems show ?thesis by simp
  next
    case False
    then have r: "r \<in> set rows" using Cons.prems by auto
    then have "key a \<noteq> k" using Cons.prems by force
    with Cons r show ?thesis by simp
  qed
qed simp

lemma rowcount_cong: "(\<And>x. x \<in> set rows \<Longrightarrow> P x \<longleftrightarrow> Q x) \<Longrightarrow> rowcount P rows = rowcount Q rows"
  by (simp add: rowcount_def cong: filter_cong)

lemma fold_max_ge: "b \<le> fold max xs (b :: int) \<and> (\<forall>x \<in> set xs. x \<le> fold max xs b)"
proof (induction xs arbitrary: b)
  case Nil
  then show ?case by simp
next
  case (Cons y xs)
  from Cons.IH [of "max y b"] show ?case by auto
qed

lemma fresh_id_fresh: "r \<in> set rows \<Longrightarrow> key r < fresh_id key rows"
  using fold_max_ge [of 0 "map key rows"] by (force simp: fresh_id_def)

lemma fresh_id_notin: "fresh_id key rows \<notin> key ` set rows"
  using fresh_id_fresh [of _ rows key] by force

text \<open>
  The interface of a conditional UPDATE that arbitrates a race: the update keeps the key of
  its row and falsifies its own guard, so that a second attempt on the same row finds nothing.
\<close>

locale one_shot =
  fixes key :: "'r \<Rightarrow> int" and guard :: "'r \<Rightarrow> bool" and upd :: "'r \<Rightarrow> 'r"
  assumes key_upd: "key (upd r) = key r"
    and guard_off: "guard r \<Longrightarrow> \<not> guard (upd r)"
begin

lemma rows_keys:
  "map key (fst (sql_update (\<lambda>r. key r = k \<and> guard r) upd rows)) = map key rows"
  by (simp add: sql_update_def key_upd comp_def)

lemma second_attempt_loses:
  "rowcount (\<lambda>r. key r = k \<and> guard r) (fst (sql_update (\<lambda>r. key r = k \<and> guard r) upd rows)) = 0"
proof -
  have off: "\<not> (key (if key r = k \<and> guard r then upd r else r) = k \<and>
              guard (if key r = k \<and> guard r then upd r else r))" for r
    using guard_off [of r] by (cases "key r = k \<and> guard r") auto
  show ?thesis
    unfolding rowcount_0_iff sql_update_def fst_conv set_map
  proof
    fix r assume "r \<in> (\<lambda>r. if key r = k \<and> guard r then upd r else r) ` set rows"
    then obtain r' where "r = (if key r' = k \<and> guard r' then upd r' else r')" ..
    with off [of r'] show "\<not> (key r = k \<and> guard r)" by simp
  qed
qed

lemma winner_unique:
  assumes "distinct (map key rows)"
  shows "snd (sql_update (\<lambda>r. key r = k \<and> guard r) upd rows) = 1 \<longleftrightarrow>
     (\<exists>r \<in> set rows. key r = k \<and> guard r)"
proof -
  have "rowcount (\<lambda>r. key r = k \<and> guard r) rows \<le> 1"
    using assms by (rule rowcount_le_key)
  then show ?thesis
    using rowcount_pos_iff [of "\<lambda>r. key r = k \<and> guard r" rows] by (auto simp: sql_update_def)
qed

lemma others_untouched:
  "r \<in> set rows \<Longrightarrow> key r \<noteq> k \<Longrightarrow>
   r \<in> set (fst (sql_update (\<lambda>r. key r = k \<and> guard r) upd rows))"
  by (force simp: sql_update_def)

end

end
