(* ===== verification/Json.thy ===== *)
theory Json
  imports Prelude
begin

text \<open>
  The values of Python's \<open>json\<close> module, with the operations of the standard library the
  gateway applies to them: \<open>dict.get\<close> and item assignment, truth values, \<open>str\<close>,
  membership in a set (which raises \<open>TypeError\<close> on a list or a dict), \<open>json.dumps\<close> with
  \<open>ensure_ascii=False\<close> and \<open>json.loads\<close>.

  A float is modelled by its \<open>repr\<close>: a sign, the shortest decimal mantissa and a power of
  ten, or an infinity, or NaN. A numeral of a JSON text keeps all its digits, so the model is
  exact for numerals of up to 15 significant digits. The dictionary of a JSON object is the
  list of its items in insertion order.
\<close>

datatype pyfloat = Dec bool nat int | Infinity bool | NaN

datatype json = JNull | JBool bool | JInt int | JFloat pyfloat | JStr ustr
  | JList "json list" | JObj "(ustr \<times> json) list"

type_synonym obj = "(ustr \<times> json) list"

abbreviation S :: "string \<Rightarrow> json" where
  "S s \<equiv> JStr (u s)"

section \<open>Dictionaries\<close>

definition oget :: "obj \<Rightarrow> string \<Rightarrow> json" where
  "oget d k = (case map_of d (u k) of None \<Rightarrow> JNull | Some v \<Rightarrow> v)"

definition ohas :: "obj \<Rightarrow> string \<Rightarrow> bool" where
  "ohas d k \<longleftrightarrow> map_of d (u k) \<noteq> None"

fun oput :: "obj \<Rightarrow> ustr \<Rightarrow> json \<Rightarrow> obj" where
  "oput [] k v = [(k, v)]"
| "oput ((k', v') # d) k v = (if k' = k then (k, v) # d else (k', v') # oput d k v)"

definition oset :: "obj \<Rightarrow> string \<Rightarrow> json \<Rightarrow> obj" where
  "oset d k v = oput d (u k) v"

definition odel :: "obj \<Rightarrow> string \<Rightarrow> obj" where
  "odel d k = filter (\<lambda>(k', v). k' \<noteq> u k) d"

definition dict_of :: "obj \<Rightarrow> obj" where
  "dict_of kvs = fold (\<lambda>(k, v) d. oput d k v) kvs []"

definition oupdate :: "obj \<Rightarrow> obj \<Rightarrow> obj" where
  "oupdate d e = fold (\<lambda>(k, v) d. oput d k v) e d"

definition okeys :: "obj \<Rightarrow> ustr list" where
  "okeys d = map fst d"

lemma map_of_oput: "map_of (oput d k v) = (map_of d)(k \<mapsto> v)"
  by (induction d) auto

lemma okeys_oput: "map fst (oput d k v) = (if k \<in> fst ` set d then map fst d else map fst d @ [k])"
  by (induction d) force+

lemma distinct_oput: "distinct (map fst d) \<Longrightarrow> distinct (map fst (oput d k v))"
  by (auto simp: okeys_oput)

lemma oget_oset [simp]: "oget (oset d k v) j = (if j = k then v else oget d j)"
  by (simp add: oget_def oset_def map_of_oput)

lemma ohas_oset [simp]: "ohas (oset d k v) j \<longleftrightarrow> j = k \<or> ohas d j"
  by (auto simp: ohas_def oset_def map_of_oput)

lemma oget_Nil [simp]: "oget [] k = JNull"
  by (simp add: oget_def)

lemma ohas_Nil [simp]: "\<not> ohas [] k"
  by (simp add: ohas_def)

lemma oget_Cons [simp]: "oget ((u k', v) # d) k = (if k = k' then v else oget d k)"
  by (simp add: oget_def)

lemma ohas_Cons [simp]: "ohas ((u k', v) # d) k \<longleftrightarrow> k = k' \<or> ohas d k"
  by (auto simp: ohas_def)

lemma oget_append: "oget (d @ e) k = (if ohas d k then oget d k else oget e k)"
  by (auto simp: oget_def ohas_def map_add_def split: option.split)

lemma ohas_append: "ohas (d @ e) k \<longleftrightarrow> ohas d k \<or> ohas e k"
  by (auto simp: ohas_def map_add_def split: option.split)

lemma oget_absent: "\<not> ohas d k \<Longrightarrow> oget d k = JNull"
  by (simp add: oget_def ohas_def)

lemma oput_fresh: "k \<notin> fst ` set d \<Longrightarrow> oput d k v = d @ [(k, v)]"
  by (induction d) auto

lemma fold_oput_distinct:
  "distinct (map fst (d @ e)) \<Longrightarrow> fold (\<lambda>(k, v) d. oput d k v) e d = d @ e"
proof (induction e arbitrary: d)
  case (Cons kv e)
  obtain k v where "kv = (k, v)" by (cases kv)
  with Cons.prems have "oput d k v = d @ [kv]" by (auto intro: oput_fresh)
  with Cons \<open>kv = (k, v)\<close> show ?case by auto
qed simp

lemma dict_of_distinct: "distinct (map fst d) \<Longrightarrow> dict_of d = d"
  using fold_oput_distinct [of "[]" d] by (simp add: dict_of_def)

section \<open>Type tests, truth values and set membership\<close>

fun is_str :: "json \<Rightarrow> bool" where "is_str (JStr s) = True" | "is_str v = False"
fun is_list :: "json \<Rightarrow> bool" where "is_list (JList xs) = True" | "is_list v = False"
fun is_obj :: "json \<Rightarrow> bool" where "is_obj (JObj d) = True" | "is_obj v = False"
fun is_bool :: "json \<Rightarrow> bool" where "is_bool (JBool b) = True" | "is_bool v = False"

text \<open>\<open>isinstance(v, int) and not isinstance(v, bool)\<close>, and the same with \<open>(int, float)\<close>.\<close>

fun is_int :: "json \<Rightarrow> bool" where "is_int (JInt i) = True" | "is_int v = False"

fun is_number :: "json \<Rightarrow> bool" where
  "is_number (JInt i) = True"
| "is_number (JFloat f) = True"
| "is_number v = False"

fun float_zero :: "pyfloat \<Rightarrow> bool" where
  "float_zero (Dec n m e) = (m = 0)"
| "float_zero (Infinity n) = False"
| "float_zero NaN = False"

fun truthy :: "json \<Rightarrow> bool" where
  "truthy JNull = False"
| "truthy (JBool b) = b"
| "truthy (JInt i) = (i \<noteq> 0)"
| "truthy (JFloat f) = (\<not> float_zero f)"
| "truthy (JStr s) = (s \<noteq> [])"
| "truthy (JList xs) = (xs \<noteq> [])"
| "truthy (JObj d) = (d \<noteq> [])"

text \<open>\<open>a or b\<close> as a value.\<close>

definition or_else :: "json \<Rightarrow> json \<Rightarrow> json" where
  "or_else a b = (if truthy a then a else b)"

text \<open>\<open>v in {..}\<close> for a set literal of strings: hashing a list or a dict raises.\<close>

fun hashable :: "json \<Rightarrow> bool" where
  "hashable (JList xs) = False"
| "hashable (JObj d) = False"
| "hashable v = True"

definition in_set :: "json \<Rightarrow> json list \<Rightarrow> bool result" where
  "in_set v vs = (if hashable v then Inr (v \<in> set vs) else Inl (PyError TypeError))"

text \<open>\<open>v in {None, False}\<close>: the numbers equal to \<open>False\<close> are members too.\<close>

fun in_none_false :: "json \<Rightarrow> bool result" where
  "in_none_false JNull = Inr True"
| "in_none_false (JBool b) = Inr (\<not> b)"
| "in_none_false (JInt i) = Inr (i = 0)"
| "in_none_false (JFloat f) = Inr (float_zero f)"
| "in_none_false (JStr s) = Inr False"
| "in_none_false v = Inl (PyError TypeError)"

lemma in_set_str [simp]: "in_set (JStr s) vs = Inr (JStr s \<in> set vs)"
  by (simp add: in_set_def)

lemma in_set_Null [simp]: "in_set JNull vs = Inr (JNull \<in> set vs)"
  by (simp add: in_set_def)

lemma in_set_True_iff [simp]: "in_set v vs = Inr True \<longleftrightarrow> hashable v \<and> v \<in> set vs"
  by (simp add: in_set_def)

text \<open>\<open>for x in v\<close> for a JSON value: the items of its iteration.\<close>

definition iterate :: "json \<Rightarrow> json list result" where
  "iterate v =
     (case v of
        JList xs \<Rightarrow> Inr xs
      | JStr s \<Rightarrow> Inr (map (\<lambda>c. JStr [c]) s)
      | JObj d \<Rightarrow> Inr (map JStr (okeys d))
      | _ \<Rightarrow> Inl (PyError TypeError))"

text \<open>The decimal value of a float against an integer bound.\<close>

fun float_ge0 :: "pyfloat \<Rightarrow> bool" where
  "float_ge0 (Dec neg m e) = (\<not> neg \<or> m = 0)"
| "float_ge0 (Infinity neg) = (\<not> neg)"
| "float_ge0 NaN = False"

fun float_le :: "pyfloat \<Rightarrow> int \<Rightarrow> bool" where
  "float_le (Dec neg m e) n =
     (let k = (if neg then - int m else int m)
      in if e \<ge> 0 then k * 10 ^ nat e \<le> n else k \<le> n * 10 ^ nat (- e))"
| "float_le (Infinity neg) n = neg"
| "float_le NaN n = False"

fun number_in :: "json \<Rightarrow> int \<Rightarrow> bool" where
  "number_in (JInt i) n = (0 \<le> i \<and> i \<le> n)"
| "number_in (JFloat f) n = (float_ge0 f \<and> float_le f n)"
| "number_in v n = False"

end
