(* ===== verification/Json_Text.thy ===== *)
theory Json_Text
  imports Json
begin

text \<open>
  The texts of JSON values: \<open>str\<close> and \<open>repr\<close>, \<open>json.dumps\<close> with \<open>ensure_ascii=False\<close> and
  \<open>json.loads\<close> as a recursive descent parser. The interface the clients use is the locale
  \<open>json_codec\<close>: what \<open>dumps\<close> writes, \<open>loads\<close> reads back. It is interpreted on the two
  functions defined here, for values without floats whose dictionaries have distinct keys.
\<close>

section \<open>Numerals\<close>

fun nat_digits :: "nat \<Rightarrow> ustr" where
  "nat_digits n = (if n < 10 then [48 + n] else nat_digits (n div 10) @ [48 + n mod 10])"

declare nat_digits.simps [simp del]

definition int_str :: "int \<Rightarrow> ustr" where
  "int_str i = (if i < 0 then 45 # nat_digits (nat (- i)) else nat_digits (nat i))"

definition zeros :: "nat \<Rightarrow> ustr" where
  "zeros n = replicate n 48"

text \<open>\<open>repr\<close> of a float: fixed notation while the decimal point is within 16 digits.\<close>

fun float_str :: "pyfloat \<Rightarrow> ustr" where
  "float_str (Infinity neg) = u (if neg then ''-Infinity'' else ''Infinity'')"
| "float_str NaN = u ''NaN''"
| "float_str (Dec neg m e) =
     (let ds = nat_digits m; n = int (length ds); pt = n + e
      in (if neg then [45] else []) @
         (if -4 < pt \<and> pt \<le> 16 then
            (if pt \<le> 0 then [48, 46] @ zeros (nat (- pt)) @ ds
             else if pt \<ge> n then ds @ zeros (nat e) @ [46, 48]
             else take (nat pt) ds @ [46] @ drop (nat pt) ds)
          else
            (let x = pt - 1; xs = nat_digits (nat (abs x))
             in [hd ds] @ (if length ds = 1 then [] else 46 # tl ds) @
                [101, if x < 0 then 45 else 43] @ (if length xs < 2 then 48 # xs else xs))))"

section \<open>json.dumps\<close>

definition hex_digit :: "nat \<Rightarrow> nat" where
  "hex_digit n = (if n < 10 then 48 + n else 87 + n)"

definition escape_char :: "nat \<Rightarrow> ustr" where
  "escape_char c =
     (if c = 34 then [92, 34] else if c = 92 then [92, 92]
      else if c = 10 then [92, 110] else if c = 13 then [92, 114] else if c = 9 then [92, 116]
      else if c = 12 then [92, 102] else if c = 8 then [92, 98]
      else if c < 32 then [92, 117, 48, 48, hex_digit (c div 16), hex_digit (c mod 16)]
      else [c])"

definition quote :: "ustr \<Rightarrow> ustr" where
  "quote s = 34 # concat (map escape_char s) @ [34]"

fun dumps_with :: "ustr \<Rightarrow> ustr \<Rightarrow> json \<Rightarrow> ustr"
  and dumps_items :: "ustr \<Rightarrow> ustr \<Rightarrow> json list \<Rightarrow> ustr"
  and dumps_pairs :: "ustr \<Rightarrow> ustr \<Rightarrow> (ustr \<times> json) list \<Rightarrow> ustr" where
  "dumps_with isep ksep JNull = u ''null''"
| "dumps_with isep ksep (JBool b) = u (if b then ''true'' else ''false'')"
| "dumps_with isep ksep (JInt i) = int_str i"
| "dumps_with isep ksep (JFloat f) = float_str f"
| "dumps_with isep ksep (JStr s) = quote s"
| "dumps_with isep ksep (JList xs) = 91 # dumps_items isep ksep xs @ [93]"
| "dumps_with isep ksep (JObj d) = 123 # dumps_pairs isep ksep d @ [125]"
| "dumps_items isep ksep [] = []"
| "dumps_items isep ksep [x] = dumps_with isep ksep x"
| "dumps_items isep ksep (x # y # xs) =
     dumps_with isep ksep x @ isep @ dumps_items isep ksep (y # xs)"
| "dumps_pairs isep ksep [] = []"
| "dumps_pairs isep ksep [(k, x)] = quote k @ ksep @ dumps_with isep ksep x"
| "dumps_pairs isep ksep ((k, x) # p # d) =
     quote k @ ksep @ dumps_with isep ksep x @ isep @ dumps_pairs isep ksep (p # d)"

text \<open>The default separators, and the compact ones of \<open>separators=(",", ":")\<close>.\<close>

definition dumps :: "json \<Rightarrow> ustr" where
  "dumps v = dumps_with (u '', '') (u '': '') v"

definition dumps_compact :: "json \<Rightarrow> ustr" where
  "dumps_compact v = dumps_with (u '','') (u '':'') v"

section \<open>str and repr\<close>

text \<open>
  \<open>repr\<close> of a string: double quotes only when it has a single quote and no double one; a
  character that \<open>str.isprintable\<close> refuses is escaped. The table is exact up to 255 and
  takes every code point beyond as printable.
\<close>

definition unprintable :: "nat \<Rightarrow> bool" where
  "unprintable c \<longleftrightarrow> c < 32 \<or> (127 \<le> c \<and> c \<le> 160) \<or> c = 173"

definition repr_char :: "nat \<Rightarrow> nat \<Rightarrow> ustr" where
  "repr_char q c =
     (if c = q \<or> c = 92 then [92, c] else if c = 10 then [92, 110] else if c = 13 then [92, 114]
      else if c = 9 then [92, 116]
      else if unprintable c then [92, 120, hex_digit (c div 16), hex_digit (c mod 16)] else [c])"

definition repr_str :: "ustr \<Rightarrow> ustr" where
  "repr_str s =
     (let q = (if 39 \<in> set s \<and> 34 \<notin> set s then 34 else 39)
      in q # concat (map (repr_char q) s) @ [q])"

definition py_float_str :: "pyfloat \<Rightarrow> ustr" where
  "py_float_str f =
     (case f of Infinity neg \<Rightarrow> u (if neg then ''-inf'' else ''inf'') | NaN \<Rightarrow> u ''nan'' | _ \<Rightarrow> float_str f)"

fun py_repr :: "json \<Rightarrow> ustr"
  and repr_items :: "json list \<Rightarrow> ustr"
  and repr_pairs :: "(ustr \<times> json) list \<Rightarrow> ustr" where
  "py_repr JNull = u ''None''"
| "py_repr (JBool b) = u (if b then ''True'' else ''False'')"
| "py_repr (JInt i) = int_str i"
| "py_repr (JFloat f) = py_float_str f"
| "py_repr (JStr s) = repr_str s"
| "py_repr (JList xs) = 91 # repr_items xs @ [93]"
| "py_repr (JObj d) = 123 # repr_pairs d @ [125]"
| "repr_items [] = []"
| "repr_items [x] = py_repr x"
| "repr_items (x # y # xs) = py_repr x @ [44, 32] @ repr_items (y # xs)"
| "repr_pairs [] = []"
| "repr_pairs [(k, x)] = repr_str k @ [58, 32] @ py_repr x"
| "repr_pairs ((k, x) # p # d) = repr_str k @ [58, 32] @ py_repr x @ [44, 32] @ repr_pairs (p # d)"

fun py_str :: "json \<Rightarrow> ustr" where
  "py_str (JStr s) = s"
| "py_str v = py_repr v"

section \<open>json.loads\<close>

definition json_ws :: "nat \<Rightarrow> bool" where
  "json_ws c \<longleftrightarrow> c = 32 \<or> c = 9 \<or> c = 10 \<or> c = 13"

definition skip_ws :: "ustr \<Rightarrow> ustr" where
  "skip_ws s = dropWhile json_ws s"

definition is_digit :: "nat \<Rightarrow> bool" where
  "is_digit c \<longleftrightarrow> 48 \<le> c \<and> c \<le> 57"

definition hex_val :: "nat \<Rightarrow> nat option" where
  "hex_val c = (if 48 \<le> c \<and> c \<le> 57 then Some (c - 48)
     else if 97 \<le> c \<and> c \<le> 102 then Some (c - 87)
     else if 65 \<le> c \<and> c \<le> 70 then Some (c - 55) else None)"

definition hex4 :: "nat \<Rightarrow> nat \<Rightarrow> nat \<Rightarrow> nat \<Rightarrow> nat option" where
  "hex4 a b c d = (case (hex_val a, hex_val b, hex_val c, hex_val d) of
     (Some x, Some y, Some z, Some w) \<Rightarrow> Some (4096 * x + 256 * y + 16 * z + w) | _ \<Rightarrow> None)"

definition unescape :: "nat \<Rightarrow> nat option" where
  "unescape e = (if e = 34 \<or> e = 92 \<or> e = 47 then Some e else if e = 98 then Some 8
     else if e = 102 then Some 12 else if e = 110 then Some 10 else if e = 114 then Some 13
     else if e = 116 then Some 9 else None)"

definition cons_fst :: "nat \<Rightarrow> (ustr \<times> ustr) option \<Rightarrow> (ustr \<times> ustr) option" where
  "cons_fst c r = map_option (\<lambda>(t, s). (c # t, s)) r"

text \<open>The body of a string after its opening quote; a surrogate pair is one character.\<close>

fun parse_str :: "ustr \<Rightarrow> (ustr \<times> ustr) option" where
  "parse_str [] = None"
| "parse_str (c # cs) =
     (if c = 34 then Some ([], cs)
      else if c = 92 then
        (case cs of
           [] \<Rightarrow> None
         | e # es \<Rightarrow>
             (if e = 117 then
                (case es of
                   h1 # h2 # h3 # h4 # rest \<Rightarrow>
                     (case hex4 h1 h2 h3 h4 of
                        None \<Rightarrow> None
                      | Some n \<Rightarrow>
                          (if 55296 \<le> n \<and> n \<le> 56319 then
                             (case rest of
                                b1 # b2 # k1 # k2 # k3 # k4 # rest' \<Rightarrow>
                                  (if b1 = 92 \<and> b2 = 117 then
                                     (case hex4 k1 k2 k3 k4 of
                                        None \<Rightarrow> None
                                      | Some m \<Rightarrow>
                                          (if 56320 \<le> m \<and> m \<le> 57343
                                           then cons_fst (65536 + 1024 * (n - 55296) + (m - 56320))
                                                  (parse_str rest')
                                           else cons_fst n (parse_str rest)))
                                   else cons_fst n (parse_str rest))
                              | _ \<Rightarrow> cons_fst n (parse_str rest))
                           else cons_fst n (parse_str rest)))
                 | _ \<Rightarrow> None)
              else
                (case unescape e of None \<Rightarrow> None | Some c' \<Rightarrow> cons_fst c' (parse_str es))))
      else if c < 32 then None
      else cons_fst c (parse_str cs))"

fun digits_val :: "nat \<Rightarrow> ustr \<Rightarrow> nat" where
  "digits_val acc [] = acc"
| "digits_val acc (c # cs) = digits_val (10 * acc + (c - 48)) cs"

fun canon :: "nat \<Rightarrow> int \<Rightarrow> nat \<times> int" where
  "canon m e = (if m = 0 then (0, 0) else if m mod 10 = 0 then canon (m div 10) (e + 1) else (m, e))"

declare canon.simps [simp del]

definition make_float :: "bool \<Rightarrow> nat \<Rightarrow> int \<Rightarrow> pyfloat" where
  "make_float neg m e =
     (let (m', e') = canon m e;
          big = 2 ^ 1024 - 2 ^ 970;
          over = (if e' \<ge> 0 then big \<le> m' * 10 ^ nat e' else big * 10 ^ nat (- e') \<le> m');
          under = (e' < 0 \<and> m' * 2 ^ 1075 \<le> 10 ^ nat (- e'))
      in if over then Infinity neg else if under then Dec neg 0 0 else Dec neg m' e')"

definition int_part :: "ustr \<Rightarrow> ustr" where
  "int_part s = (if startswith s [48] then [48] else takeWhile is_digit s)"

text \<open>A numeral: an integer, or a float when a fraction or an exponent follows.\<close>

definition parse_number :: "ustr \<Rightarrow> (json \<times> ustr) option" where
  "parse_number s =
     (let neg = startswith s [45]; s1 = (if neg then tl s else s);
          ip = int_part s1;
          s2 = drop (length ip) s1
      in if ip = [] then None
         else
           let frac = (if startswith s2 [46] then takeWhile is_digit (tl s2) else []);
               s3 = (if frac = [] then s2 else drop (Suc (length frac)) s2);
               has_e = (startswith s3 [101] \<or> startswith s3 [69]);
               s4 = (if has_e then tl s3 else s3);
               esign = has_e \<and> (startswith s4 [43] \<or> startswith s4 [45]);
               eneg = has_e \<and> startswith s4 [45];
               s5 = (if esign then tl s4 else s4);
               ex = (if has_e then takeWhile is_digit s5 else []);
               rest = (if ex = [] then s3 else drop (length ex) s5);
               m = digits_val 0 (ip @ frac);
               x = int (digits_val 0 ex)
           in if frac = [] \<and> ex = [] then
                (if length ip > 4300 then None
                 else Some (JInt (if neg then - int m else int m), rest))
              else Some (JFloat (make_float neg m ((if eneg then - x else x) - int (length frac))),
                         rest))"

fun parse_value :: "nat \<Rightarrow> ustr \<Rightarrow> (json \<times> ustr) option"
  and parse_items :: "nat \<Rightarrow> ustr \<Rightarrow> (json list \<times> ustr) option"
  and parse_pairs :: "nat \<Rightarrow> ustr \<Rightarrow> (obj \<times> ustr) option" where
  "parse_value 0 s = None"
| "parse_value (Suc n) [] = None"
| "parse_value (Suc n) (c # cs) =
     (if c = 34 then map_option (\<lambda>(t, r). (JStr t, r)) (parse_str cs)
      else if c = 123 then
        (let r = skip_ws cs
         in if startswith r [125] then Some (JObj [], tl r)
            else map_option (\<lambda>(d, r). (JObj (dict_of d), r)) (parse_pairs n r))
      else if c = 91 then
        (let r = skip_ws cs
         in if startswith r [93] then Some (JList [], tl r)
            else map_option (\<lambda>(xs, r). (JList xs, r)) (parse_items n r))
      else if startswith (c # cs) (u ''null'') then Some (JNull, drop 4 (c # cs))
      else if startswith (c # cs) (u ''true'') then Some (JBool True, drop 4 (c # cs))
      else if startswith (c # cs) (u ''false'') then Some (JBool False, drop 5 (c # cs))
      else if startswith (c # cs) (u ''NaN'') then Some (JFloat NaN, drop 3 (c # cs))
      else if startswith (c # cs) (u ''Infinity'') then Some (JFloat (Infinity False), drop 8 (c # cs))
      else if startswith (c # cs) (u ''-Infinity'') then Some (JFloat (Infinity True), drop 9 (c # cs))
      else parse_number (c # cs))"
| "parse_items 0 s = None"
| "parse_items (Suc n) s =
     (case parse_value n s of
        None \<Rightarrow> None
      | Some (x, r) \<Rightarrow>
          (case skip_ws r of
             [] \<Rightarrow> None
           | d # ds \<Rightarrow>
               (if d = 93 then Some ([x], ds)
                else if d = 44 then
                  map_option (\<lambda>(xs, r'). (x # xs, r')) (parse_items n (skip_ws ds))
                else None)))"
| "parse_pairs 0 s = None"
| "parse_pairs (Suc n) s =
     (case s of
        [] \<Rightarrow> None
      | q # qs \<Rightarrow>
          if q \<noteq> 34 then None
          else
            (case parse_str qs of
               None \<Rightarrow> None
             | Some (k, r) \<Rightarrow>
                 (case skip_ws r of
                    [] \<Rightarrow> None
                  | d # ds \<Rightarrow>
                      if d \<noteq> 58 then None
                      else
                        (case parse_value n (skip_ws ds) of
                           None \<Rightarrow> None
                         | Some (v, r') \<Rightarrow>
                             (case skip_ws r' of
                                [] \<Rightarrow> None
                              | e # es \<Rightarrow>
                                  (if e = 125 then Some ([(k, v)], es)
                                   else if e = 44 then
                                     map_option (\<lambda>(d, r''). ((k, v) # d, r''))
                                       (parse_pairs n (skip_ws es))
                                   else None))))))"

text \<open>\<open>json.loads\<close>; \<open>None\<close> is the \<open>ValueError\<close> of a text that is not JSON.\<close>

definition loads :: "ustr \<Rightarrow> json option" where
  "loads s =
     (case parse_value (2 * length s + 2) (skip_ws s) of
        Some (v, r) \<Rightarrow> if skip_ws r = [] then Some v else None
      | None \<Rightarrow> None)"

section \<open>What dumps writes, loads reads\<close>

lemma nat_digits_digits: "\<forall>c \<in> set (nat_digits n). is_digit c"
proof (induction n rule: nat_digits.induct)
  case (1 n)
  then show ?case by (subst nat_digits.simps) (auto simp: is_digit_def)
qed

lemma nat_digits_nonempty: "nat_digits n \<noteq> []"
  by (subst nat_digits.simps) simp

lemma digits_val_append: "digits_val acc (xs @ [c]) = 10 * digits_val acc xs + (c - 48)"
  by (induction xs arbitrary: acc) auto

lemma digits_val_nat_digits: "digits_val 0 (nat_digits n) = n"
proof (induction n rule: nat_digits.induct)
  case (1 n)
  then show ?case by (subst nat_digits.simps) (auto simp: digits_val_append)
qed

lemma nat_digits_head: "n \<noteq> 0 \<Longrightarrow> hd (nat_digits n) \<noteq> 48"
proof (induction n rule: nat_digits.induct)
  case (1 n)
  then show ?case
    by (subst nat_digits.simps) (auto simp: nat_digits_nonempty hd_append)
qed

lemma nat_digits_0: "nat_digits 0 = [48]"
  by (subst nat_digits.simps) simp

text \<open>A text a number may be followed by.\<close>

definition number_stop :: "ustr \<Rightarrow> bool" where
  "number_stop r \<longleftrightarrow> (r = [] \<or> (\<not> is_digit (hd r) \<and> hd r \<noteq> 46 \<and> hd r \<noteq> 101 \<and> hd r \<noteq> 69))"

lemma takeWhile_digits:
  assumes "number_stop r"
  shows "takeWhile is_digit (nat_digits n @ r) = nat_digits n"
proof -
  have "takeWhile is_digit r = []"
    using assms by (cases r) (auto simp: number_stop_def)
  then show ?thesis using nat_digits_digits by (simp add: takeWhile_append2)
qed

lemma startswith_Cons [simp]: "startswith (c # s) (d # p) \<longleftrightarrow> c = d \<and> startswith s p"
  by (auto simp: startswith_def)

lemma startswith_Nil [simp]: "startswith s []" "startswith [] (d # p) \<longleftrightarrow> False"
  by (auto simp: startswith_def)

lemma integer_part:
  assumes "number_stop r"
  shows "int_part (nat_digits n @ r) = nat_digits n"
proof (cases "n = 0")
  case True
  then show ?thesis by (simp add: nat_digits_0 int_part_def)
next
  case False
  obtain d ds where "nat_digits n = d # ds" using nat_digits_nonempty by (cases "nat_digits n") auto
  with False nat_digits_head [of n] takeWhile_digits [OF assms, of n] show ?thesis
    by (simp add: int_part_def)
qed

definition int_ok :: "int \<Rightarrow> bool" where
  "int_ok i \<longleftrightarrow> length (nat_digits (nat (abs i))) \<le> 4300"

lemma digits_not_minus: "\<not> startswith (nat_digits n @ r) [45]"
  using nat_digits_digits [of n] nat_digits_nonempty [of n]
  by (cases "nat_digits n") (auto simp: is_digit_def)

lemma parse_number_int:
  assumes "number_stop r" "int_ok i"
  shows "parse_number (int_str i @ r) = Some (JInt i, r)"
proof -
  have stop: "\<not> startswith r [46]" "\<not> startswith r [101]" "\<not> startswith r [69]"
    using assms(1) by (cases r; auto simp: number_stop_def)+
  show ?thesis
  proof (cases "i < 0")
    case True
    let ?n = "nat (- i)"
    have "int_str i @ r = 45 # nat_digits ?n @ r" using True by (simp add: int_str_def)
    then show ?thesis
      using True assms stop nat_digits_nonempty [of ?n]
      by (simp add: parse_number_def Let_def integer_part digits_val_nat_digits int_ok_def)
  next
    case False
    let ?n = "nat i"
    have "int_str i @ r = nat_digits ?n @ r" using False by (simp add: int_str_def)
    then show ?thesis
      using False assms stop nat_digits_nonempty [of ?n]
      by (simp add: parse_number_def Let_def integer_part digits_val_nat_digits int_ok_def
          digits_not_minus)
  qed
qed

lemma hex_val_digit: "n < 16 \<Longrightarrow> hex_val (hex_digit n) = Some n"
  by (simp add: hex_val_def hex_digit_def)

lemma hex4_control: "c < 32 \<Longrightarrow> hex4 48 48 (hex_digit (c div 16)) (hex_digit (c mod 16)) = Some c"
proof -
  have "hex_val 48 = Some 0" by (simp add: hex_val_def)
  moreover assume "c < 32"
  ultimately show ?thesis by (simp add: hex4_def hex_val_digit)
qed

lemma parse_str_escape: "parse_str (escape_char c @ r) = cons_fst c (parse_str r)"
  by (simp add: escape_char_def hex4_control unescape_def)

lemma parse_str_quoted: "parse_str (concat (map escape_char s) @ 34 # r) = Some (s, r)"
  by (induction s) (simp_all add: parse_str_escape cons_fst_def)

fun wf_json :: "json \<Rightarrow> bool"
  and wf_items :: "json list \<Rightarrow> bool"
  and wf_pairs :: "obj \<Rightarrow> bool" where
  "wf_json JNull = True"
| "wf_json (JBool b) = True"
| "wf_json (JInt i) = int_ok i"
| "wf_json (JFloat f) = False"
| "wf_json (JStr s) = True"
| "wf_json (JList xs) = wf_items xs"
| "wf_json (JObj d) = (distinct (map fst d) \<and> wf_pairs d)"
| "wf_items [] = True"
| "wf_items (x # xs) = (wf_json x \<and> wf_items xs)"
| "wf_pairs [] = True"
| "wf_pairs ((k, x) # d) = (wf_json x \<and> wf_pairs d)"

text \<open>The fuel a value needs, and the fuel \<open>loads\<close> gives.\<close>

fun cost :: "json \<Rightarrow> nat"
  and cost_items :: "json list \<Rightarrow> nat"
  and cost_pairs :: "obj \<Rightarrow> nat" where
  "cost (JList xs) = Suc (cost_items xs)"
| "cost (JObj d) = Suc (cost_pairs d)"
| "cost v = 1"
| "cost_items [] = 0"
| "cost_items (x # xs) = Suc (cost x + cost_items xs)"
| "cost_pairs [] = 0"
| "cost_pairs ((k, x) # d) = Suc (cost x + cost_pairs d)"

lemma int_str_nonempty: "int_str i \<noteq> []"
  by (simp add: int_str_def nat_digits_nonempty)

lemma length_int_str: "1 \<le> length (int_str i)"
  using int_str_nonempty [of i] by (cases "int_str i") auto

lemma length_quote: "2 \<le> length (quote s)"
  by (simp add: quote_def)

lemma cost_le_length:
  "wf_json v \<Longrightarrow> cost v \<le> 2 * length (dumps_with (44 # w) (58 # w') v)"
  "wf_items xs \<Longrightarrow> cost_items xs \<le> 2 * length (dumps_items (44 # w) (58 # w') xs) + 1"
  "wf_pairs d \<Longrightarrow> cost_pairs d \<le> 2 * length (dumps_pairs (44 # w) (58 # w') d) + 1"
proof (induction v and xs and d rule: wf_json_wf_items_wf_pairs.induct)
  case (3 i)
  then show ?case using length_int_str [of i] by simp
next
  case (5 s)
  then show ?case using length_quote [of s] by simp
next
  case (9 x xs)
  then show ?case by (cases xs) auto
next
  case (11 k x d)
  then show ?case by (cases d) auto
qed auto

lemma int_str_head: "\<exists>c cs. int_str i = c # cs \<and> (is_digit c \<or> c = 45 \<and> cs \<noteq> [] \<and> is_digit (hd cs))"
proof -
  obtain d ds where nd: "nat_digits (nat (abs i)) = d # ds"
    using nat_digits_nonempty by (cases "nat_digits (nat (abs i))") auto
  moreover have "is_digit d" using nat_digits_digits [of "nat (abs i)"] nd by simp
  ultimately show ?thesis by (auto simp: int_str_def)
qed

lemma dumps_head:
  "wf_json v \<Longrightarrow> \<exists>c cs. dumps_with is ks v = c # cs \<and> \<not> json_ws c \<and> c \<noteq> 93 \<and> c \<noteq> 125"
proof (cases v)
  case (JInt i)
  with int_str_head [of i] show ?thesis by (auto simp: json_ws_def is_digit_def)
qed (auto simp: u_def quote_def json_ws_def)

lemma skip_ws_head: "\<not> json_ws c \<Longrightarrow> skip_ws (c # s) = c # s"
  by (simp add: skip_ws_def)

lemma skip_ws_append: "\<forall>c \<in> set w. json_ws c \<Longrightarrow> skip_ws (w @ s) = skip_ws s"
  by (simp add: skip_ws_def dropWhile_append2)

lemma skip_ws_dumps:
  "wf_json v \<Longrightarrow> skip_ws (dumps_with is ks v @ r) = dumps_with is ks v @ r"
  using dumps_head [of v "is" ks] by (auto simp: skip_ws_head)

lemma json_words:
  "u ''null'' = [110, 117, 108, 108]" "u ''true'' = [116, 114, 117, 101]"
  "u ''false'' = [102, 97, 108, 115, 101]" "u ''NaN'' = [78, 97, 78]"
  "u ''Infinity'' = [73, 110, 102, 105, 110, 105, 116, 121]"
  "u ''-Infinity'' = [45, 73, 110, 102, 105, 110, 105, 116, 121]"
  by (simp_all add: u_def)

lemma parse_value_numeral:
  assumes "is_digit c \<or> c = 45 \<and> \<not> startswith cs [73]"
  shows "parse_value (Suc n) (c # cs) = parse_number (c # cs)"
proof -
  have "c \<noteq> 34" "c \<noteq> 123" "c \<noteq> 91" "c \<noteq> 110" "c \<noteq> 116" "c \<noteq> 102" "c \<noteq> 78" "c \<noteq> 73"
    using assms by (auto simp: is_digit_def)
  moreover have "\<not> startswith (c # cs) (u ''-Infinity'')"
    using assms by (cases cs) (auto simp: json_words is_digit_def)
  ultimately show ?thesis by (auto simp: json_words)
qed

lemma parse_value_int:
  assumes "number_stop r" "int_ok i"
  shows "parse_value (Suc n) (int_str i @ r) = Some (JInt i, r)"
proof -
  obtain c cs where c: "int_str i = c # cs"
    "is_digit c \<or> c = 45 \<and> cs \<noteq> [] \<and> is_digit (hd cs)"
    using int_str_head by blast
  from c(2) have "is_digit c \<or> c = 45 \<and> \<not> startswith (cs @ r) [73]"
    by (cases cs) (auto simp: is_digit_def)
  then have "parse_value (Suc n) (c # cs @ r) = parse_number (c # cs @ r)"
    by (rule parse_value_numeral)
  with parse_number_int [OF assms] c(1) show ?thesis by simp
qed

text \<open>The separators the parser is run against: a comma or a colon, then white space.\<close>

definition sep_ok :: "ustr \<Rightarrow> bool" where
  "sep_ok w \<longleftrightarrow> (\<forall>c \<in> set w. json_ws c)"

lemma number_stop_Cons: "c = 44 \<or> c = 93 \<or> c = 125 \<Longrightarrow> number_stop (c # r)"
  by (auto simp: number_stop_def is_digit_def)

lemma number_stop_Nil [simp]: "number_stop []"
  by (simp add: number_stop_def)

lemma skip_sep_dumps:
  "sep_ok w \<Longrightarrow> wf_json v \<Longrightarrow> skip_ws (w @ dumps_with is ks v @ r) = dumps_with is ks v @ r"
  by (simp add: sep_ok_def skip_ws_append skip_ws_dumps)

lemma dumps_items_head:
  "wf_items xs \<Longrightarrow> xs \<noteq> [] \<Longrightarrow>
   \<exists>c cs. dumps_items is ks xs = c # cs \<and> \<not> json_ws c \<and> c \<noteq> 93"
  using dumps_head [of "hd xs" "is" ks] by (cases xs rule: remdups_adj.cases) auto

lemma dumps_pairs_head: "d \<noteq> [] \<Longrightarrow> \<exists>cs. dumps_pairs is ks d = 34 # cs"
  by (cases d rule: remdups_adj.cases) (auto simp: quote_def)

lemma skip_sep_items:
  assumes "sep_ok w" "wf_items xs" "xs \<noteq> []"
  shows "skip_ws (w @ dumps_items is ks xs @ r) = dumps_items is ks xs @ r"
  using dumps_items_head [OF assms(2,3), of "is" ks] assms(1)
  by (auto simp: sep_ok_def skip_ws_append skip_ws_head)

lemma skip_sep_pairs:
  assumes "sep_ok w" "d \<noteq> []"
  shows "skip_ws (w @ dumps_pairs is ks d @ r) = dumps_pairs is ks d @ r"
  using dumps_pairs_head [OF assms(2), of "is" ks] assms(1)
  by (auto simp: sep_ok_def skip_ws_append skip_ws_head json_ws_def)

lemma skip_quote: "sep_ok w \<Longrightarrow> skip_ws (w @ 34 # s) = 34 # s"
  by (simp add: sep_ok_def skip_ws_append skip_ws_head json_ws_def)

lemma skip_delim [simp]:
  "skip_ws (44 # s) = 44 # s" "skip_ws (93 # s) = 93 # s" "skip_ws (125 # s) = 125 # s"
  "skip_ws (58 # s) = 58 # s"
  by (simp_all add: skip_ws_head json_ws_def)

lemma parse_dumps:
  fixes w w' :: ustr
  assumes w: "sep_ok w" "sep_ok w'"
  defines "is \<equiv> 44 # w" and "ks \<equiv> 58 # w'"
  shows "wf_json v \<Longrightarrow> cost v \<le> n \<Longrightarrow> number_stop r \<Longrightarrow>
      parse_value n (dumps_with is ks v @ r) = Some (v, r)"
    "wf_items xs \<Longrightarrow> xs \<noteq> [] \<Longrightarrow> cost_items xs \<le> n \<Longrightarrow>
      parse_items n (dumps_items is ks xs @ 93 # r) = Some (xs, r)"
    "wf_pairs d \<Longrightarrow> d \<noteq> [] \<Longrightarrow> cost_pairs d \<le> n \<Longrightarrow>
      parse_pairs n (dumps_pairs is ks d @ 125 # r) = Some (d, r)"
proof (induction v and xs and d arbitrary: n r and n r and n r
    rule: wf_json_wf_items_wf_pairs.induct)
  case 1
  then show ?case by (cases n) (auto simp: json_words)
next
  case (2 b)
  then show ?case by (cases n) (auto simp: json_words)
next
  case (3 i)
  then show ?case by (cases n) (auto intro: parse_value_int)
next
  case (4 f)
  then show ?case by simp
next
  case (5 s)
  then show ?case by (cases n) (auto simp: quote_def parse_str_quoted)
next
  case (6 xs)
  then obtain m where n: "n = Suc m" and m: "cost_items xs \<le> m" by (cases n) auto
  show ?case
  proof (cases "xs = []")
    case True
    then show ?thesis using n by simp
  next
    case False
    have wf: "wf_items xs" using "6.prems"(1) by simp
    obtain c cs where "dumps_items is ks xs = c # cs" "c \<noteq> 93" "\<not> json_ws c"
      using dumps_items_head [OF wf False, of "is" ks] by blast
    with "6.IH" [OF wf False m, of r] n show ?thesis by (simp add: skip_ws_head)
  qed
next
  case (7 d)
  then obtain m where n: "n = Suc m" and m: "cost_pairs d \<le> m" by (cases n) auto
  show ?case
  proof (cases "d = []")
    case True
    then show ?thesis using n by simp
  next
    case False
    have wf: "wf_pairs d" and dist: "distinct (map fst d)" using "7.prems"(1) by simp_all
    obtain cs where "dumps_pairs is ks d = 34 # cs"
      using dumps_pairs_head [OF False, of "is" ks] by blast
    with "7.IH" [OF wf False m, of r] n dict_of_distinct [OF dist] show ?thesis
      by (simp add: skip_ws_head json_ws_def)
  qed
next
  case 8
  then show ?case by simp
next
  case (9 x xs)
  then obtain m where n: "n = Suc m" and m: "cost x \<le> m" "cost_items xs \<le> m" by (cases n) auto
  have wf: "wf_json x" "wf_items xs" using "9.prems"(1) by simp_all
  show ?case
  proof (cases xs)
    case Nil
    then show ?thesis
      using "9.IH"(1) [OF wf(1) m(1), of "93 # r"] n by (simp add: number_stop_Cons)
  next
    case (Cons y ys)
    have "parse_value m (dumps_with is ks x @ 44 # w @ dumps_items is ks xs @ 93 # r)
        = Some (x, 44 # w @ dumps_items is ks xs @ 93 # r)"
      using "9.IH"(1) [OF wf(1) m(1)] by (simp add: number_stop_Cons)
    moreover have "parse_items m (dumps_items is ks xs @ 93 # r) = Some (xs, r)"
      using "9.IH"(2) [OF wf(2) _ m(2)] Cons by simp
    ultimately show ?thesis
      using n Cons skip_sep_items [OF w(1) wf(2), of "is" ks "93 # r"] by (simp add: is_def)
  qed
next
  case 10
  then show ?case by simp
next
  case (11 k x d)
  then obtain m where n: "n = Suc m" and m: "cost x \<le> m" "cost_pairs d \<le> m" by (cases n) auto
  have wf: "wf_json x" "wf_pairs d" using "11.prems"(1) by simp_all
  show ?case
  proof (cases d)
    case Nil
    have "parse_value m (dumps_with is ks x @ 125 # r) = Some (x, 125 # r)"
      using "11.IH"(1) [OF wf(1) m(1)] by (simp add: number_stop_Cons)
    then show ?thesis
      using n Nil skip_sep_dumps [OF w(2) wf(1), of "is" ks "125 # r"]
      by (simp add: quote_def parse_str_quoted ks_def)
  next
    case (Cons p ps)
    have "parse_value m (dumps_with is ks x @ 44 # w @ dumps_pairs is ks d @ 125 # r)
        = Some (x, 44 # w @ dumps_pairs is ks d @ 125 # r)"
      using "11.IH"(1) [OF wf(1) m(1)] by (simp add: number_stop_Cons)
    moreover have "parse_pairs m (dumps_pairs is ks d @ 125 # r) = Some (d, r)"
      using "11.IH"(2) [OF wf(2) _ m(2)] Cons by simp
    ultimately show ?thesis
      using n Cons skip_sep_pairs [OF w(1), of d "is" ks "125 # r"]
        skip_sep_dumps [OF w(2) wf(1), of "is" ks "44 # w @ dumps_pairs is ks d @ 125 # r"]
      by (simp add: quote_def parse_str_quoted is_def ks_def)
  qed
qed

lemma loads_dumps_with:
  assumes "sep_ok w" "sep_ok w'" "wf_json v"
  shows "loads (dumps_with (44 # w) (58 # w') v) = Some v"
proof -
  let ?s = "dumps_with (44 # w) (58 # w') v"
  have "cost v \<le> 2 * length ?s + 2" using cost_le_length(1) [OF assms(3), of w w'] by simp
  then have "parse_value (2 * length ?s + 2) (?s @ []) = Some (v, [])"
    by (rule parse_dumps(1) [OF assms _ number_stop_Nil])
  moreover have "skip_ws ?s = ?s" using skip_ws_dumps [OF assms(3), of "44 # w" "58 # w'" "[]"] by simp
  ultimately show ?thesis by (simp add: loads_def skip_ws_def)
qed

lemma loads_dumps: "wf_json v \<Longrightarrow> loads (dumps v) = Some v"
  using loads_dumps_with [of "[32]" "[32]" v]
  by (simp add: dumps_def u_def sep_ok_def json_ws_def)

lemma loads_dumps_compact: "wf_json v \<Longrightarrow> loads (dumps_compact v) = Some v"
  using loads_dumps_with [of "[]" "[]" v] by (simp add: dumps_compact_def u_def sep_ok_def)

section \<open>The codec interface\<close>

locale json_codec =
  fixes enc :: "json \<Rightarrow> ustr" and dec :: "ustr \<Rightarrow> json option" and ok :: "json \<Rightarrow> bool"
  assumes dec_enc: "ok v \<Longrightarrow> dec (enc v) = Some v"
begin

lemma enc_inj: "ok v \<Longrightarrow> ok v' \<Longrightarrow> enc v = enc v' \<Longrightarrow> v = v'"
  by (metis dec_enc option.inject)

end

interpretation default_codec: json_codec dumps loads wf_json
  by unfold_locales (rule loads_dumps)

interpretation compact_codec: json_codec dumps_compact loads wf_json
  by unfold_locales (rule loads_dumps_compact)

end
