(* ===== verification/Task_States.thy ===== *)
theory Task_States
  imports Prelude
begin

text \<open>
  The task state machine of \<open>app/domain/tasks.py\<close> over the enumerations of
  \<open>app/domain/enums.py\<close>. An enumeration is a datatype with the source's members; a prefix
  keeps apart the members two enumerations share.
\<close>

section \<open>Enumerations\<close>

datatype user_role = ADMIN | USER

datatype delivery_mode = WEB | IM

datatype reply_strategy = HUMAN | LLM | HUMAN_FALLBACK_LLM

datatype inference_protocol = OPENAI_CHAT | OPENAI_RESPONSES | ANTHROPIC_MESSAGES
  | TYPE_SAFE_SYSTEMONE

fun inference_protocol_value :: "inference_protocol \<Rightarrow> string" where
  "inference_protocol_value OPENAI_CHAT = ''openai_chat''"
| "inference_protocol_value OPENAI_RESPONSES = ''openai_responses''"
| "inference_protocol_value ANTHROPIC_MESSAGES = ''anthropic_messages''"
| "inference_protocol_value TYPE_SAFE_SYSTEMONE = ''systemone''"

datatype task_state = RECEIVED | WAITING_HUMAN | FORWARDING_LLM | RESPONSE_READY | RESPONDING
  | COMPLETED | FAILED | TIMED_OUT | CANCELLED

datatype draft_source = MANUAL | LLM_DRAFT

datatype draft_state = EDITING | SUBMITTED | DISCARDED

datatype task_event_type = EV_CREATED | EV_DELIVERED | EV_REPLY_SUBMITTED | EV_REPLY_REJECTED_LATE
  | EV_FALLBACK | EV_STREAM | EV_COMPLETED | EV_FAILED | EV_CANCELLED | EV_TIMED_OUT

datatype actor_type = ACTOR_SYSTEM | ACTOR_USER | ACTOR_IM | ACTOR_UPSTREAM | ACTOR_CALLER

datatype inbound_result = ACCEPTED | DUPLICATE | LATE | UNBOUND | UNHANDLED | BOUND

datatype audit_result = AUDIT_SUCCESS | AUDIT_DENIED | AUDIT_FAILED

section \<open>The state machine\<close>

definition terminal_states :: "task_state list" where
  "terminal_states = [COMPLETED, FAILED, TIMED_OUT, CANCELLED]"

definition slot_holding_states :: "task_state list" where
  "slot_holding_states = [RECEIVED, WAITING_HUMAN, FORWARDING_LLM, RESPONSE_READY, RESPONDING]"

fun allowed_transitions :: "task_state \<Rightarrow> task_state list" where
  "allowed_transitions RECEIVED = [WAITING_HUMAN, FORWARDING_LLM, FAILED, CANCELLED]"
| "allowed_transitions WAITING_HUMAN =
     [RESPONSE_READY, FORWARDING_LLM, TIMED_OUT, FAILED, CANCELLED]"
| "allowed_transitions FORWARDING_LLM = [RESPONSE_READY, RESPONDING, FAILED, CANCELLED]"
| "allowed_transitions RESPONSE_READY = [RESPONDING, FAILED, CANCELLED]"
| "allowed_transitions RESPONDING = [COMPLETED, FAILED, CANCELLED]"
| "allowed_transitions _ = []"

definition is_terminal :: "task_state \<Rightarrow> bool" where
  "is_terminal s \<longleftrightarrow> s \<in> set terminal_states"

definition holds_slot :: "task_state \<Rightarrow> bool" where
  "holds_slot s \<longleftrightarrow> s \<in> set slot_holding_states"

definition can_transition :: "task_state \<Rightarrow> task_state \<Rightarrow> bool" where
  "can_transition from_state to_state \<longleftrightarrow>
     (if is_terminal from_state then False else to_state \<in> set (allowed_transitions from_state))"

lemmas task_state_defs = is_terminal_def terminal_states_def holds_slot_def
  slot_holding_states_def can_transition_def

lemma is_terminal_simps [simp]:
  "is_terminal COMPLETED" "is_terminal FAILED" "is_terminal TIMED_OUT" "is_terminal CANCELLED"
  "\<not> is_terminal RECEIVED" "\<not> is_terminal WAITING_HUMAN" "\<not> is_terminal FORWARDING_LLM"
  "\<not> is_terminal RESPONSE_READY" "\<not> is_terminal RESPONDING"
  by (simp_all add: task_state_defs)

lemma holds_slot_not_terminal: "holds_slot s \<longleftrightarrow> \<not> is_terminal s"
  by (cases s) (simp_all add: task_state_defs)

text \<open>
  The rank of a state: every allowed step raises it, so the machine has no cycle and a task
  makes at most five steps.
\<close>

fun rank :: "task_state \<Rightarrow> nat" where
  "rank RECEIVED = 0"
| "rank WAITING_HUMAN = 1"
| "rank FORWARDING_LLM = 2"
| "rank RESPONSE_READY = 3"
| "rank RESPONDING = 4"
| "rank _ = 5"

lemma transition_raises_rank: "can_transition a b \<Longrightarrow> rank a < rank b"
  by (cases a) (auto simp: task_state_defs)

lemma rank_le_5: "rank s \<le> 5"
  by (cases s) auto

lemma non_terminal_can_cancel: "\<not> is_terminal s \<Longrightarrow> can_transition s CANCELLED"
  by (cases s) (auto simp: task_state_defs)

lemma non_terminal_can_fail: "\<not> is_terminal s \<Longrightarrow> can_transition s FAILED"
  by (cases s) (auto simp: task_state_defs)

fun valid_path :: "task_state list \<Rightarrow> bool" where
  "valid_path [] = True"
| "valid_path [s] = True"
| "valid_path (s # t # ss) = (can_transition s t \<and> valid_path (t # ss))"

lemma valid_path_bound: "valid_path (s # ss) \<Longrightarrow> rank s + length ss \<le> 5"
proof (induction ss arbitrary: s)
  case Nil
  then show ?case by (simp add: rank_le_5)
next
  case (Cons t ss)
  then have "can_transition s t" "valid_path (t # ss)" by simp_all
  with Cons.IH [of t] transition_raises_rank [of s t] show ?case by simp
qed

text \<open>
  The task state machine is finite and has no dead end before a terminal state: a run of
  allowed transitions has at most six states, a terminal state allows no further transition,
  and the states that hold an activity slot are exactly the ones that are not terminal.
\<close>

theorem task_machine_bounded:
  "(valid_path ss \<longrightarrow> length ss \<le> 6) \<and> (is_terminal s \<longrightarrow> \<not> can_transition s t) \<and>
   (holds_slot s \<longleftrightarrow> (\<exists>t. can_transition s t)) \<and> (holds_slot s \<longleftrightarrow> \<not> is_terminal s)"
proof (intro conjI)
  show "valid_path ss \<longrightarrow> length ss \<le> 6"
    using valid_path_bound by (cases ss) fastforce+
  show "is_terminal s \<longrightarrow> \<not> can_transition s t"
    by (simp add: can_transition_def)
  show "holds_slot s \<longleftrightarrow> (\<exists>t. can_transition s t)"
    using non_terminal_can_cancel by (auto simp: holds_slot_not_terminal can_transition_def)
  show "holds_slot s \<longleftrightarrow> \<not> is_terminal s"
    by (rule holds_slot_not_terminal)
qed

theorem task_machine_bounded_witness:
  "valid_path [RECEIVED, WAITING_HUMAN, FORWARDING_LLM, RESPONSE_READY, RESPONDING, COMPLETED] \<and>
   length [RECEIVED, WAITING_HUMAN, FORWARDING_LLM, RESPONSE_READY, RESPONDING, COMPLETED] \<le> 6 \<and>
   \<not> can_transition COMPLETED FAILED"
proof -
  let ?p = "[RECEIVED, WAITING_HUMAN, FORWARDING_LLM, RESPONSE_READY, RESPONDING, COMPLETED]"
  have p: "valid_path ?p" by (simp add: task_state_defs)
  with task_machine_bounded [of ?p COMPLETED FAILED] show ?thesis by simp
qed

end
