(* ===== verification/Store.thy ===== *)
theory Store
  imports Json_Text Task_States
begin

text \<open>
  The tables the modelled services read and write (\<open>app/repositories/models/\<close>), as records
  of their columns, and the database as the record of its tables. Instants are microseconds
  since an epoch (\<open>datetime\<close> has microsecond resolution), so \<open>seconds n\<close> is a \<open>timedelta\<close>.
  Columns that hold a serialised \<open>ReplyDraft\<close> hold the draft itself: \<open>model_dump_json\<close> and
  \<open>model_validate_json\<close> are pydantic's and are relied on as inverse to each other.
  Trace ids and the log lines of \<open>log_event\<close> are not part of the model.
\<close>

type_synonym instant = int

definition seconds :: "int \<Rightarrow> int" where
  "seconds n = n * 1000000"

section \<open>Reply drafts\<close>

record reply_tool_call =
  rtc_id :: ustr
  rtc_name :: ustr
  rtc_arguments :: obj

record reply_draft =
  rd_reasoning :: "ustr option"
  rd_tool_calls :: "reply_tool_call list"
  rd_final_text :: "ustr option"

definition truthy_text :: "ustr option \<Rightarrow> bool" where
  "truthy_text t \<longleftrightarrow> (case t of None \<Rightarrow> False | Some s \<Rightarrow> s \<noteq> [])"

text \<open>\<open>is_empty_draft\<close> of \<open>app/domain/values.py\<close>.\<close>

definition is_empty_draft :: "reply_draft \<Rightarrow> bool" where
  "is_empty_draft d \<longleftrightarrow>
     \<not> (truthy_text (rd_reasoning d) \<or> rd_tool_calls d \<noteq> [] \<or>
        (case rd_final_text d of None \<Rightarrow> False | Some t \<Rightarrow> t \<noteq> [] \<and> strip t \<noteq> []))"

section \<open>Rows\<close>

record user =
  us_id :: int
  us_role :: user_role
  us_is_active :: bool
  us_active_task_count :: int
  us_disabled_at :: "instant option"
  us_disabled_by_user_id :: "int option"
  us_updated_at :: instant

record auth_session =
  as_id :: int
  as_user_id :: int
  as_token_hash :: ustr
  as_expires_at :: instant
  as_revoked_at :: "instant option"

record api_key =
  ak_id :: int
  ak_owner_user_id :: int
  ak_name :: ustr
  ak_key_prefix :: ustr
  ak_is_enabled :: bool
  ak_delivery_mode :: delivery_mode
  ak_im_connection_id :: "int option"
  ak_reply_strategy :: reply_strategy
  ak_llm_config_id :: "int option"
  ak_human_timeout_seconds :: int
  ak_model_group_id :: "int option"
  ak_updated_at :: instant

record request_task =
  rt_id :: int
  rt_public_id :: ustr
  rt_response_public_id :: "ustr option"
  rt_previous_task_id :: "int option"
  rt_owner_user_id :: int
  rt_api_key_id :: int
  rt_api_key_prefix_snapshot :: ustr
  rt_api_key_name_snapshot :: ustr
  rt_fake_model_id :: "int option"
  rt_requested_model :: ustr
  rt_protocol :: inference_protocol
  rt_raw_payload_json :: ustr
  rt_normalized_request_json :: ustr
  rt_request_headers_json :: "ustr option"
  rt_stream_requested :: bool
  rt_reply_strategy_snapshot :: reply_strategy
  rt_delivery_mode_snapshot :: delivery_mode
  rt_im_connection_id_snapshot :: "int option"
  rt_llm_config_id_snapshot :: "int option"
  rt_human_deadline_at :: "instant option"
  rt_state :: task_state
  rt_response_payload :: "reply_draft option"
  rt_public_error_code :: "ustr option"
  rt_cancel_reason_code :: "ustr option"
  rt_slot_acquired_at :: instant
  rt_slot_released_at :: "instant option"
  rt_response_started_at :: "instant option"
  rt_completed_at :: "instant option"
  rt_created_at :: instant
  rt_updated_at :: instant
  rt_version :: int

record task_event =
  te_id :: int
  te_task_id :: int
  te_event_type :: task_event_type
  te_actor_type :: actor_type
  te_actor_user_id :: "int option"
  te_payload_json :: "obj option"

record task_draft =
  td_id :: int
  td_task_id :: int
  td_owner_user_id :: int
  td_source :: draft_source
  td_state :: draft_state
  td_reasoning_text :: "ustr option"
  td_tool_calls_json :: ustr
  td_final_text :: "ustr option"
  td_updated_at :: instant
  td_version :: int

record task_inbox_state =
  ti_task_id :: int
  ti_owner_user_id :: int
  ti_seen_at :: instant
  ti_last_seen_event_id :: "int option"
  ti_tool_call_warning_acknowledged_at :: "instant option"

record audit_log =
  al_action :: string
  al_resource_type :: string
  al_resource_id :: int
  al_actor_user_id :: "int option"
  al_owner_user_id :: "int option"
  al_metadata :: obj

record store =
  st_users :: "user list"
  st_sessions :: "auth_session list"
  st_keys :: "api_key list"
  st_tasks :: "request_task list"
  st_events :: "task_event list"
  st_drafts :: "task_draft list"
  st_inbox :: "task_inbox_state list"
  st_audit :: "audit_log list"

section \<open>Writing to a table\<close>

definition update_tasks ::
  "(request_task \<Rightarrow> bool) \<Rightarrow> (request_task \<Rightarrow> request_task) \<Rightarrow> store \<Rightarrow> store \<times> nat" where
  "update_tasks cond upd st =
     (let (rows, n) = sql_update cond upd (st_tasks st) in (st\<lparr>st_tasks := rows\<rparr>, n))"

definition update_drafts ::
  "(task_draft \<Rightarrow> bool) \<Rightarrow> (task_draft \<Rightarrow> task_draft) \<Rightarrow> store \<Rightarrow> store \<times> nat" where
  "update_drafts cond upd st =
     (let (rows, n) = sql_update cond upd (st_drafts st) in (st\<lparr>st_drafts := rows\<rparr>, n))"

definition update_users :: "(user \<Rightarrow> bool) \<Rightarrow> (user \<Rightarrow> user) \<Rightarrow> store \<Rightarrow> store \<times> nat" where
  "update_users cond upd st =
     (let (rows, n) = sql_update cond upd (st_users st) in (st\<lparr>st_users := rows\<rparr>, n))"

definition add_audit :: "audit_log \<Rightarrow> store \<Rightarrow> store" where
  "add_audit row st = st\<lparr>st_audit := st_audit st @ [row]\<rparr>"

text \<open>\<open>session.add(TaskEvent(..))\<close>, as \<open>_event\<close>, \<open>_add_event\<close> and \<open>_add_task_event\<close> do.\<close>

definition add_event ::
  "int \<Rightarrow> task_event_type \<Rightarrow> actor_type \<Rightarrow> int option \<Rightarrow> obj option \<Rightarrow> store \<Rightarrow> store" where
  "add_event task_id ty actor actor_user payload st =
     st\<lparr>st_events := st_events st @
       [\<lparr>te_id = fresh_id te_id (st_events st), te_task_id = task_id, te_event_type = ty,
         te_actor_type = actor, te_actor_user_id = actor_user, te_payload_json = payload\<rparr>]\<rparr>"

lemmas store_update_defs = update_tasks_def update_drafts_def update_users_def sql_update_def
  add_audit_def add_event_def

lemma update_tasks_frame [simp]:
  "st_users (fst (update_tasks c f st)) = st_users st"
  "st_drafts (fst (update_tasks c f st)) = st_drafts st"
  "st_events (fst (update_tasks c f st)) = st_events st"
  "st_inbox (fst (update_tasks c f st)) = st_inbox st"
  "st_keys (fst (update_tasks c f st)) = st_keys st"
  "st_sessions (fst (update_tasks c f st)) = st_sessions st"
  by (simp_all add: update_tasks_def sql_update_def)

lemma update_drafts_frame [simp]:
  "st_users (fst (update_drafts c f st)) = st_users st"
  "st_tasks (fst (update_drafts c f st)) = st_tasks st"
  "st_events (fst (update_drafts c f st)) = st_events st"
  "st_inbox (fst (update_drafts c f st)) = st_inbox st"
  by (simp_all add: update_drafts_def sql_update_def)

lemma update_users_frame [simp]:
  "st_tasks (fst (update_users c f st)) = st_tasks st"
  "st_drafts (fst (update_users c f st)) = st_drafts st"
  "st_events (fst (update_users c f st)) = st_events st"
  "st_inbox (fst (update_users c f st)) = st_inbox st"
  by (simp_all add: update_users_def sql_update_def)

lemma add_event_frame [simp]:
  "st_tasks (add_event i ty a au p st) = st_tasks st"
  "st_users (add_event i ty a au p st) = st_users st"
  "st_drafts (add_event i ty a au p st) = st_drafts st"
  "st_inbox (add_event i ty a au p st) = st_inbox st"
  by (simp_all add: add_event_def)

lemma add_audit_frame [simp]:
  "st_tasks (add_audit r st) = st_tasks st"
  "st_users (add_audit r st) = st_users st"
  "st_drafts (add_audit r st) = st_drafts st"
  "st_inbox (add_audit r st) = st_inbox st"
  "st_events (add_audit r st) = st_events st"
  by (simp_all add: add_audit_def)

lemma update_tasks_tasks:
  "st_tasks (fst (update_tasks c f st)) = map (\<lambda>t. if c t then f t else t) (st_tasks st)"
  "snd (update_tasks c f st) = rowcount c (st_tasks st)"
  by (simp_all add: update_tasks_def sql_update_def)

lemma update_drafts_drafts:
  "st_drafts (fst (update_drafts c f st)) = map (\<lambda>t. if c t then f t else t) (st_drafts st)"
  "snd (update_drafts c f st) = rowcount c (st_drafts st)"
  by (simp_all add: update_drafts_def sql_update_def)

lemma update_users_users:
  "st_users (fst (update_users c f st)) = map (\<lambda>t. if c t then f t else t) (st_users st)"
  "snd (update_users c f st) = rowcount c (st_users st)"
  by (simp_all add: update_users_def sql_update_def)

end
