(* ===== verification/Task_Repo.thy ===== *)
theory Task_Repo
  imports Store "HOL-Library.Product_Lexorder"
begin

text \<open>
  \<open>TaskRepository\<close> (\<open>app/repositories/tasks.py\<close>): the conditional UPDATEs that decide every
  race of the gateway, the queries of the workbench and the draft table. Each operation takes
  the instant \<open>now\<close> that \<open>utc_now\<close> returns. The lemmas give each arbitration its guard, its
  effect on the row and its frame, and interpret the locale \<open>one_shot\<close> on each of them.
\<close>

section \<open>State changes of a task\<close>

text \<open>\<open>version + 1\<close> and \<open>updated_at\<close>, common to every UPDATE of the table.\<close>

definition bump :: "instant \<Rightarrow> request_task \<Rightarrow> request_task" where
  "bump now t = t\<lparr>rt_version := rt_version t + 1, rt_updated_at := now\<rparr>"

definition terminal_values :: "instant \<Rightarrow> task_state \<Rightarrow> request_task \<Rightarrow> request_task" where
  "terminal_values now s t =
     bump now (t\<lparr>rt_state := s, rt_slot_released_at := Some now, rt_completed_at := Some now\<rparr>)"

text \<open>The values an accepted reply writes, the same for a human and a forwarded one.\<close>

definition ready_values :: "instant \<Rightarrow> reply_draft \<Rightarrow> request_task \<Rightarrow> request_task" where
  "ready_values now payload t =
     bump now (t\<lparr>rt_state := RESPONSE_READY, rt_response_payload := Some payload\<rparr>)"

definition get_task :: "store \<Rightarrow> int \<Rightarrow> request_task option" where
  "get_task st i = get_row rt_id i (st_tasks st)"

definition get_owned :: "store \<Rightarrow> int \<Rightarrow> int \<Rightarrow> request_task option" where
  "get_owned st i owner = find (\<lambda>t. rt_id t = i \<and> rt_owner_user_id t = owner) (st_tasks st)"

definition get_previous_public_id :: "store \<Rightarrow> request_task \<Rightarrow> ustr option" where
  "get_previous_public_id st t =
     (case rt_previous_task_id t of
        None \<Rightarrow> None
      | Some p \<Rightarrow> map_option rt_public_id (get_task st p))"

definition first_reply_wins ::
  "instant \<Rightarrow> int \<Rightarrow> int \<Rightarrow> int \<Rightarrow> reply_draft \<Rightarrow> store \<Rightarrow> store \<times> bool" where
  "first_reply_wins now task_id owner expected_version payload st =
     (let (st', n) = update_tasks
            (\<lambda>t. rt_id t = task_id \<and> rt_owner_user_id t = owner \<and> rt_state t = WAITING_HUMAN \<and>
                 rt_version t = expected_version)
            (ready_values now payload) st
      in (st', n = 1))"

definition claim_fallback :: "instant \<Rightarrow> int \<Rightarrow> store \<Rightarrow> store \<times> bool" where
  "claim_fallback now task_id st =
     (let (st', n) = update_tasks (\<lambda>t. rt_id t = task_id \<and> rt_state t = WAITING_HUMAN)
            (\<lambda>t. bump now (t\<lparr>rt_state := FORWARDING_LLM\<rparr>)) st
      in (st', n = 1))"

definition accept_forward_reply ::
  "instant \<Rightarrow> int \<Rightarrow> int \<Rightarrow> int \<Rightarrow> reply_draft \<Rightarrow> store \<Rightarrow> store \<times> bool" where
  "accept_forward_reply now task_id owner expected_version payload st =
     (let (st', n) = update_tasks
            (\<lambda>t. rt_id t = task_id \<and> rt_owner_user_id t = owner \<and> rt_state t = FORWARDING_LLM \<and>
                 rt_version t = expected_version)
            (ready_values now payload) st
      in (st', n = 1))"

definition advance_state :: "instant \<Rightarrow> int \<Rightarrow> task_state \<Rightarrow> store \<Rightarrow> store \<times> nat" where
  "advance_state now task_id s st =
     update_tasks (\<lambda>t. rt_id t = task_id) (\<lambda>t. bump now (t\<lparr>rt_state := s\<rparr>)) st"

definition start_response :: "instant \<Rightarrow> int \<Rightarrow> store \<Rightarrow> store \<times> bool" where
  "start_response now task_id st =
     (let (st', n) = update_tasks
            (\<lambda>t. rt_id t = task_id \<and> rt_state t = RESPONSE_READY \<and> rt_slot_released_at t = None)
            (\<lambda>t. bump now (t\<lparr>rt_state := RESPONDING, rt_response_started_at := Some now\<rparr>)) st
      in (st', n = 1))"

text \<open>\<open>allowed_sources=None\<close> is \<open>None\<close>; a state that is not terminal raises \<open>ValueError\<close>.\<close>

definition source_ok :: "task_state list option \<Rightarrow> task_state \<Rightarrow> bool" where
  "source_ok allowed s \<longleftrightarrow> (case allowed of None \<Rightarrow> True | Some ss \<Rightarrow> s \<in> set ss)"

definition release_slot_to_terminal ::
  "instant \<Rightarrow> int \<Rightarrow> task_state \<Rightarrow> task_state list option \<Rightarrow> store \<Rightarrow> (store \<times> bool) result" where
  "release_slot_to_terminal now task_id s allowed st =
     (if \<not> is_terminal s then Inl (PyError ValueError)
      else
        (let (st', n) = update_tasks
               (\<lambda>t. rt_id t = task_id \<and> rt_slot_released_at t = None \<and> source_ok allowed (rt_state t))
               (terminal_values now s) st
         in Inr (st', n = 1)))"

definition cancel_values :: "instant \<Rightarrow> ustr \<Rightarrow> request_task \<Rightarrow> request_task" where
  "cancel_values now reason t =
     (terminal_values now CANCELLED t)\<lparr>rt_cancel_reason_code := Some reason\<rparr>"

definition repo_cancel_caller_disconnected ::
  "instant \<Rightarrow> int \<Rightarrow> ustr \<Rightarrow> store \<Rightarrow> store \<times> bool" where
  "repo_cancel_caller_disconnected now task_id reason st =
     (let (st', n) = update_tasks
            (\<lambda>t. rt_id t = task_id \<and> rt_state t \<notin> {COMPLETED, FAILED, TIMED_OUT, CANCELLED} \<and>
                 rt_slot_released_at t = None)
            (cancel_values now reason) st
      in (st', n = 1))"

definition active_for :: "int \<Rightarrow> request_task \<Rightarrow> bool" where
  "active_for uid t \<longleftrightarrow> rt_owner_user_id t = uid \<and> rt_slot_released_at t = None \<and>
     \<not> is_terminal (rt_state t)"

definition count_active_for_user :: "int \<Rightarrow> store \<Rightarrow> nat" where
  "count_active_for_user uid st = rowcount (active_for uid) (st_tasks st)"

definition cancel_all_for_user :: "instant \<Rightarrow> int \<Rightarrow> ustr \<Rightarrow> store \<Rightarrow> store \<times> nat" where
  "cancel_all_for_user now uid reason st =
     update_tasks (active_for uid) (cancel_values now reason) st"

section \<open>Lists of tasks\<close>

text \<open>\<open>ILIKE\<close>: \<open>%\<close> matches any text, \<open>_\<close> any character, letters of ASCII in either case.\<close>

fun like :: "ustr \<Rightarrow> ustr \<Rightarrow> bool" where
  "like [] [] = True"
| "like [] (c # cs) = False"
| "like (p # ps) [] = (p = 37 \<and> like ps [])"
| "like (p # ps) (c # cs) =
     (if p = 37 then like ps (c # cs) \<or> like (p # ps) cs
      else (p = 95 \<or> lower_char p = lower_char c) \<and> like ps cs)"

definition ilike_contains :: "ustr \<Rightarrow> ustr \<Rightarrow> bool" where
  "ilike_contains term t \<longleftrightarrow> like (37 # term @ [37]) t"

definition page_filter ::
  "int option \<Rightarrow> ustr option \<Rightarrow> task_state option \<Rightarrow> task_state list \<Rightarrow> request_task \<Rightarrow> bool" where
  "page_filter owner search state states t \<longleftrightarrow>
     (case owner of None \<Rightarrow> True | Some o' \<Rightarrow> rt_owner_user_id t = o') \<and>
     (if states \<noteq> [] then rt_state t \<in> set states
      else case state of None \<Rightarrow> True | Some s \<Rightarrow> rt_state t = s) \<and>
     (if truthy_text search then
        (let term = strip (the search)
         in ilike_contains term (rt_public_id t) \<or> ilike_contains term (rt_requested_model t) \<or>
            ilike_contains term (rt_api_key_prefix_snapshot t) \<or>
            ilike_contains term (rt_api_key_name_snapshot t))
      else True)"

definition page_of :: "nat \<Rightarrow> nat \<Rightarrow> 'a list \<Rightarrow> 'a list" where
  "page_of page page_size rows = take page_size (drop ((page - 1) * page_size) rows)"

definition newest_first :: "request_task list \<Rightarrow> request_task list" where
  "newest_first rows = sort_key (\<lambda>t. (- rt_created_at t, - rt_id t)) rows"

definition list_page ::
  "nat \<Rightarrow> nat \<Rightarrow> int option \<Rightarrow> ustr option \<Rightarrow> task_state option \<Rightarrow> task_state list \<Rightarrow> store \<Rightarrow>
   request_task list \<times> nat" where
  "list_page page page_size owner search state states st =
     (let rows = filter (page_filter owner search state states) (st_tasks st)
      in (page_of page page_size (newest_first rows), length rows))"

definition list_events :: "int \<Rightarrow> nat \<Rightarrow> nat \<Rightarrow> store \<Rightarrow> task_event list \<times> nat" where
  "list_events task_id page page_size st =
     (let rows = filter (\<lambda>e. te_task_id e = task_id) (st_events st)
      in (page_of page page_size (sort_key te_id rows), length rows))"

definition waiting_of :: "int option \<Rightarrow> request_task \<Rightarrow> bool" where
  "waiting_of owner t \<longleftrightarrow> rt_state t = WAITING_HUMAN \<and>
     (case owner of None \<Rightarrow> True | Some o' \<Rightarrow> rt_owner_user_id t = o')"

definition count_waiting :: "int option \<Rightarrow> store \<Rightarrow> nat" where
  "count_waiting owner st = rowcount (waiting_of owner) (st_tasks st)"

definition count_unread :: "int \<Rightarrow> store \<Rightarrow> nat" where
  "count_unread owner st =
     rowcount (\<lambda>t. rt_owner_user_id t = owner \<and> rt_state t = WAITING_HUMAN \<and>
        rt_id t \<notin> set (map ti_task_id (filter (\<lambda>i. ti_owner_user_id i = owner) (st_inbox st))))
       (st_tasks st)"

definition list_inbox :: "int option \<Rightarrow> store \<Rightarrow> request_task list" where
  "list_inbox owner st =
     take 200 (sort_key
       (\<lambda>t. (case rt_human_deadline_at t of None \<Rightarrow> (1::int, 0::int) | Some d \<Rightarrow> (0, d), - rt_id t))
       (filter (waiting_of owner) (st_tasks st)))"

definition get_by_public_id :: "int \<Rightarrow> ustr \<Rightarrow> store \<Rightarrow> request_task option" where
  "get_by_public_id owner pid st =
     find (\<lambda>t. rt_public_id t = pid \<and> rt_owner_user_id t = owner) (st_tasks st)"

section \<open>Inbox rows\<close>

definition get_inbox_state :: "int \<Rightarrow> store \<Rightarrow> task_inbox_state option" where
  "get_inbox_state task_id st = get_row ti_task_id task_id (st_inbox st)"

definition put_inbox ::
  "int \<Rightarrow> (task_inbox_state \<Rightarrow> task_inbox_state) \<Rightarrow> store \<Rightarrow> store" where
  "put_inbox task_id f st =
     st\<lparr>st_inbox := map (\<lambda>i. if ti_task_id i = task_id then f i else i) (st_inbox st)\<rparr>"

definition upsert_seen :: "instant \<Rightarrow> int \<Rightarrow> int \<Rightarrow> int option \<Rightarrow> store \<Rightarrow> store" where
  "upsert_seen now task_id owner last_seen st =
     (case get_inbox_state task_id st of
        None \<Rightarrow> st\<lparr>st_inbox := st_inbox st @
          [\<lparr>ti_task_id = task_id, ti_owner_user_id = owner, ti_seen_at = now,
            ti_last_seen_event_id = last_seen, ti_tool_call_warning_acknowledged_at = None\<rparr>]\<rparr>
      | Some row \<Rightarrow>
          put_inbox task_id
            (\<lambda>i. i\<lparr>ti_seen_at := now,
                   ti_last_seen_event_id := (case last_seen of None \<Rightarrow> ti_last_seen_event_id i
                                             | Some e \<Rightarrow> Some e)\<rparr>) st)"

definition acknowledge_tool_call_warning :: "instant \<Rightarrow> int \<Rightarrow> int \<Rightarrow> store \<Rightarrow> store" where
  "acknowledge_tool_call_warning now task_id owner st =
     (case get_inbox_state task_id st of
        None \<Rightarrow> st\<lparr>st_inbox := st_inbox st @
          [\<lparr>ti_task_id = task_id, ti_owner_user_id = owner, ti_seen_at = now,
            ti_last_seen_event_id = None, ti_tool_call_warning_acknowledged_at = Some now\<rparr>]\<rparr>
      | Some row \<Rightarrow>
          (if ti_tool_call_warning_acknowledged_at row = None then
             put_inbox task_id
               (\<lambda>i. i\<lparr>ti_tool_call_warning_acknowledged_at := Some now, ti_seen_at := now\<rparr>) st
           else st))"

definition list_seen_map :: "int list \<Rightarrow> store \<Rightarrow> (int \<times> task_inbox_state) list" where
  "list_seen_map ids st =
     (if ids = [] then []
      else map (\<lambda>i. (ti_task_id i, i)) (filter (\<lambda>i. ti_task_id i \<in> set ids) (st_inbox st)))"

section \<open>Drafts\<close>

definition get_draft :: "int \<Rightarrow> store \<Rightarrow> task_draft option" where
  "get_draft i st = get_row td_id i (st_drafts st)"

definition recent_first :: "task_draft list \<Rightarrow> task_draft list" where
  "recent_first rows = sort_key (\<lambda>d. (- td_updated_at d, - td_id d)) rows"

definition get_active_draft :: "int \<Rightarrow> store \<Rightarrow> task_draft option" where
  "get_active_draft task_id st =
     (case recent_first (filter (\<lambda>d. td_task_id d = task_id \<and> td_state d = EDITING) (st_drafts st)) of
        [] \<Rightarrow> None | d # _ \<Rightarrow> Some d)"

definition set_draft_fields ::
  "instant \<Rightarrow> ustr option \<Rightarrow> ustr \<Rightarrow> ustr option \<Rightarrow> task_draft \<Rightarrow> task_draft" where
  "set_draft_fields now reasoning calls final d =
     d\<lparr>td_reasoning_text := reasoning, td_tool_calls_json := calls, td_final_text := final,
       td_version := td_version d + 1, td_updated_at := now\<rparr>"

definition update_active_draft_fields ::
  "instant \<Rightarrow> int \<Rightarrow> ustr option \<Rightarrow> ustr \<Rightarrow> ustr option \<Rightarrow> store \<Rightarrow> store \<times> bool" where
  "update_active_draft_fields now task_id reasoning calls final st =
     (let (st', n) = update_drafts (\<lambda>d. td_task_id d = task_id \<and> td_state d = EDITING)
            (set_draft_fields now reasoning calls final) st
      in (st', n = 1))"

definition list_drafts :: "int \<Rightarrow> store \<Rightarrow> task_draft list" where
  "list_drafts task_id st = recent_first (filter (\<lambda>d. td_task_id d = task_id) (st_drafts st))"

text \<open>
  \<open>create_draft\<close> followed by the flush that inserts the row: the partial unique index
  \<open>uq_task_drafts_active_per_task\<close> (\<open>models/tasks.py\<close>) refuses a second row in \<open>EDITING\<close>.
\<close>

definition active_draft_exists :: "int \<Rightarrow> store \<Rightarrow> bool" where
  "active_draft_exists task_id st \<longleftrightarrow>
     list_ex (\<lambda>d. td_task_id d = task_id \<and> td_state d = EDITING) (st_drafts st)"

definition create_draft ::
  "instant \<Rightarrow> int \<Rightarrow> int \<Rightarrow> draft_source \<Rightarrow> ustr option \<Rightarrow> ustr \<Rightarrow> ustr option \<Rightarrow> store \<Rightarrow>
   (store \<times> task_draft) result" where
  "create_draft now task_id owner source reasoning calls final st =
     (if active_draft_exists task_id st then Inl (PyError IntegrityError)
      else
        (let row = \<lparr>td_id = fresh_id td_id (st_drafts st), td_task_id = task_id,
               td_owner_user_id = owner, td_source = source, td_state = EDITING,
               td_reasoning_text = reasoning, td_tool_calls_json = calls, td_final_text = final,
               td_updated_at = now, td_version = 1\<rparr>
         in Inr (st\<lparr>st_drafts := st_drafts st @ [row]\<rparr>, row)))"

definition update_draft_fields ::
  "instant \<Rightarrow> int \<Rightarrow> int \<Rightarrow> ustr option \<Rightarrow> ustr \<Rightarrow> ustr option \<Rightarrow> store \<Rightarrow> store \<times> bool" where
  "update_draft_fields now draft_id expected_version reasoning calls final st =
     (let (st', n) = update_drafts
            (\<lambda>d. td_id d = draft_id \<and> td_state d = EDITING \<and> td_version d = expected_version)
            (set_draft_fields now reasoning calls final) st
      in (st', n = 1))"

definition mark_draft_state :: "instant \<Rightarrow> int \<Rightarrow> draft_state \<Rightarrow> store \<Rightarrow> store \<times> bool" where
  "mark_draft_state now draft_id s st =
     (let (st', n) = update_drafts (\<lambda>d. td_id d = draft_id \<and> td_state d = EDITING)
            (\<lambda>d. d\<lparr>td_state := s, td_version := td_version d + 1, td_updated_at := now\<rparr>) st
      in (st', n = 1))"

definition remove_draft :: "int \<Rightarrow> store \<Rightarrow> store" where
  "remove_draft draft_id st = st\<lparr>st_drafts := filter (\<lambda>d. td_id d \<noteq> draft_id) (st_drafts st)\<rparr>"

definition repo_delete_draft :: "int \<Rightarrow> store \<Rightarrow> store \<times> bool" where
  "repo_delete_draft draft_id st =
     (case get_draft draft_id st of
        None \<Rightarrow> (st, False)
      | Some row \<Rightarrow> if td_state row \<noteq> EDITING then (st, False) else (remove_draft draft_id st, True))"

text \<open>\<open>draft_payload\<close>: the row's columns, with the tool calls read back from their text.\<close>

definition stored_calls :: "task_draft \<Rightarrow> json" where
  "stored_calls row =
     (case loads (if td_tool_calls_json row = [] then u ''[]'' else td_tool_calls_json row) of
        None \<Rightarrow> JList [] | Some v \<Rightarrow> v)"

section \<open>The arbitrations as one-shot updates\<close>

interpretation first_reply: one_shot rt_id
  "\<lambda>t. rt_owner_user_id t = o' \<and> rt_state t = WAITING_HUMAN \<and> rt_version t = v"
  "ready_values now d" for now o' v d
  by unfold_locales (auto simp: ready_values_def bump_def)

interpretation claim: one_shot rt_id "\<lambda>t. rt_state t = WAITING_HUMAN"
  "\<lambda>t. bump now (t\<lparr>rt_state := FORWARDING_LLM\<rparr>)" for now
  by unfold_locales (auto simp: bump_def)

interpretation accept_forward: one_shot rt_id
  "\<lambda>t. rt_owner_user_id t = o' \<and> rt_state t = FORWARDING_LLM \<and> rt_version t = v"
  "ready_values now d" for now o' v d
  by unfold_locales (auto simp: ready_values_def bump_def)

interpretation respond: one_shot rt_id
  "\<lambda>t. rt_state t = RESPONSE_READY \<and> rt_slot_released_at t = None"
  "\<lambda>t. bump now (t\<lparr>rt_state := RESPONDING, rt_response_started_at := Some now\<rparr>)" for now
  by unfold_locales (auto simp: bump_def)

interpretation release: one_shot rt_id
  "\<lambda>t. rt_slot_released_at t = None \<and> source_ok allowed (rt_state t)"
  "terminal_values now s" for now s allowed
  by unfold_locales (auto simp: terminal_values_def bump_def)

interpretation disconnect: one_shot rt_id
  "\<lambda>t. rt_state t \<notin> {COMPLETED, FAILED, TIMED_OUT, CANCELLED} \<and> rt_slot_released_at t = None"
  "cancel_values now reason" for now reason
  by unfold_locales (auto simp: cancel_values_def terminal_values_def bump_def)

interpretation draft_mark: one_shot td_id "\<lambda>d. td_state d = EDITING"
  "\<lambda>d. d\<lparr>td_state := SUBMITTED, td_version := td_version d + 1, td_updated_at := now\<rparr>" for now
  by unfold_locales auto

interpretation draft_edit: one_shot td_id "\<lambda>d. td_state d = EDITING \<and> td_version d = v"
  "set_draft_fields now reasoning calls final" for now reasoning calls final v
  by unfold_locales (auto simp: set_draft_fields_def)

section \<open>What an UPDATE may do to a task\<close>

text \<open>
  The columns fixed at creation, and one step of a row: the version grows by one, the state
  follows an edge of the state machine (or completes a ready response directly, which the
  release path admits), and a response once stored is never changed.
\<close>

definition same_identity :: "request_task \<Rightarrow> request_task \<Rightarrow> bool" where
  "same_identity t t' \<longleftrightarrow> rt_id t' = rt_id t \<and> rt_public_id t' = rt_public_id t \<and>
     rt_owner_user_id t' = rt_owner_user_id t \<and> rt_api_key_id t' = rt_api_key_id t \<and>
     rt_protocol t' = rt_protocol t \<and> rt_raw_payload_json t' = rt_raw_payload_json t \<and>
     rt_normalized_request_json t' = rt_normalized_request_json t \<and>
     rt_previous_task_id t' = rt_previous_task_id t \<and>
     rt_response_public_id t' = rt_response_public_id t \<and>
     rt_reply_strategy_snapshot t' = rt_reply_strategy_snapshot t"

definition edge :: "task_state \<Rightarrow> task_state \<Rightarrow> bool" where
  "edge s s' \<longleftrightarrow> can_transition s s' \<or> s = RESPONSE_READY \<and> s' = COMPLETED"

definition row_step :: "request_task \<Rightarrow> request_task \<Rightarrow> bool" where
  "row_step t t' \<longleftrightarrow> t' = t \<or>
     (same_identity t t' \<and> edge (rt_state t) (rt_state t') \<and> rt_version t' = rt_version t + 1 \<and>
      (rt_response_payload t \<noteq> None \<longrightarrow> rt_response_payload t' = rt_response_payload t))"

definition task_ok :: "request_task \<Rightarrow> bool" where
  "task_ok t \<longleftrightarrow> (rt_slot_released_at t = None \<longleftrightarrow> \<not> is_terminal (rt_state t)) \<and>
     (rt_completed_at t = None \<longleftrightarrow> \<not> is_terminal (rt_state t)) \<and>
     (rt_state t \<in> {RECEIVED, WAITING_HUMAN, FORWARDING_LLM} \<longrightarrow> rt_response_payload t = None) \<and>
     (rt_state t \<in> {RESPONSE_READY, RESPONDING, COMPLETED} \<longrightarrow> rt_response_payload t \<noteq> None)"

lemma bump_id [simp]: "rt_id (bump now t) = rt_id t" "rt_id (ready_values now d t) = rt_id t"
  by (simp_all add: bump_def ready_values_def)

lemma ready_values_simps [simp]:
  "rt_state (ready_values now d t) = RESPONSE_READY"
  "rt_response_payload (ready_values now d t) = Some d"
  "rt_version (ready_values now d t) = rt_version t + 1"
  "rt_owner_user_id (ready_values now d t) = rt_owner_user_id t"
  by (simp_all add: ready_values_def bump_def)

lemma same_identity_refl [simp]: "same_identity t t"
  by (simp add: same_identity_def)

lemma same_identity_trans: "same_identity a b \<Longrightarrow> same_identity b c \<Longrightarrow> same_identity a c"
  by (simp add: same_identity_def)

lemma row_step_refl [simp]: "row_step t t"
  by (simp add: row_step_def)

lemma row_stepI:
  "same_identity t t' \<Longrightarrow> edge (rt_state t) (rt_state t') \<Longrightarrow> rt_version t' = rt_version t + 1 \<Longrightarrow>
   (rt_response_payload t \<noteq> None \<Longrightarrow> rt_response_payload t' = rt_response_payload t) \<Longrightarrow> row_step t t'"
  by (auto simp: row_step_def)

lemma row_step_identity: "row_step t t' \<Longrightarrow> same_identity t t'"
  by (auto simp: row_step_def)

lemma row_step_key: "row_step t t' \<Longrightarrow> rt_id t' = rt_id t"
  by (drule row_step_identity) (simp add: same_identity_def)

lemma edge_from_live: "edge s s' \<Longrightarrow> \<not> is_terminal s"
  by (auto simp: edge_def can_transition_def)

lemma row_step_keeps_payload:
  "row_step t t' \<Longrightarrow> rt_response_payload t = Some d \<Longrightarrow> rt_response_payload t' = Some d"
  by (auto simp: row_step_def)

lemma row_step_terminal: "row_step t t' \<Longrightarrow> is_terminal (rt_state t) \<Longrightarrow> t' = t"
  by (auto simp: row_step_def dest: edge_from_live)

definition tasks_step :: "store \<Rightarrow> store \<Rightarrow> bool" where
  "tasks_step st st' \<longleftrightarrow> list_all2 row_step (st_tasks st) (st_tasks st')"

lemma tasks_step_refl [simp]: "tasks_step st st"
  by (simp add: tasks_step_def list_all2_refl)

lemma tasks_step_same: "st_tasks st' = st_tasks st \<Longrightarrow> tasks_step st st'"
  by (simp add: tasks_step_def list_all2_refl)

lemma update_tasks_step:
  "(\<And>t. t \<in> set (st_tasks st) \<Longrightarrow> c t \<Longrightarrow> row_step t (f t)) \<Longrightarrow>
   tasks_step st (fst (update_tasks c f st))"
  by (auto simp: tasks_step_def update_tasks_tasks list_all2_conv_all_nth)

definition tasks_ok :: "store \<Rightarrow> bool" where
  "tasks_ok st \<longleftrightarrow> distinct (map rt_id (st_tasks st)) \<and> (\<forall>t \<in> set (st_tasks st). task_ok t)"

lemma update_tasks_ok:
  assumes "tasks_ok st" "\<And>t. rt_id (f t) = rt_id t" "\<And>t. c t \<Longrightarrow> task_ok t \<Longrightarrow> task_ok (f t)"
  shows "tasks_ok (fst (update_tasks c f st))"
proof -
  have ids: "map rt_id (st_tasks (fst (update_tasks c f st))) = map rt_id (st_tasks st)"
    by (simp add: update_tasks_tasks assms(2))
  have "\<forall>t \<in> set (st_tasks (fst (update_tasks c f st))). task_ok t"
    using assms by (auto simp: tasks_ok_def update_tasks_tasks)
  with ids assms(1) show ?thesis by (simp only: tasks_ok_def simp_thms)
qed

text \<open>The updates of the rows, as steps that keep \<open>task_ok\<close>.\<close>

lemma ready_step:
  "task_ok t \<Longrightarrow> rt_state t \<in> {WAITING_HUMAN, FORWARDING_LLM} \<Longrightarrow>
   row_step t (ready_values now d t) \<and> task_ok (ready_values now d t)"
  by (rule conjI, rule row_stepI)
    (auto simp: ready_values_def same_identity_def edge_def task_ok_def bump_def can_transition_def)

lemma claim_step:
  "task_ok t \<Longrightarrow> rt_state t = WAITING_HUMAN \<Longrightarrow>
   row_step t (bump now (t\<lparr>rt_state := FORWARDING_LLM\<rparr>)) \<and>
   task_ok (bump now (t\<lparr>rt_state := FORWARDING_LLM\<rparr>))"
  by (rule conjI, rule row_stepI)
    (auto simp: same_identity_def edge_def task_ok_def bump_def can_transition_def)

lemma respond_step:
  "task_ok t \<Longrightarrow> rt_state t = RESPONSE_READY \<Longrightarrow>
   row_step t (bump now (t\<lparr>rt_state := RESPONDING, rt_response_started_at := Some now\<rparr>)) \<and>
   task_ok (bump now (t\<lparr>rt_state := RESPONDING, rt_response_started_at := Some now\<rparr>))"
  by (rule conjI, rule row_stepI)
    (auto simp: same_identity_def edge_def task_ok_def bump_def can_transition_def)

text \<open>
  The terminal states a release may write: only waiting tasks time out, only tasks with a
  result complete. \<open>release_sources\<close> states it for the \<open>allowed_sources\<close> of a caller.
\<close>

definition release_sources :: "task_state \<Rightarrow> task_state list option \<Rightarrow> bool" where
  "release_sources s allowed \<longleftrightarrow> is_terminal s \<and>
     (s = COMPLETED \<longrightarrow> (\<exists>ss. allowed = Some ss \<and> set ss \<subseteq> {RESPONSE_READY, RESPONDING})) \<and>
     (s = TIMED_OUT \<longrightarrow> (\<exists>ss. allowed = Some ss \<and> set ss \<subseteq> {WAITING_HUMAN}))"

lemma terminal_edge:
  assumes "release_sources s allowed" "source_ok allowed s0" "\<not> is_terminal s0"
  shows "edge s0 s"
proof (cases s)
  case COMPLETED
  then have "s0 \<in> {RESPONSE_READY, RESPONDING}" using assms by (auto simp: release_sources_def source_ok_def)
  with COMPLETED show ?thesis by (auto simp: edge_def task_state_defs)
next
  case TIMED_OUT
  then have "s0 = WAITING_HUMAN" using assms by (auto simp: release_sources_def source_ok_def)
  with TIMED_OUT show ?thesis by (auto simp: edge_def task_state_defs)
qed (use assms non_terminal_can_fail non_terminal_can_cancel in \<open>auto simp: edge_def release_sources_def\<close>)

lemma terminal_step:
  assumes "task_ok t" "rt_slot_released_at t = None" "release_sources s allowed"
    "source_ok allowed (rt_state t)"
  shows "row_step t (terminal_values now s t) \<and> task_ok (terminal_values now s t)"
proof -
  have live: "\<not> is_terminal (rt_state t)" using assms(1,2) by (simp add: task_ok_def)
  then have e: "edge (rt_state t) s" using assms(3,4) terminal_edge by blast
  have "s = COMPLETED \<Longrightarrow> rt_response_payload t \<noteq> None"
    using assms by (auto simp: release_sources_def source_ok_def task_ok_def)
  moreover have "is_terminal s" using assms(3) by (simp add: release_sources_def)
  ultimately show ?thesis using assms(1) e
    by (intro conjI row_stepI)
      (auto simp: same_identity_def task_ok_def terminal_values_def bump_def)
qed

lemma cancel_step:
  assumes "task_ok t" "rt_slot_released_at t = None"
  shows "row_step t (cancel_values now reason t) \<and> task_ok (cancel_values now reason t)"
proof -
  have "\<not> is_terminal (rt_state t)" using assms by (simp add: task_ok_def)
  then have "edge (rt_state t) CANCELLED" by (simp add: edge_def non_terminal_can_cancel)
  with assms show ?thesis
    by (intro conjI row_stepI)
      (auto simp: same_identity_def task_ok_def cancel_values_def terminal_values_def bump_def)
qed

section \<open>A row addressed by its key\<close>

lemma get_task_Some: "get_task st k = Some t \<Longrightarrow> t \<in> set (st_tasks st) \<and> rt_id t = k"
  by (simp add: get_task_def get_row_Some)

lemma update_by_id:
  assumes "distinct (map rt_id (st_tasks st))" "\<And>t. rt_id (f t) = rt_id t"
  shows "snd (update_tasks (\<lambda>t. rt_id t = k \<and> c t) f st) =
      (case get_task st k of Some t \<Rightarrow> if c t then 1 else 0 | None \<Rightarrow> 0)"
    and "get_task (fst (update_tasks (\<lambda>t. rt_id t = k \<and> c t) f st)) j =
      (if j = k then map_option (\<lambda>t. if c t then f t else t) (get_task st k) else get_task st j)"
proof -
  show "snd (update_tasks (\<lambda>t. rt_id t = k \<and> c t) f st) =
      (case get_task st k of Some t \<Rightarrow> if c t then 1 else 0 | None \<Rightarrow> 0)"
    using rowcount_get_row [OF assms(1), of k c] by (simp add: update_tasks_tasks get_task_def)
  have "get_task (fst (update_tasks (\<lambda>t. rt_id t = k \<and> c t) f st)) j =
      map_option (\<lambda>t. if rt_id t = k \<and> c t then f t else t) (get_task st j)"
    by (simp add: get_task_def update_tasks_tasks get_row_map assms(2))
  then show "get_task (fst (update_tasks (\<lambda>t. rt_id t = k \<and> c t) f st)) j =
      (if j = k then map_option (\<lambda>t. if c t then f t else t) (get_task st k) else get_task st j)"
    by (cases "get_task st j") (auto dest: get_task_Some)
qed

lemma update_tasks_miss: "(\<And>t. t \<in> set (st_tasks st) \<Longrightarrow> \<not> c t) \<Longrightarrow> fst (update_tasks c f st) = st"
  by (simp add: update_tasks_def sql_update_def map_update_none)

lemma get_task_member:
  "distinct (map rt_id (st_tasks st)) \<Longrightarrow> t \<in> set (st_tasks st) \<Longrightarrow> get_task st (rt_id t) = Some t"
  by (simp add: get_task_def get_row_member)

lemma get_task_ok: "tasks_ok st \<Longrightarrow> get_task st k = Some t \<Longrightarrow> task_ok t"
  by (auto simp: tasks_ok_def dest: get_task_Some)

lemma get_task_cong: "st_tasks st' = st_tasks st \<Longrightarrow> get_task st' = get_task st"
  by (auto simp: get_task_def)

lemma tasks_ok_cong: "st_tasks st' = st_tasks st \<Longrightarrow> tasks_ok st' \<longleftrightarrow> tasks_ok st"
  by (simp add: tasks_ok_def)

text \<open>
  What holds between a row and the same row at any later time, over any number of steps of any
  operations, and between two stores: no task is lost, and each has moved forward.
\<close>

definition row_later :: "request_task \<Rightarrow> request_task \<Rightarrow> bool" where
  "row_later t t' \<longleftrightarrow> t' = t \<or>
     (same_identity t t' \<and> rt_version t < rt_version t' \<and> rank (rt_state t) < rank (rt_state t') \<and>
      (rt_response_payload t \<noteq> None \<longrightarrow> rt_response_payload t' = rt_response_payload t))"

definition later :: "store \<Rightarrow> store \<Rightarrow> bool" where
  "later st st' \<longleftrightarrow>
     (\<forall>k t. get_task st k = Some t \<longrightarrow> (\<exists>t'. get_task st' k = Some t' \<and> row_later t t'))"

lemma edge_raises_rank: "edge s s' \<Longrightarrow> rank s < rank s'"
  by (auto simp: edge_def dest: transition_raises_rank)

lemma row_step_later: "row_step t t' \<Longrightarrow> row_later t t'"
  by (auto simp: row_step_def row_later_def dest: edge_raises_rank)

lemma row_later_refl [simp]: "row_later t t"
  by (simp add: row_later_def)

lemma row_later_trans:
  assumes "row_later a b" "row_later b c"
  shows "row_later a c"
proof (cases "b = a \<or> c = b")
  case True
  with assms show ?thesis by blast
next
  case False
  then have "b \<noteq> a" "c \<noteq> b" by simp_all
  then have ab: "same_identity a b \<and> rt_version a < rt_version b \<and> rank (rt_state a) < rank (rt_state b) \<and>
      (rt_response_payload a \<noteq> None \<longrightarrow> rt_response_payload b = rt_response_payload a)"
    and bc: "same_identity b c \<and> rt_version b < rt_version c \<and> rank (rt_state b) < rank (rt_state c) \<and>
      (rt_response_payload b \<noteq> None \<longrightarrow> rt_response_payload c = rt_response_payload b)"
    using assms unfolding row_later_def by blast+
  have "same_identity a c" using ab bc same_identity_trans by blast
  moreover have "rt_version a < rt_version c" "rank (rt_state a) < rank (rt_state c)"
    using ab bc by linarith+
  moreover have "rt_response_payload a \<noteq> None \<longrightarrow> rt_response_payload c = rt_response_payload a"
    using ab bc by simp
  ultimately show ?thesis unfolding row_later_def by blast
qed

lemma later_refl [simp]: "later st st"
  by (simp add: later_def)

lemma later_trans: "later a b \<Longrightarrow> later b c \<Longrightarrow> later a c"
  unfolding later_def by (meson row_later_trans)

lemma later_same: "st_tasks st' = st_tasks st \<Longrightarrow> later st st'"
  unfolding later_def by (metis get_task_cong row_later_refl)

lemma tasks_step_later:
  assumes "tasks_step st st'"
  shows "later st st'"
proof -
  have "get_row rt_id k rows = Some t \<Longrightarrow> \<exists>t'. get_row rt_id k rows' = Some t' \<and> row_later t t'"
    if "list_all2 row_step rows rows'" for rows rows' k t
    using that
    by (induction rows rows' rule: list_all2_induct)
      (auto simp: get_row_def dest: row_step_key intro: row_step_later split: if_splits)
  with assms show ?thesis by (simp add: later_def tasks_step_def get_task_def)
qed

lemma later_payload:
  "later st st' \<Longrightarrow> get_task st k = Some t \<Longrightarrow> rt_response_payload t = Some d \<Longrightarrow>
   \<exists>t'. get_task st' k = Some t' \<and> rt_response_payload t' = Some d"
  unfolding later_def row_later_def by fastforce

lemma later_rank:
  "later st st' \<Longrightarrow> get_task st k = Some t \<Longrightarrow>
   \<exists>t'. get_task st' k = Some t' \<and> rank (rt_state t) \<le> rank (rt_state t') \<and>
     (is_terminal (rt_state t) \<longrightarrow> t' = t)"
proof -
  assume "later st st'" "get_task st k = Some t"
  then obtain t' where t': "get_task st' k = Some t'" "row_later t t'" by (auto simp: later_def)
  have "is_terminal (rt_state t) \<Longrightarrow> \<not> rank (rt_state t) < rank (rt_state t')"
    using rank_le_5 [of "rt_state t'"] by (cases "rt_state t") auto
  with t' show ?thesis by (auto simp: row_later_def)
qed

text \<open>The four arbitrations and the release, by the row they address.\<close>

lemma first_reply_wins_iff:
  assumes "tasks_ok st"
  shows "snd (first_reply_wins now k o' v d st) \<longleftrightarrow>
    (\<exists>t. get_task st k = Some t \<and> rt_owner_user_id t = o' \<and> rt_state t = WAITING_HUMAN \<and> rt_version t = v)"
proof -
  have "distinct (map rt_id (st_tasks st))" using assms by (simp add: tasks_ok_def)
  from update_by_id(1) [OF this, of "ready_values now d" k
      "\<lambda>t. rt_owner_user_id t = o' \<and> rt_state t = WAITING_HUMAN \<and> rt_version t = v"]
  show ?thesis by (simp add: first_reply_wins_def split_beta split: option.splits)
qed

lemma first_reply_wins_tasks:
  assumes "tasks_ok st"
  shows "get_task (fst (first_reply_wins now k o' v d st)) j =
    (if j = k then map_option (\<lambda>t. if rt_owner_user_id t = o' \<and> rt_state t = WAITING_HUMAN \<and> rt_version t = v
        then ready_values now d t else t) (get_task st k)
     else get_task st j)"
proof -
  have "distinct (map rt_id (st_tasks st))" using assms by (simp add: tasks_ok_def)
  from update_by_id(2) [OF this, of "ready_values now d" k
      "\<lambda>t. rt_owner_user_id t = o' \<and> rt_state t = WAITING_HUMAN \<and> rt_version t = v" j]
  show ?thesis by (simp add: first_reply_wins_def split_beta)
qed

lemma first_reply_wins_step:
  assumes "tasks_ok st"
  shows "tasks_step st (fst (first_reply_wins now k o' v d st))"
    and "tasks_ok (fst (first_reply_wins now k o' v d st))"
proof -
  let ?c = "\<lambda>t. rt_id t = k \<and> rt_owner_user_id t = o' \<and> rt_state t = WAITING_HUMAN \<and> rt_version t = v"
  have f: "fst (first_reply_wins now k o' v d st) = fst (update_tasks ?c (ready_values now d) st)"
    by (simp add: first_reply_wins_def split_beta)
  have r: "row_step t (ready_values now d t) \<and> task_ok (ready_values now d t)" if "?c t" "task_ok t" for t
    using that by (intro ready_step) auto
  show "tasks_step st (fst (first_reply_wins now k o' v d st))"
    unfolding f by (rule update_tasks_step) (use assms r in \<open>simp add: tasks_ok_def\<close>)
  show "tasks_ok (fst (first_reply_wins now k o' v d st))"
    unfolding f by (rule update_tasks_ok [OF assms]) (use r in simp_all)
qed

lemma first_reply_wins_miss:
  assumes "tasks_ok st" "\<not> snd (first_reply_wins now k o' v d st)"
  shows "fst (first_reply_wins now k o' v d st) = st"
proof -
  have "\<not> (rt_id t = k \<and> rt_owner_user_id t = o' \<and> rt_state t = WAITING_HUMAN \<and> rt_version t = v)"
    if "t \<in> set (st_tasks st)" for t
    using assms that get_task_member [of st t] by (auto simp: first_reply_wins_iff tasks_ok_def)
  then show ?thesis
    by (simp add: first_reply_wins_def split_beta update_tasks_miss)
qed

end
