(* ===== verification/Samples.thy ===== *)
theory Samples
  imports Task_Repo
begin

text \<open>
  A small database on which the witnesses of the properties run: one user, one task that waits
  for a human and was created from a request without tools, and no draft.
\<close>

definition sample_task :: request_task where
  "sample_task = \<lparr>rt_id = 1, rt_public_id = u ''req_1'', rt_response_public_id = None,
     rt_previous_task_id = None, rt_owner_user_id = 7, rt_api_key_id = 3,
     rt_api_key_prefix_snapshot = u ''sk-1'', rt_api_key_name_snapshot = u ''key'',
     rt_fake_model_id = None, rt_requested_model = u ''m'', rt_protocol = OPENAI_CHAT,
     rt_raw_payload_json = [], rt_normalized_request_json = [], rt_request_headers_json = None,
     rt_stream_requested = False, rt_reply_strategy_snapshot = HUMAN, rt_delivery_mode_snapshot = WEB,
     rt_im_connection_id_snapshot = None, rt_llm_config_id_snapshot = None,
     rt_human_deadline_at = Some (seconds 60), rt_state = WAITING_HUMAN, rt_response_payload = None,
     rt_public_error_code = None, rt_cancel_reason_code = None, rt_slot_acquired_at = 0,
     rt_slot_released_at = None, rt_response_started_at = None, rt_completed_at = None,
     rt_created_at = 0, rt_updated_at = 0, rt_version = 1\<rparr>"

definition sample_user :: user where
  "sample_user = \<lparr>us_id = 7, us_role = USER, us_is_active = True, us_active_task_count = 1,
     us_disabled_at = None, us_disabled_by_user_id = None, us_updated_at = 0\<rparr>"

definition sample_key :: api_key where
  "sample_key = \<lparr>ak_id = 3, ak_owner_user_id = 7, ak_name = u ''key'', ak_key_prefix = u ''sk-1'',
     ak_is_enabled = True, ak_delivery_mode = WEB, ak_im_connection_id = None, ak_reply_strategy = HUMAN,
     ak_llm_config_id = None, ak_human_timeout_seconds = 60, ak_model_group_id = None, ak_updated_at = 0\<rparr>"

lemma sample_key_simps [simp]:
  "ak_id sample_key = 3" "ak_owner_user_id sample_key = 7" "ak_is_enabled sample_key"
  "ak_reply_strategy sample_key = HUMAN" "ak_model_group_id sample_key = None"
  "ak_delivery_mode sample_key = WEB" "ak_human_timeout_seconds sample_key = 60"
  by (simp_all add: sample_key_def)

definition sample_store :: store where
  "sample_store = \<lparr>st_users = [sample_user], st_sessions = [], st_keys = [], st_tasks = [sample_task],
     st_events = [], st_drafts = [], st_inbox = [], st_audit = []\<rparr>"

definition sample_draft :: reply_draft where
  "sample_draft = \<lparr>rd_reasoning = None, rd_tool_calls = [], rd_final_text = Some (u ''hi'')\<rparr>"

lemma sample_task_simps [simp]:
  "rt_id sample_task = 1" "rt_owner_user_id sample_task = 7" "rt_state sample_task = WAITING_HUMAN"
  "rt_version sample_task = 1" "rt_slot_released_at sample_task = None"
  "rt_raw_payload_json sample_task = []" "rt_protocol sample_task = OPENAI_CHAT"
  "rt_human_deadline_at sample_task = Some (seconds 60)" "rt_created_at sample_task = 0"
  "rt_response_payload sample_task = None" "rt_delivery_mode_snapshot sample_task = WEB"
  "rt_reply_strategy_snapshot sample_task = HUMAN" "rt_updated_at sample_task = 0"
  "rt_response_started_at sample_task = None"
  by (simp_all add: sample_task_def)

lemma sample_user_simps [simp]:
  "us_id sample_user = 7" "us_role sample_user = USER" "us_is_active sample_user"
  "us_active_task_count sample_user = 1"
  by (simp_all add: sample_user_def)

lemma sample_store_simps [simp]:
  "st_users sample_store = [sample_user]" "st_tasks sample_store = [sample_task]"
  "st_drafts sample_store = []" "st_inbox sample_store = []" "st_events sample_store = []"
  "st_audit sample_store = []"
  by (simp_all add: sample_store_def)

lemma sample_draft_simps [simp]:
  "rd_tool_calls sample_draft = []" "rd_final_text sample_draft = Some (u ''hi'')"
  "rd_reasoning sample_draft = None"
  by (simp_all add: sample_draft_def)

lemma sample_get_task [simp]: "get_task sample_store 1 = Some sample_task"
  by (simp add: get_task_def get_row_def)

lemma sample_tasks_ok [simp]: "tasks_ok sample_store"
  by (simp add: tasks_ok_def task_ok_def) (simp add: sample_task_def)

end
