(* ===== verification/Admission.thy ===== *)
theory Admission
  imports Samples
begin

text \<open>
  Activity slots: the counter of \<open>UserRepository\<close> (\<open>app/repositories/users.py\<close>), admission
  (\<open>app/services/admission.py\<close>), and the disabling of an account with everything it revokes
  (\<open>app/services/user_service.py\<close>, \<open>repositories/sessions.py\<close>, \<open>repositories/api_keys.py\<close>).
  The ledger invariant says that the counter of a user is the number of the user's tasks whose
  slot is not released, and never above the limit.
\<close>

definition MAX_ACTIVE_TASKS_PER_USER :: int where "MAX_ACTIVE_TASKS_PER_USER = 10"

section \<open>UserRepository\<close>

definition get_user :: "store \<Rightarrow> int \<Rightarrow> user option" where
  "get_user st uid = get_row us_id uid (st_users st)"

definition lock_active_admin_ids :: "store \<Rightarrow> int list" where
  "lock_active_admin_ids st =
     sort (map us_id (filter (\<lambda>x. us_role x = ADMIN \<and> us_is_active x) (st_users st)))"

definition atomic_acquire_slot :: "instant \<Rightarrow> int \<Rightarrow> store \<Rightarrow> store \<times> bool" where
  "atomic_acquire_slot now uid st =
     (let (st', n) = update_users
            (\<lambda>x. us_id x = uid \<and> us_is_active x \<and> us_active_task_count x < MAX_ACTIVE_TASKS_PER_USER)
            (\<lambda>x. x\<lparr>us_active_task_count := us_active_task_count x + 1, us_updated_at := now\<rparr>) st
      in (st', n = 1))"

definition atomic_release_slot :: "instant \<Rightarrow> int \<Rightarrow> store \<Rightarrow> store \<times> bool" where
  "atomic_release_slot now uid st =
     (let (st', n) = update_users (\<lambda>x. us_id x = uid \<and> us_active_task_count x > 0)
            (\<lambda>x. x\<lparr>us_active_task_count := us_active_task_count x - 1, us_updated_at := now\<rparr>) st
      in (st', n = 1))"

definition set_active :: "instant \<Rightarrow> int \<Rightarrow> bool \<Rightarrow> int option \<Rightarrow> store \<Rightarrow> store \<times> nat" where
  "set_active now uid active by_user st =
     update_users (\<lambda>x. us_id x = uid)
       (\<lambda>x. if \<not> active
            then x\<lparr>us_is_active := active, us_updated_at := now, us_disabled_at := Some now,
                   us_disabled_by_user_id := by_user\<rparr>
            else x\<lparr>us_is_active := active, us_updated_at := now, us_disabled_at := None,
                   us_disabled_by_user_id := None\<rparr>) st"

definition clear_active_task_count :: "instant \<Rightarrow> int \<Rightarrow> store \<Rightarrow> store \<times> nat" where
  "clear_active_task_count now uid st =
     update_users (\<lambda>x. us_id x = uid) (\<lambda>x. x\<lparr>us_active_task_count := 0, us_updated_at := now\<rparr>) st"

section \<open>Sessions and keys\<close>

definition revoke_all_for_user :: "instant \<Rightarrow> int \<Rightarrow> store \<Rightarrow> store" where
  "revoke_all_for_user now uid st =
     st\<lparr>st_sessions := fst (sql_update (\<lambda>s. as_user_id s = uid \<and> as_revoked_at s = None)
          (\<lambda>s. s\<lparr>as_revoked_at := Some now\<rparr>) (st_sessions st))\<rparr>"

definition count_active_sessions :: "instant \<Rightarrow> int \<Rightarrow> store \<Rightarrow> nat" where
  "count_active_sessions now uid st =
     rowcount (\<lambda>s. as_user_id s = uid \<and> as_revoked_at s = None \<and> as_expires_at s > now) (st_sessions st)"

definition disable_all_for_user :: "instant \<Rightarrow> int \<Rightarrow> store \<Rightarrow> store" where
  "disable_all_for_user now uid st =
     st\<lparr>st_keys := fst (sql_update (\<lambda>k. ak_owner_user_id k = uid \<and> ak_is_enabled k)
          (\<lambda>k. k\<lparr>ak_is_enabled := False, ak_updated_at := now\<rparr>) (st_keys st))\<rparr>"

definition count_enabled_for_user :: "int \<Rightarrow> store \<Rightarrow> nat" where
  "count_enabled_for_user uid st = rowcount (\<lambda>k. ak_owner_user_id k = uid \<and> ak_is_enabled k) (st_keys st)"

section \<open>Admission\<close>

definition invalid_key :: exn where
  "invalid_key = err INVALID_API_KEY ''invalid API key'' 401"

text \<open>
  \<open>session.refresh(owner)\<close> reads the user again after the write lock is taken; a user that is
  gone makes it raise \<open>InvalidRequestError\<close>.
\<close>

definition acquire_slot :: "instant \<Rightarrow> api_key \<Rightarrow> int \<Rightarrow> store \<Rightarrow> store result" where
  "acquire_slot now key owner_id st =
     bindr (raise_if (\<not> ak_is_enabled key) invalid_key) (\<lambda>_.
       case get_user st owner_id of
         None \<Rightarrow> Inl (PyError KeyError)
       | Some owner \<Rightarrow>
           (if \<not> us_is_active owner then Inl invalid_key
            else
              (let (st', ok) = atomic_acquire_slot now owner_id st
               in if ok then Inr st'
                  else
                    (case get_user st' owner_id of
                       None \<Rightarrow> Inl (PyError KeyError)
                     | Some owner' \<Rightarrow>
                         if \<not> us_is_active owner' then Inl invalid_key
                         else Inl (err RATE_LIMIT_EXCEEDED ''at most 10 active tasks per user'' 429)))))"

definition release_slot :: "instant \<Rightarrow> int \<Rightarrow> store \<Rightarrow> store" where
  "release_slot now uid st = fst (atomic_release_slot now uid st)"

section \<open>Disabling and enabling an account\<close>

record impact =
  im_active_sessions :: nat
  im_enabled_api_keys :: nat
  im_active_tasks :: nat

definition impact_counts :: "instant \<Rightarrow> int \<Rightarrow> store \<Rightarrow> impact" where
  "impact_counts now uid st =
     \<lparr>im_active_sessions = count_active_sessions now uid st,
       im_enabled_api_keys = count_enabled_for_user uid st,
       im_active_tasks = count_active_for_user uid st\<rparr>"

definition user_audit :: "string \<Rightarrow> int \<Rightarrow> int \<Rightarrow> string list \<Rightarrow> audit_log" where
  "user_audit action uid actor names =
     \<lparr>al_action = action, al_resource_type = ''user'', al_resource_id = uid, al_actor_user_id = Some actor,
       al_owner_user_id = Some uid, al_metadata = [(u ''fields'', JList (map S names))]\<rparr>"

definition disable_user :: "instant \<Rightarrow> user \<Rightarrow> int \<Rightarrow> store \<Rightarrow> (store \<times> impact) result" where
  "disable_user now user actor st =
     (if \<not> us_is_active user then Inr (st, impact_counts now (us_id user) st)
      else if us_id user = actor then Inl (err FORBIDDEN ''you cannot disable your own account'' 403)
      else if us_role user = ADMIN \<and> length (lock_active_admin_ids st) \<le> 1
      then Inl (err CONFLICT ''the last active administrator cannot be disabled'' 409)
      else
        (let uid = us_id user;
             impact = impact_counts now uid st;
             st1 = fst (set_active now uid False (Some actor) st);
             st2 = revoke_all_for_user now uid st1;
             st3 = disable_all_for_user now uid st2;
             st4 = fst (cancel_all_for_user now uid (u ''user_disabled'') st3);
             st5 = fst (clear_active_task_count now uid st4)
         in Inr (add_audit (user_audit ''user.disabled'' uid actor
                   [''is_active'', ''auth_sessions'', ''api_keys'', ''tasks'']) st5, impact)))"

definition enable_user :: "instant \<Rightarrow> user \<Rightarrow> int \<Rightarrow> store \<Rightarrow> store" where
  "enable_user now user actor st =
     (if us_is_active user then st
      else add_audit (user_audit ''user.enabled'' (us_id user) actor [''is_active''])
             (fst (set_active now (us_id user) True None st)))"

section \<open>The ledger\<close>

definition holding :: "int \<Rightarrow> request_task \<Rightarrow> bool" where
  "holding uid t \<longleftrightarrow> rt_owner_user_id t = uid \<and> rt_slot_released_at t = None"

definition held_slots :: "int \<Rightarrow> store \<Rightarrow> nat" where
  "held_slots uid st = rowcount (holding uid) (st_tasks st)"

definition user_ok :: "store \<Rightarrow> user \<Rightarrow> bool" where
  "user_ok st x \<longleftrightarrow> us_active_task_count x = int (held_slots (us_id x) st) \<and>
     us_active_task_count x \<le> MAX_ACTIVE_TASKS_PER_USER"

definition ledger_ok :: "store \<Rightarrow> bool" where
  "ledger_ok st \<longleftrightarrow> distinct (map us_id (st_users st)) \<and> (\<forall>x \<in> set (st_users st). user_ok st x)"

lemma held_slots_cong: "st_tasks st' = st_tasks st \<Longrightarrow> held_slots uid st' = held_slots uid st"
  by (simp add: held_slots_def)

lemma ledger_ok_cong: "st_tasks st' = st_tasks st \<Longrightarrow> st_users st' = st_users st \<Longrightarrow> ledger_ok st' = ledger_ok st"
  by (simp add: ledger_ok_def user_ok_def held_slots_def)

lemma map_user_ids: "(\<And>x. us_id (f x) = us_id x) \<Longrightarrow>
    map us_id (st_users (fst (update_users c f st))) = map us_id (st_users st)"
  by (simp add: update_users_users)

text \<open>A change of users and tasks keeps the ledger when each user's counter follows the tasks.\<close>

lemma ledger_okI:
  assumes "ledger_ok st" "map us_id (st_users st') = map us_id (st_users st)"
    "\<And>x. x \<in> set (st_users st') \<Longrightarrow> user_ok st' x"
  shows "ledger_ok st'"
  using assms by (simp add: ledger_ok_def)

lemma ledger_user: "ledger_ok st \<Longrightarrow> x \<in> set (st_users st) \<Longrightarrow> user_ok st x"
  by (simp add: ledger_ok_def)

lemma get_user_unique:
  "ledger_ok st \<Longrightarrow> x \<in> set (st_users st) \<Longrightarrow> get_user st (us_id x) = Some x"
  by (simp add: ledger_ok_def get_user_def get_row_member)

lemma acquire_iff:
  assumes "ledger_ok st"
  shows "snd (atomic_acquire_slot now uid st) \<longleftrightarrow>
    (case get_user st uid of None \<Rightarrow> False
     | Some x \<Rightarrow> us_is_active x \<and> us_active_task_count x < MAX_ACTIVE_TASKS_PER_USER)"
  using rowcount_get_row [of us_id "st_users st" uid
      "\<lambda>x. us_is_active x \<and> us_active_task_count x < MAX_ACTIVE_TASKS_PER_USER"] assms
  by (simp add: atomic_acquire_slot_def split_beta update_users_users ledger_ok_def get_user_def
      split: option.splits)

lemma acquire_users:
  "st_users (fst (atomic_acquire_slot now uid st)) =
     map (\<lambda>x. if us_id x = uid \<and> us_is_active x \<and> us_active_task_count x < MAX_ACTIVE_TASKS_PER_USER
          then x\<lparr>us_active_task_count := us_active_task_count x + 1, us_updated_at := now\<rparr> else x) (st_users st)"
  by (simp add: atomic_acquire_slot_def split_beta update_users_users)

lemma acquire_frame [simp]: "st_tasks (fst (atomic_acquire_slot now uid st)) = st_tasks st"
  by (simp add: atomic_acquire_slot_def split_beta)

lemma release_users:
  "st_users (release_slot now uid st) =
     map (\<lambda>x. if us_id x = uid \<and> us_active_task_count x > 0
          then x\<lparr>us_active_task_count := us_active_task_count x - 1, us_updated_at := now\<rparr> else x) (st_users st)"
  by (simp add: release_slot_def atomic_release_slot_def split_beta update_users_users)

lemma release_slot_frame [simp]:
  "st_tasks (release_slot now uid st) = st_tasks st"
  "st_drafts (release_slot now uid st) = st_drafts st"
  "st_events (release_slot now uid st) = st_events st"
  "st_inbox (release_slot now uid st) = st_inbox st"
  by (simp_all add: release_slot_def atomic_release_slot_def split_beta)

text \<open>
  A task of \<open>uid\<close> gives its slot back and the counter goes down by one: the two updates that
  every release in the code makes, in either service.
\<close>

lemma ledger_release:
  assumes "ledger_ok st" "st_users st1 = st_users st"
    "int (held_slots uid st1) = int (held_slots uid st) - 1"
    "\<And>v. v \<noteq> uid \<Longrightarrow> held_slots v st1 = held_slots v st"
  shows "ledger_ok (release_slot now uid st1)"
proof (rule ledger_okI [OF assms(1)])
  let ?g = "\<lambda>x. if us_id x = uid \<and> us_active_task_count x > 0
          then x\<lparr>us_active_task_count := us_active_task_count x - 1, us_updated_at := now\<rparr> else x"
  show "map us_id (st_users (release_slot now uid st1)) = map us_id (st_users st)"
    by (simp add: release_users assms(2))
  fix y assume "y \<in> set (st_users (release_slot now uid st1))"
  then obtain x where x: "x \<in> set (st_users st)" "y = ?g x"
    unfolding release_users assms(2) set_map by (elim imageE)
  have h: "held_slots v (release_slot now uid st1) = held_slots v st1" for v by (rule held_slots_cong) simp
  have ok: "us_active_task_count x = int (held_slots (us_id x) st)"
    "us_active_task_count x \<le> MAX_ACTIVE_TASKS_PER_USER"
    using ledger_user [OF assms(1) x(1)] by (auto simp: user_ok_def)
  show "user_ok (release_slot now uid st1) y"
  proof (cases "us_id x = uid")
    case True
    then have "us_active_task_count x > 0" using ok(1) [unfolded True] assms(3) by linarith
    with True ok assms(3) x(2) show ?thesis by (simp add: user_ok_def h)
  next
    case False
    with ok assms(4) x(2) show ?thesis by (simp add: user_ok_def h)
  qed
qed

lemma ledger_acquire:
  assumes "ledger_ok st" "snd (atomic_acquire_slot now uid st)"
    "st_users st2 = st_users (fst (atomic_acquire_slot now uid st))"
    "int (held_slots uid st2) = int (held_slots uid st) + 1"
    "\<And>v. v \<noteq> uid \<Longrightarrow> held_slots v st2 = held_slots v st"
  shows "ledger_ok st2"
proof (rule ledger_okI [OF assms(1)])
  let ?g = "\<lambda>x. if us_id x = uid \<and> us_is_active x \<and> us_active_task_count x < MAX_ACTIVE_TASKS_PER_USER
          then x\<lparr>us_active_task_count := us_active_task_count x + 1, us_updated_at := now\<rparr> else x"
  show "map us_id (st_users st2) = map us_id (st_users st)"
    by (simp add: assms(3) acquire_users)
  fix y assume "y \<in> set (st_users st2)"
  then obtain x where x: "x \<in> set (st_users st)" "y = ?g x"
    unfolding assms(3) acquire_users set_map by (elim imageE)
  have ok: "us_active_task_count x = int (held_slots (us_id x) st)"
    "us_active_task_count x \<le> MAX_ACTIVE_TASKS_PER_USER"
    using ledger_user [OF assms(1) x(1)] by (auto simp: user_ok_def)
  show "user_ok st2 y"
  proof (cases "us_id x = uid")
    case True
    then have "us_is_active x \<and> us_active_task_count x < MAX_ACTIVE_TASKS_PER_USER"
      using assms(1,2) x(1) get_user_unique [OF assms(1) x(1)] by (simp add: acquire_iff)
    with True ok assms(4) x(2) show ?thesis by (simp add: user_ok_def)
  next
    case False
    with ok assms(5) x(2) show ?thesis by (simp add: user_ok_def)
  qed
qed

lemma acquire_slot_Inr:
  "ledger_ok st \<Longrightarrow> acquire_slot now key owner_id st = Inr st' \<longleftrightarrow>
     ak_is_enabled key \<and> snd (atomic_acquire_slot now owner_id st) \<and>
     st' = fst (atomic_acquire_slot now owner_id st)"
  using acquire_iff [of st now owner_id]
  by (cases "atomic_acquire_slot now owner_id st")
    (auto simp: acquire_slot_def bindr_Inr_iff split: option.splits if_splits)

lemma sample_ledger_ok: "ledger_ok sample_store"
  by (simp add: ledger_ok_def user_ok_def held_slots_def holding_def MAX_ACTIVE_TASKS_PER_USER_def)



text \<open>
  Closing one open row: whatever a service writes to it, if the row takes a legal step and gives
  its slot back and the owner's counter is released, then tasks and ledger stay in order.
\<close>

lemma close_row:
  assumes ok: "tasks_ok st" and led: "ledger_ok st" and t0: "get_task st k = Some t0" "rt_slot_released_at t0 = None"
    and F: "row_step t0 (F t0)" "task_ok (F t0)" "rt_slot_released_at (F t0) \<noteq> None"
    and st': "st_tasks st' = map (\<lambda>t. if rt_id t = k then F t else t) (st_tasks st)"
      "st_users st' = st_users (release_slot now (rt_owner_user_id t0) st)"
  shows "tasks_step st st'" and "tasks_ok st'" and "ledger_ok st'"
proof -
  let ?g = "\<lambda>t. if rt_id t = k then F t else t"
  have dist: "distinct (map rt_id (st_tasks st))" using ok by (simp add: tasks_ok_def)
  have mem: "t0 \<in> set (st_tasks st)" "rt_id t0 = k" using get_task_Some [OF t0(1)] by simp_all
  have only: "t = t0" if "t \<in> set (st_tasks st)" "rt_id t = k" for t
    using get_task_member [OF dist that(1)] that(2) t0(1) by simp
  have step: "row_step t (?g t)" if "t \<in> set (st_tasks st)" for t
    using only [OF that] F(1) by (cases "rt_id t = k") simp_all
  have step_t: "tasks_step st st'"
    using step by (simp add: tasks_step_def st'(1) list_all2_conv_all_nth)
  then show "tasks_step st st'" .
  have ids: "map rt_id (map ?g (st_tasks st)) = map rt_id (st_tasks st)"
    unfolding map_map comp_def by (rule map_cong [OF refl], rule row_step_key, rule step)
  have oks: "task_ok (?g t)" if "t \<in> set (st_tasks st)" for t
    using only [OF that] F(2) ok that by (cases "rt_id t = k") (simp_all add: tasks_ok_def)
  show "tasks_ok st'"
    unfolding tasks_ok_def st'(1) ids using dist oks by (simp only: set_map ball_simps(9) simp_thms) blast
  have own: "rt_owner_user_id (F t0) = rt_owner_user_id t0"
    using row_step_identity [OF F(1)] by (simp add: same_identity_def)
  have eq: "map ?g (st_tasks st) = map (\<lambda>x. if rt_id x = k \<and> True then F x else x) (st_tasks st)" by simp
  have held: "int (held_slots v st') = int (held_slots v st) - of_bool (holding v t0) + of_bool (holding v (F t0))" for v
    unfolding held_slots_def st'(1) eq by (rule rowcount_update_one [OF dist mem]) simp
  let ?st1 = "st\<lparr>st_tasks := st_tasks st'\<rparr>"
  have h1: "held_slots v ?st1 = held_slots v st'" for v by (simp add: held_slots_def)
  have "ledger_ok (release_slot now (rt_owner_user_id t0) ?st1)"
  proof (rule ledger_release [OF led])
    show "int (held_slots (rt_owner_user_id t0) ?st1) = int (held_slots (rt_owner_user_id t0) st) - 1"
      using held [of "rt_owner_user_id t0"] t0(2) F(3) by (simp add: h1 holding_def own)
    fix v assume "v \<noteq> rt_owner_user_id t0"
    then show "held_slots v ?st1 = held_slots v st" using held [of v] by (simp add: h1 holding_def own)
  qed simp
  moreover have "st_users (release_slot now (rt_owner_user_id t0) ?st1) = st_users st'"
    by (simp add: st'(2) release_users)
  ultimately show "ledger_ok st'"
    by (subst ledger_ok_cong [of st' "release_slot now (rt_owner_user_id t0) ?st1"]) simp_all
qed

section \<open>Disabling\<close>

text \<open>The store that \<open>disable_user\<close> commits, table by table.\<close>

lemma disable_user_result:
  assumes "us_is_active user" "disable_user now user actor st = Inr (st', i)"
  shows "us_id user \<noteq> actor \<and> i = impact_counts now (us_id user) st \<and>
    st_tasks st' = map (\<lambda>t. if active_for (us_id user) t then cancel_values now (u ''user_disabled'') t else t) (st_tasks st) \<and>
    st_users st' = map (\<lambda>x. if us_id x = us_id user
       then x\<lparr>us_is_active := False, us_updated_at := now, us_disabled_at := Some now,
              us_disabled_by_user_id := Some actor, us_active_task_count := 0\<rparr> else x) (st_users st) \<and>
    st_keys st' = map (\<lambda>k. if ak_owner_user_id k = us_id user \<and> ak_is_enabled k
       then k\<lparr>ak_is_enabled := False, ak_updated_at := now\<rparr> else k) (st_keys st) \<and>
    st_sessions st' = map (\<lambda>s. if as_user_id s = us_id user \<and> as_revoked_at s = None
       then s\<lparr>as_revoked_at := Some now\<rparr> else s) (st_sessions st) \<and>
    st_drafts st' = st_drafts st"
  using assms
  by (auto simp: disable_user_def Let_def cancel_all_for_user_def clear_active_task_count_def set_active_def
      disable_all_for_user_def revoke_all_for_user_def update_users_def update_tasks_def sql_update_def
      add_audit_def comp_def split: if_splits)

lemma cancel_values_simps [simp]:
  "rt_id (cancel_values now r t) = rt_id t"
  "rt_owner_user_id (cancel_values now r t) = rt_owner_user_id t"
  "rt_slot_released_at (cancel_values now r t) = Some now"
  "rt_state (cancel_values now r t) = CANCELLED"
  by (simp_all add: cancel_values_def terminal_values_def bump_def)

lemma disable_held:
  assumes "tasks_ok st" "us_is_active user" "disable_user now user actor st = Inr (st', i)"
  shows "held_slots v st' = (if v = us_id user then 0 else held_slots v st)"
proof -
  let ?f = "\<lambda>t. if active_for (us_id user) t then cancel_values now (u ''user_disabled'') t else t"
  have t: "st_tasks st' = map ?f (st_tasks st)" using disable_user_result [OF assms(2,3)] by simp
  have act: "active_for v t \<longleftrightarrow> holding v t" if "t \<in> set (st_tasks st)" for t v
    using assms(1) that by (auto simp: active_for_def holding_def tasks_ok_def task_ok_def)
  have "holding v (?f t) \<longleftrightarrow> v \<noteq> us_id user \<and> holding v t" if "t \<in> set (st_tasks st)" for t
    using act [OF that] by (auto simp: holding_def)
  then have "rowcount (holding v \<circ> ?f) (st_tasks st) = rowcount (\<lambda>t. v \<noteq> us_id user \<and> holding v t) (st_tasks st)"
    by (intro rowcount_cong) simp
  then show ?thesis by (simp add: held_slots_def t rowcount_def filter_map)
qed

text \<open>The tables of tasks and users stay in order.\<close>

lemma disable_keeps:
  assumes "tasks_ok st" "ledger_ok st" "us_is_active user" "disable_user now user actor st = Inr (st', i)"
  shows "tasks_step st st'" and "tasks_ok st'" and "ledger_ok st'"
proof -
  let ?uid = "us_id user"
  have r: "st_tasks st' = map (\<lambda>t. if active_for ?uid t then cancel_values now (u ''user_disabled'') t else t) (st_tasks st)"
    "st_users st' = map (\<lambda>x. if us_id x = ?uid
       then x\<lparr>us_is_active := False, us_updated_at := now, us_disabled_at := Some now,
              us_disabled_by_user_id := Some actor, us_active_task_count := 0\<rparr> else x) (st_users st)"
    "st_keys st' = map (\<lambda>k. if ak_owner_user_id k = ?uid \<and> ak_is_enabled k
       then k\<lparr>ak_is_enabled := False, ak_updated_at := now\<rparr> else k) (st_keys st)"
    "st_sessions st' = map (\<lambda>s. if as_user_id s = ?uid \<and> as_revoked_at s = None
       then s\<lparr>as_revoked_at := Some now\<rparr> else s) (st_sessions st)"
    using disable_user_result [OF assms(3,4)] by simp_all
  have tasks: "st_tasks st' = st_tasks (fst (update_tasks (active_for ?uid) (cancel_values now (u ''user_disabled'')) st))"
    by (simp add: r(1) update_tasks_tasks)
  have cs: "row_step t (cancel_values now (u ''user_disabled'') t) \<and> task_ok (cancel_values now (u ''user_disabled'') t)"
    if "active_for ?uid t" "task_ok t" for t
    using that by (intro cancel_step) (auto simp: active_for_def)
  have step: "tasks_step st st'"
    unfolding tasks_step_def tasks
    by (fold tasks_step_def, rule update_tasks_step) (use assms(1) cs in \<open>simp add: tasks_ok_def\<close>)
  have "tasks_ok (fst (update_tasks (active_for ?uid) (cancel_values now (u ''user_disabled'')) st))"
    by (rule update_tasks_ok [OF assms(1)]) (use cs in simp_all)
  then have tok: "tasks_ok st'" using tasks_ok_cong [OF tasks] by simp
  have held: "held_slots v st' = (if v = ?uid then 0 else held_slots v st)" for v
    by (rule disable_held [OF assms(1,3,4)])
  have led: "ledger_ok st'"
  proof (rule ledger_okI [OF assms(2)])
    show "map us_id (st_users st') = map us_id (st_users st)" by (simp add: r(2))
    fix y assume "y \<in> set (st_users st')"
    then obtain x where x: "x \<in> set (st_users st)" and y: "y = (if us_id x = ?uid
       then x\<lparr>us_is_active := False, us_updated_at := now, us_disabled_at := Some now,
              us_disabled_by_user_id := Some actor, us_active_task_count := 0\<rparr> else x)"
      unfolding r(2) set_map by (elim imageE)
    show "user_ok st' y"
      using ledger_user [OF assms(2) x] by (auto simp: y user_ok_def held MAX_ACTIVE_TASKS_PER_USER_def)
  qed
  show "tasks_step st st'" "tasks_ok st'" "ledger_ok st'" by (rule step tok led)+
qed


definition sample_admin_id :: int where "sample_admin_id = 1"


end
