(* ===== verification/Models.thy ===== *)
theory Models
  imports Samples
begin

text \<open>
  The models a key may call: \<open>EffectiveModelService\<close> (\<open>app/services/effective_models.py\<close>) over
  the queries \<open>visible_models\<close>, \<open>get_group\<close>, \<open>group_items\<close> and \<open>key_selected_models\<close> of
  \<open>FakeModelRepository\<close> (\<open>app/repositories/catalog.py\<close>). The catalog tables are a record of
  their own; of a fake model it keeps the columns these queries read.
\<close>

datatype fake_model_scope = SYSTEM | PRIVATE

record fake_model =
  fm_id :: int
  fm_scope :: fake_model_scope
  fm_owner_user_id :: "int option"
  fm_model_id :: ustr
  fm_owned_by :: ustr
  fm_sort_order :: int
  fm_is_enabled :: bool
  fm_created_at :: instant

record catalog =
  ca_models :: "fake_model list"
  ca_groups :: "int list"
  ca_group_items :: "(int \<times> int) list"
  ca_key_models :: "(int \<times> int) list"

definition by_order :: "fake_model list \<Rightarrow> fake_model list" where
  "by_order rows = sort_key (\<lambda>r. (fm_sort_order r, fm_id r)) rows"

definition visible_models :: "catalog \<Rightarrow> int \<Rightarrow> fake_model list" where
  "visible_models ca owner =
     (let rows = filter (\<lambda>r. fm_is_enabled r)
            (filter (\<lambda>r. fm_owner_user_id r = None \<or> fm_owner_user_id r = Some owner) (ca_models ca));
          by_model = map fm_model_id (filter (\<lambda>r. fm_scope r = PRIVATE) rows)
      in by_order (filter (\<lambda>r. \<not> (fm_scope r = SYSTEM \<and> fm_model_id r \<in> set by_model)) rows))"

text \<open>The joins with the two association tables; a group is its primary key.\<close>

definition get_group :: "catalog \<Rightarrow> int \<Rightarrow> int option" where
  "get_group ca g = (if g \<in> set (ca_groups ca) then Some g else None)"

definition joined :: "(int \<times> int) list \<Rightarrow> int \<Rightarrow> catalog \<Rightarrow> fake_model list" where
  "joined links k ca = by_order (filter (\<lambda>r. (k, fm_id r) \<in> set links) (ca_models ca))"

definition group_items :: "catalog \<Rightarrow> int \<Rightarrow> fake_model list" where
  "group_items ca g = joined (ca_group_items ca) g ca"

definition key_selected_models :: "catalog \<Rightarrow> int \<Rightarrow> fake_model list" where
  "key_selected_models ca key_id = joined (ca_key_models ca) key_id ca"

definition effective_models :: "catalog \<Rightarrow> api_key \<Rightarrow> fake_model list" where
  "effective_models ca key =
     (let candidates = visible_models ca (ak_owner_user_id key);
          selected = key_selected_models ca (ak_id key);
          narrow = (\<lambda>cs. if selected \<noteq> [] then filter (\<lambda>r. fm_id r \<in> set (map fm_id selected)) cs else cs)
      in case ak_model_group_id key of
           None \<Rightarrow> narrow candidates
         | Some g \<Rightarrow>
             (case get_group ca g of
                None \<Rightarrow> []
              | Some g' \<Rightarrow> narrow (filter (\<lambda>r. fm_id r \<in> set (map fm_id (group_items ca g'))) candidates)))"

definition resolve_model :: "catalog \<Rightarrow> api_key \<Rightarrow> ustr \<Rightarrow> fake_model option" where
  "resolve_model ca key model_id =
     (if model_id = [] then None else find (\<lambda>r. fm_model_id r = model_id) (effective_models ca key))"

definition catalog_entry :: "fake_model \<Rightarrow> obj" where
  "catalog_entry r =
     [(u ''id'', JStr (fm_model_id r)), (u ''object'', S ''model''),
      (u ''created'', JInt (fm_created_at r div 1000000)),
      (u ''owned_by'', JStr (if fm_owned_by r \<noteq> [] then fm_owned_by r
                            else u (case fm_scope r of SYSTEM \<Rightarrow> ''system'' | PRIVATE \<Rightarrow> ''private'')))]"

section \<open>The catalog's constraints\<close>

text \<open>The check constraint on scope and owner and the unique indexes of \<open>fake_models\<close>.\<close>

definition catalog_ok :: "catalog \<Rightarrow> bool" where
  "catalog_ok ca \<longleftrightarrow> distinct (map fm_id (ca_models ca)) \<and>
     (\<forall>r \<in> set (ca_models ca). (fm_scope r = SYSTEM) \<longleftrightarrow> fm_owner_user_id r = None) \<and>
     distinct (map (\<lambda>r. (fm_owner_user_id r, fm_model_id r)) (ca_models ca))"

definition offered :: "catalog \<Rightarrow> int \<Rightarrow> fake_model \<Rightarrow> bool" where
  "offered ca owner r \<longleftrightarrow> r \<in> set (ca_models ca) \<and> fm_is_enabled r \<and>
     (fm_owner_user_id r = Some owner \<or>
      fm_owner_user_id r = None \<and>
      (\<forall>p \<in> set (ca_models ca). fm_is_enabled p \<and> fm_owner_user_id p = Some owner \<longrightarrow>
         fm_model_id p \<noteq> fm_model_id r))"

lemma set_by_order [simp]: "set (by_order rows) = set rows"
  by (simp add: by_order_def)

lemma mem_visible:
  assumes "catalog_ok ca"
  shows "r \<in> set (visible_models ca owner) \<longleftrightarrow> offered ca owner r"
proof (cases "r \<in> set (ca_models ca) \<and> fm_is_enabled r")
  case False
  then show ?thesis by (auto simp: visible_models_def offered_def Let_def)
next
  case True
  have scope: "fm_scope p = SYSTEM \<longleftrightarrow> fm_owner_user_id p = None" if "p \<in> set (ca_models ca)" for p
    using assms that by (simp add: catalog_ok_def)
  then have priv: "fm_scope p = PRIVATE \<longleftrightarrow> fm_owner_user_id p \<noteq> None" if "p \<in> set (ca_models ca)" for p
    using scope [OF that] by (cases "fm_scope p") auto
  have by_model: "m \<in> set (map fm_model_id (filter (\<lambda>r. fm_scope r = PRIVATE) (filter (\<lambda>r. fm_is_enabled r)
      (filter (\<lambda>r. fm_owner_user_id r = None \<or> fm_owner_user_id r = Some owner) (ca_models ca))))) \<longleftrightarrow>
      (\<exists>p \<in> set (ca_models ca). fm_is_enabled p \<and> fm_owner_user_id p = Some owner \<and> fm_model_id p = m)" for m
    using priv by (auto simp: image_iff)
  show ?thesis
    using True scope [of r] unfolding visible_models_def Let_def set_by_order set_filter mem_Collect_eq by_model
    by (auto simp: offered_def)
qed

lemma offered_unique:
  assumes "catalog_ok ca" "offered ca owner r" "offered ca owner r'" "fm_model_id r = fm_model_id r'"
  shows "r = r'"
proof -
  have "fm_owner_user_id r = fm_owner_user_id r'"
    using assms(2-4) by (auto simp: offered_def)
  with assms show ?thesis
    by (auto simp: catalog_ok_def offered_def distinct_map dest: inj_onD)
qed

lemma joined_ids:
  assumes "x \<in> set (ca_models ca)"
  shows "fm_id x \<in> fm_id ` set (joined links k ca) \<longleftrightarrow> (k, fm_id x) \<in> set links"
proof
  assume "fm_id x \<in> fm_id ` set (joined links k ca)"
  then show "(k, fm_id x) \<in> set links"
    unfolding joined_def set_by_order set_filter by (elim imageE) simp
next
  assume "(k, fm_id x) \<in> set links"
  with assms show "fm_id x \<in> fm_id ` set (joined links k ca)"
    unfolding joined_def set_by_order set_filter by (intro imageI) simp
qed

lemma effective_subset: "set (effective_models ca key) \<subseteq> set (visible_models ca (ak_owner_user_id key))"
  by (auto simp: effective_models_def Let_def split: option.splits if_splits)

text \<open>
  C36. The model a key resolves is determined and admissible. A name resolves to at most one
  model: the key owner's enabled private model of this name if there is one, else the enabled
  system model; a group and an explicit selection only narrow the set, and a key bound to a
  deleted group resolves nothing.
\<close>

theorem resolve_model_admissible:
  assumes "catalog_ok ca"
  shows "(resolve_model ca key m = Some r \<longleftrightarrow>
      m \<noteq> [] \<and> fm_model_id r = m \<and> offered ca (ak_owner_user_id key) r \<and>
      (case ak_model_group_id key of None \<Rightarrow> True
       | Some g \<Rightarrow> g \<in> set (ca_groups ca) \<and> (g, fm_id r) \<in> set (ca_group_items ca)) \<and>
      (key_selected_models ca (ak_id key) = [] \<or> (ak_id key, fm_id r) \<in> set (ca_key_models ca)))"
proof -
  have eff: "x \<in> set (effective_models ca key) \<longleftrightarrow> offered ca (ak_owner_user_id key) x \<and>
      (case ak_model_group_id key of None \<Rightarrow> True
       | Some g \<Rightarrow> g \<in> set (ca_groups ca) \<and> (g, fm_id x) \<in> set (ca_group_items ca)) \<and>
      (key_selected_models ca (ak_id key) = [] \<or> (ak_id key, fm_id x) \<in> set (ca_key_models ca))" for x
  proof (cases "offered ca (ak_owner_user_id key) x")
    case False
    then have "x \<notin> set (visible_models ca (ak_owner_user_id key))" using assms by (simp add: mem_visible)
    then have "x \<notin> set (effective_models ca key)" using effective_subset by blast
    with False show ?thesis by blast
  next
    case True
    then have "x \<in> set (ca_models ca)" by (simp add: offered_def)
    note j = joined_ids [OF this]
    have v: "x \<in> set (visible_models ca (ak_owner_user_id key))" using True by (simp add: mem_visible [OF assms])
    show ?thesis
    proof (cases "ak_model_group_id key")
      case None
      with True v show ?thesis
        by (simp add: effective_models_def Let_def key_selected_models_def j)
    next
      case (Some g)
      with True v show ?thesis
        by (simp add: effective_models_def Let_def get_group_def group_items_def key_selected_models_def j)
    qed
  qed
  have uniq: "x = y" if "x \<in> set (effective_models ca key)" "y \<in> set (effective_models ca key)"
      "fm_model_id x = fm_model_id y" for x y
  proof (rule offered_unique [OF assms _ _ that(3)])
    show "offered ca (ak_owner_user_id key) x" using that(1) unfolding eff by (rule conjunct1)
    show "offered ca (ak_owner_user_id key) y" using that(2) unfolding eff by (rule conjunct1)
  qed
  have find: "find (\<lambda>r. fm_model_id r = m) (effective_models ca key) = Some r \<longleftrightarrow>
      r \<in> set (effective_models ca key) \<and> fm_model_id r = m"
  proof (rule find_unique)
    fix x y assume "x \<in> set (effective_models ca key)" "y \<in> set (effective_models ca key)"
      "fm_model_id x = m" "fm_model_id y = m"
    then show "x = y" by (intro uniq) simp_all
  qed
  show ?thesis
    unfolding resolve_model_def using find eff [of r]
    by (simp add: conj_ac)
qed

definition sample_catalog_rows :: catalog where
  "sample_catalog_rows = \<lparr>ca_models = [\<lparr>fm_id = 1, fm_scope = SYSTEM, fm_owner_user_id = None,
       fm_model_id = u ''m'', fm_owned_by = [], fm_sort_order = 0, fm_is_enabled = True, fm_created_at = 0\<rparr>,
     \<lparr>fm_id = 2, fm_scope = PRIVATE, fm_owner_user_id = Some 7, fm_model_id = u ''m'', fm_owned_by = [],
       fm_sort_order = 5, fm_is_enabled = True, fm_created_at = 0\<rparr>],
     ca_groups = [], ca_group_items = [], ca_key_models = []\<rparr>"

theorem resolve_model_admissible_witness:
  "map_option fm_id (resolve_model sample_catalog_rows sample_key (u ''m'')) = Some 2"
proof -
  let ?p = "\<lparr>fm_id = 2, fm_scope = PRIVATE, fm_owner_user_id = Some 7, fm_model_id = u ''m'', fm_owned_by = [],
       fm_sort_order = 5, fm_is_enabled = True, fm_created_at = 0\<rparr>"
  have "catalog_ok sample_catalog_rows" by (simp add: catalog_ok_def sample_catalog_rows_def)
  moreover have "offered sample_catalog_rows 7 ?p" by (simp add: offered_def sample_catalog_rows_def)
  ultimately have "resolve_model sample_catalog_rows sample_key (u ''m'') = Some ?p"
    using resolve_model_admissible [of sample_catalog_rows sample_key "u ''m''" ?p]
    by (simp add: key_selected_models_def joined_def by_order_def sample_catalog_rows_def)
  then show ?thesis by simp
qed

end
