(* ===== verification/Caller_Tools.thy ===== *)
theory Caller_Tools
  imports Store
begin

text \<open>
  Caller tools: the catalog derived from the raw request (\<open>app/domain/caller_tools.py\<close>) and
  the validation of the tool calls of a reply against it
  (\<open>app/services/caller_tool_service.py\<close>). The schema validator \<open>Draft202012Validator\<close> of the
  package \<open>jsonschema\<close> is the parameter \<open>iter_errors\<close>: from a schema and the arguments it
  gives the errors, each with its path and message, or raises.
\<close>

type_synonym schema_error = "json list \<times> ustr"
type_synonym schema_validator = "obj \<Rightarrow> obj \<Rightarrow> schema_error list result"

section \<open>The catalog\<close>

datatype caller_tool_choice = CHOICE_AUTO | CHOICE_NONE | CHOICE_REQUIRED | CHOICE_NAMED

record caller_tool_definition =
  ctd_name :: ustr
  ctd_description :: json
  ctd_input_schema :: obj
  ctd_source_type :: ustr

definition is_generatable :: "caller_tool_definition \<Rightarrow> bool" where
  "is_generatable t \<longleftrightarrow> ctd_source_type t \<in> {u ''function'', u ''custom''}"

record caller_tool_policy =
  ctp_choice :: caller_tool_choice
  ctp_required_name :: "ustr option"
  ctp_parallel_allowed :: bool

record caller_tool_catalog =
  ctc_definitions :: "caller_tool_definition list"
  ctc_policy :: caller_tool_policy

definition policy_of :: "caller_tool_choice \<Rightarrow> caller_tool_policy" where
  "policy_of c = \<lparr>ctp_choice = c, ctp_required_name = None, ctp_parallel_allowed = True\<rparr>"

definition catalog_names :: "caller_tool_catalog \<Rightarrow> ustr list" where
  "catalog_names c = map ctd_name (ctc_definitions c)"

definition catalog_is_empty :: "caller_tool_catalog \<Rightarrow> bool" where
  "catalog_is_empty c \<longleftrightarrow> ctc_definitions c = []"

definition catalog_get :: "caller_tool_catalog \<Rightarrow> ustr \<Rightarrow> caller_tool_definition option" where
  "catalog_get c name = find (\<lambda>t. ctd_name t = name) (ctc_definitions c)"

definition default_schema :: obj where
  "default_schema = [(u ''type'', S ''object''), (u ''properties'', JObj [])]"

definition schema_or_default :: "json \<Rightarrow> obj" where
  "schema_or_default v = (case v of JObj d \<Rightarrow> d | _ \<Rightarrow> default_schema)"

definition chat_tool_def :: "obj \<Rightarrow> caller_tool_definition option" where
  "chat_tool_def item =
     (case oget item ''function'' of
        JObj function \<Rightarrow>
          (case oget function ''name'' of
             JStr name \<Rightarrow>
               Some \<lparr>ctd_name = name, ctd_description = oget function ''description'',
                 ctd_input_schema = schema_or_default (oget function ''parameters''),
                 ctd_source_type = py_str (or_else (oget item ''type'') (S ''function''))\<rparr>
           | _ \<Rightarrow> None)
      | _ \<Rightarrow> None)"

definition responses_tool_def :: "obj \<Rightarrow> caller_tool_definition option" where
  "responses_tool_def item =
     (case oget item ''name'' of
        JStr name \<Rightarrow>
          Some \<lparr>ctd_name = name, ctd_description = oget item ''description'',
            ctd_input_schema = schema_or_default (oget item ''parameters''),
            ctd_source_type = py_str (or_else (oget item ''type'') (S ''function''))\<rparr>
      | _ \<Rightarrow> None)"

definition anthropic_tool_def :: "obj \<Rightarrow> caller_tool_definition option" where
  "anthropic_tool_def item =
     (case oget item ''name'' of
        JStr name \<Rightarrow>
          Some \<lparr>ctd_name = name, ctd_description = oget item ''description'',
            ctd_input_schema = schema_or_default (oget item ''input_schema''),
            ctd_source_type = py_str (or_else (oget item ''type'') (S ''custom''))\<rparr>
      | _ \<Rightarrow> None)"

fun tool_parser :: "inference_protocol \<Rightarrow> obj \<Rightarrow> caller_tool_definition option" where
  "tool_parser OPENAI_CHAT item = chat_tool_def item"
| "tool_parser OPENAI_RESPONSES item = responses_tool_def item"
| "tool_parser ANTHROPIC_MESSAGES item = anthropic_tool_def item"
| "tool_parser TYPE_SAFE_SYSTEMONE item = None"

definition parse_tools :: "inference_protocol \<Rightarrow> json \<Rightarrow> caller_tool_definition list" where
  "parse_tools protocol tools =
     (case tools of
        JList items \<Rightarrow>
          (if protocol = TYPE_SAFE_SYSTEMONE then []
           else List.map_filter
             (\<lambda>item. case item of JObj d \<Rightarrow> tool_parser protocol d | _ \<Rightarrow> None) items)
      | _ \<Rightarrow> [])"

definition named_policy :: "json \<Rightarrow> caller_tool_policy" where
  "named_policy name =
     (policy_of CHOICE_NAMED)\<lparr>ctp_required_name := (case name of JStr s \<Rightarrow> Some s | _ \<Rightarrow> None)\<rparr>"

definition choice_word :: "json \<Rightarrow> ustr" where
  "choice_word raw = ascii_lower (py_str (or_else raw (S ''auto'')))"

definition openai_choice :: "ustr \<Rightarrow> caller_tool_choice" where
  "openai_choice w = (if w = u ''none'' then CHOICE_NONE
     else if w = u ''required'' then CHOICE_REQUIRED else CHOICE_AUTO)"

definition parse_chat_choice :: "json \<Rightarrow> caller_tool_policy" where
  "parse_chat_choice raw =
     (case raw of
        JObj d \<Rightarrow> named_policy (case oget d ''function'' of JObj f \<Rightarrow> oget f ''name'' | _ \<Rightarrow> oget d ''name'')
      | _ \<Rightarrow> policy_of (openai_choice (choice_word raw)))"

definition parse_responses_choice :: "json \<Rightarrow> caller_tool_policy" where
  "parse_responses_choice raw =
     (case raw of
        JObj d \<Rightarrow> named_policy (oget d ''name'')
      | _ \<Rightarrow> policy_of (openai_choice (choice_word raw)))"

definition anthropic_choice :: "ustr \<Rightarrow> caller_tool_choice" where
  "anthropic_choice w = (if w = u ''none'' then CHOICE_NONE else if w = u ''any'' then CHOICE_REQUIRED
     else if w = u ''tool'' then CHOICE_NAMED else CHOICE_AUTO)"

definition parse_anthropic_choice :: "json \<Rightarrow> caller_tool_policy" where
  "parse_anthropic_choice raw =
     (case raw of
        JObj d \<Rightarrow>
          (let kind = choice_word (oget d ''type'')
           in if kind = u ''tool'' then named_policy (oget d ''name'')
              else policy_of (anthropic_choice kind))
      | _ \<Rightarrow> policy_of (anthropic_choice (choice_word raw)))"

definition anthropic_parallel :: "json \<Rightarrow> json" where
  "anthropic_parallel tool_choice =
     JBool (\<not> (case tool_choice of JObj d \<Rightarrow> oget d ''disable_parallel_tool_use'' = JBool True | _ \<Rightarrow> False))"

definition parse_policy :: "inference_protocol \<Rightarrow> json \<Rightarrow> obj \<Rightarrow> caller_tool_policy" where
  "parse_policy protocol tool_choice raw_payload =
     (if protocol = TYPE_SAFE_SYSTEMONE then policy_of CHOICE_AUTO
      else
        (let (policy, parallel) =
               (if protocol = OPENAI_CHAT
                then (parse_chat_choice tool_choice, oget raw_payload ''parallel_tool_calls'')
                else if protocol = OPENAI_RESPONSES
                then (parse_responses_choice tool_choice, oget raw_payload ''parallel_tool_calls'')
                else (parse_anthropic_choice tool_choice, anthropic_parallel tool_choice))
         in if parallel = JBool False then policy\<lparr>ctp_parallel_allowed := False\<rparr> else policy))"

definition build_caller_tool_catalog :: "inference_protocol \<Rightarrow> obj \<Rightarrow> caller_tool_catalog" where
  "build_caller_tool_catalog protocol raw_payload =
     \<lparr>ctc_definitions = parse_tools protocol (oget raw_payload ''tools''),
       ctc_policy = parse_policy protocol (oget raw_payload ''tool_choice'') raw_payload\<rparr>"

fun unique_from :: "ustr list \<Rightarrow> caller_tool_definition list \<Rightarrow> unit result" where
  "unique_from seen [] = Inr ()"
| "unique_from seen (tool # tools) =
     (if ctd_name tool \<in> set seen
      then Inl (err_text INVALID_REQUEST (u ''duplicate tool name in tools: '' @ ctd_name tool) 400 None)
      else unique_from (ctd_name tool # seen) tools)"

definition assert_unique_tool_names :: "caller_tool_definition list \<Rightarrow> unit result" where
  "assert_unique_tool_names definitions = unique_from [] definitions"

definition catalog_for_task :: "request_task \<Rightarrow> caller_tool_catalog" where
  "catalog_for_task task =
     (let text = (if rt_raw_payload_json task = [] then u ''{}'' else rt_raw_payload_json task);
          raw = (case loads text of Some (JObj d) \<Rightarrow> d | _ \<Rightarrow> [])
      in build_caller_tool_catalog (rt_protocol task) raw)"

section \<open>Validation\<close>

text \<open>A tool call as the callers pass it: the pydantic model, or a decoded JSON value.\<close>

datatype raw_call = CallModel reply_tool_call | CallJson json

definition call_dump :: "reply_tool_call \<Rightarrow> obj" where
  "call_dump c = [(u ''id'', JStr (rtc_id c)), (u ''name'', JStr (rtc_name c)),
     (u ''arguments'', JObj (rtc_arguments c))]"

definition label :: "nat \<Rightarrow> string \<Rightarrow> ustr" where
  "label index rest = u ''tool_calls['' @ nat_digits index @ u '']'' @ u rest"

definition json_pointer :: "schema_error list \<Rightarrow> ustr" where
  "json_pointer errors = (case errors of [] \<Rightarrow> u ''/'' | e # es \<Rightarrow> u ''/'' @ join (u ''/'') (map py_str (fst e)))"

definition max_schema_errors :: nat where
  "max_schema_errors = 5"

definition schema_errors ::
  "schema_validator \<Rightarrow> caller_tool_definition \<Rightarrow> obj \<Rightarrow> schema_error list result" where
  "schema_errors iter_errors tool arguments =
     (if ctd_input_schema tool = [] then Inr []
      else bindr (iter_errors (ctd_input_schema tool) arguments)
        (\<lambda>errors. Inr (take max_schema_errors errors)))"

definition tool_call_view :: "raw_call \<Rightarrow> nat \<Rightarrow> obj result" where
  "tool_call_view call index =
     (case call of
        CallModel c \<Rightarrow> Inr (call_dump c)
      | CallJson (JObj d) \<Rightarrow> Inr d
      | CallJson v \<Rightarrow> Inl (err_text VALIDATION_FAILED (label index '' must be an object'') 400 None))"

definition schema_violation :: "ustr \<Rightarrow> schema_error list \<Rightarrow> exn" where
  "schema_violation name errors =
     err_text VALIDATION_FAILED
       (u ''arguments of tool '' @ name @ u '' do not match the schema ('' @ json_pointer errors @ u ''): '' @
        snd (hd errors)) 400 None"

definition check_tool ::
  "schema_validator \<Rightarrow> caller_tool_catalog \<Rightarrow> ustr \<Rightarrow> json \<Rightarrow> ustr \<Rightarrow> caller_tool_definition result" where
  "check_tool iter_errors catalog name arguments not_object =
     (case catalog_get catalog name of
        None \<Rightarrow> Inl (err_text VALIDATION_FAILED (u ''undeclared caller tool '' @ name) 400
                  (Some (u ''caller_tool_not_declared'')))
      | Some tool \<Rightarrow>
          (if \<not> is_generatable tool then
             Inl (err_text VALIDATION_FAILED (u ''tool type cannot be generated: '' @ name) 400
               (Some (u ''caller_tool_type_unsupported'')))
           else
             (case arguments of
                JObj args \<Rightarrow>
                  bindr (schema_errors iter_errors tool args)
                    (\<lambda>errors. if errors \<noteq> [] then Inl (schema_violation name errors) else Inr tool)
              | _ \<Rightarrow> Inl (err_text VALIDATION_FAILED not_object 400 None))))"

text \<open>One round of the loop of \<open>validate_structural\<close>, with the call ids seen so far.\<close>

definition check_call ::
  "schema_validator \<Rightarrow> caller_tool_catalog \<Rightarrow> ustr list \<Rightarrow> nat \<Rightarrow> raw_call \<Rightarrow> ustr result" where
  "check_call iter_errors catalog seen_ids index raw =
     bindr (tool_call_view raw index) (\<lambda>call.
       case oget call ''id'' of
         JStr call_id \<Rightarrow>
           (if blank call_id then
              Inl (err_text VALIDATION_FAILED (label index ''.id must be a non-empty string'') 400 None)
            else if call_id \<in> set seen_ids then
              Inl (err_text VALIDATION_FAILED (u ''duplicate Tool Call ID: '' @ call_id) 400 None)
            else
              (case oget call ''name'' of
                 JStr name \<Rightarrow>
                   (if blank name then
                      Inl (err_text VALIDATION_FAILED (label index ''.name must be a non-empty string'') 400 None)
                    else bindr (check_tool iter_errors catalog name (oget call ''arguments'')
                           (label index ''.arguments must be a JSON object'')) (\<lambda>tool. Inr call_id))
               | _ \<Rightarrow> Inl (err_text VALIDATION_FAILED (label index ''.name must be a non-empty string'') 400 None)))
       | _ \<Rightarrow> Inl (err_text VALIDATION_FAILED (label index ''.id must be a non-empty string'') 400 None))"

fun check_calls ::
  "schema_validator \<Rightarrow> caller_tool_catalog \<Rightarrow> ustr list \<Rightarrow> nat \<Rightarrow> raw_call list \<Rightarrow> unit result" where
  "check_calls iter_errors catalog seen_ids index [] = Inr ()"
| "check_calls iter_errors catalog seen_ids index (c # cs) =
     bindr (check_call iter_errors catalog seen_ids index c)
       (\<lambda>call_id. check_calls iter_errors catalog (call_id # seen_ids) (Suc index) cs)"

definition validate_structural ::
  "schema_validator \<Rightarrow> caller_tool_catalog \<Rightarrow> raw_call list \<Rightarrow> unit result" where
  "validate_structural iter_errors catalog tool_calls =
     (if tool_calls = [] then Inr ()
      else if catalog_is_empty catalog then
        Inl (err_public VALIDATION_FAILED ''the request declares no caller tool'' 400
               ''caller_tools_not_available'')
      else check_calls iter_errors catalog [] 0 tool_calls)"

fun call_names :: "nat \<Rightarrow> raw_call list \<Rightarrow> json list result" where
  "call_names index [] = Inr []"
| "call_names index (c # cs) =
     bindr (tool_call_view c index) (\<lambda>call.
       bindr (call_names (Suc index) cs) (\<lambda>names. Inr (oget call ''name'' # names)))"

definition check_named :: "caller_tool_policy \<Rightarrow> raw_call list \<Rightarrow> unit result" where
  "check_named policy tool_calls =
     bindr (call_names 0 tool_calls) (\<lambda>names.
       raise_if (\<not> (truthy_text (ctp_required_name policy) \<and>
                    set names = {JStr (the (ctp_required_name policy))}))
         (err VALIDATION_FAILED ''tool_choice names one tool: only it may be called'' 400))"

definition validate_full ::
  "schema_validator \<Rightarrow> caller_tool_catalog \<Rightarrow> raw_call list \<Rightarrow> unit result" where
  "validate_full iter_errors catalog tool_calls =
     bindr (validate_structural iter_errors catalog tool_calls) (\<lambda>_.
       let policy = ctc_policy catalog
       in if tool_calls = [] then
            (if ctp_choice policy = CHOICE_REQUIRED then
               Inl (err VALIDATION_FAILED ''tool_choice=required: at least one Tool Call'' 400)
             else if ctp_choice policy = CHOICE_NAMED then
               Inl (err VALIDATION_FAILED ''tool_choice names a tool: at least one Tool Call'' 400)
             else Inr ())
          else if ctp_choice policy = CHOICE_NONE then
            Inl (err VALIDATION_FAILED ''tool_choice=none: no Tool Call allowed'' 400)
          else
            bindr (if ctp_choice policy = CHOICE_NAMED then check_named policy tool_calls else Inr ())
              (\<lambda>_. raise_if (\<not> ctp_parallel_allowed policy \<and> length tool_calls > 1)
                     (err VALIDATION_FAILED ''parallel tool calls are disabled'' 400)))"

definition validate_tool_arguments ::
  "schema_validator \<Rightarrow> caller_tool_catalog \<Rightarrow> ustr \<Rightarrow> json \<Rightarrow> caller_tool_definition result" where
  "validate_tool_arguments iter_errors catalog tool_name arguments =
     check_tool iter_errors catalog tool_name arguments
       (u ''arguments of tool '' @ tool_name @ u '' must be a JSON object'')"

section \<open>What the validation accepts\<close>

text \<open>
  The abstract contract of a reply: every call names a declared tool of a generatable type
  with arguments its schema accepts, the call ids differ, and the \<open>tool_choice\<close> policy and
  the ban on parallel calls hold.
\<close>

definition view_of :: "raw_call \<Rightarrow> obj" where
  "view_of c = (case tool_call_view c 0 of Inr d \<Rightarrow> d | Inl e \<Rightarrow> [])"

definition is_call :: "raw_call \<Rightarrow> bool" where
  "is_call c \<longleftrightarrow> is_ok (tool_call_view c 0)"

definition text_of :: "json \<Rightarrow> ustr" where
  "text_of v = (case v of JStr s \<Rightarrow> s | _ \<Rightarrow> [])"

definition dict_of_json :: "json \<Rightarrow> obj" where
  "dict_of_json v = (case v of JObj d \<Rightarrow> d | _ \<Rightarrow> [])"

definition call_id_of :: "raw_call \<Rightarrow> ustr" where
  "call_id_of c = text_of (oget (view_of c) ''id'')"

definition call_name_of :: "raw_call \<Rightarrow> ustr" where
  "call_name_of c = text_of (oget (view_of c) ''name'')"

definition call_args_of :: "raw_call \<Rightarrow> obj" where
  "call_args_of c = dict_of_json (oget (view_of c) ''arguments'')"

definition valid_call :: "schema_validator \<Rightarrow> caller_tool_catalog \<Rightarrow> raw_call \<Rightarrow> bool" where
  "valid_call iter_errors catalog c \<longleftrightarrow>
     is_call c \<and> \<not> blank (call_id_of c) \<and> \<not> blank (call_name_of c) \<and>
     is_obj (oget (view_of c) ''arguments'') \<and>
     (case catalog_get catalog (call_name_of c) of
        None \<Rightarrow> False
      | Some t \<Rightarrow> is_generatable t \<and> schema_errors iter_errors t (call_args_of c) = Inr [])"

definition policy_allows :: "caller_tool_policy \<Rightarrow> raw_call list \<Rightarrow> bool" where
  "policy_allows p calls \<longleftrightarrow>
     (case ctp_choice p of
        CHOICE_AUTO \<Rightarrow> True
      | CHOICE_NONE \<Rightarrow> calls = []
      | CHOICE_REQUIRED \<Rightarrow> calls \<noteq> []
      | CHOICE_NAMED \<Rightarrow> calls \<noteq> [] \<and> list_all (\<lambda>c. Some (call_name_of c) = ctp_required_name p) calls) \<and>
     (ctp_parallel_allowed p \<or> length calls \<le> 1)"

definition compliant :: "schema_validator \<Rightarrow> caller_tool_catalog \<Rightarrow> raw_call list \<Rightarrow> bool" where
  "compliant iter_errors catalog calls \<longleftrightarrow>
     list_all (valid_call iter_errors catalog) calls \<and> distinct (map call_id_of calls) \<and>
     policy_allows (ctc_policy catalog) calls"

lemma text_of_simps [simp]: "text_of (JStr s) = s" "dict_of_json (JObj d) = d"
  by (simp_all add: text_of_def dict_of_json_def)

lemma not_blank_text: "\<not> blank (text_of v) \<Longrightarrow> v = JStr (text_of v)"
  by (cases v) (auto simp: text_of_def)

lemma view_index: "tool_call_view c i = Inr d \<longleftrightarrow> is_call c \<and> d = view_of c"
  by (auto simp: tool_call_view_def is_call_def view_of_def split: raw_call.splits json.splits)

lemma check_tool_iff:
  "check_tool ie cat name args m = Inr t \<longleftrightarrow>
     catalog_get cat name = Some t \<and> is_generatable t \<and> is_obj args \<and>
     schema_errors ie t (dict_of_json args) = Inr []"
  by (cases args) (auto simp: check_tool_def bindr_Inr_iff split: option.splits)

lemma check_call_iff:
  "check_call ie cat seen i c = Inr k \<longleftrightarrow>
     valid_call ie cat c \<and> call_id_of c \<notin> set seen \<and> k = call_id_of c"
proof (cases "is_call c")
  case False
  then have "\<nexists>d. tool_call_view c i = Inr d" by (simp add: view_index)
  with False show ?thesis by (simp add: check_call_def bindr_Inr_iff valid_call_def)
next
  case True
  then have v: "tool_call_view c i = Inr (view_of c)" by (simp add: view_index)
  have e: "schema_errors ie t (dict_of_json (oget (view_of c) ''arguments'')) = Inr [] \<longleftrightarrow>
      schema_errors ie t (call_args_of c) = Inr []" for t
    by (simp add: call_args_of_def)
  show ?thesis
  proof (cases "\<exists>a b. oget (view_of c) ''id'' = JStr a \<and> oget (view_of c) ''name'' = JStr b")
    case True
    then obtain a b where ab: "oget (view_of c) ''id'' = JStr a" "oget (view_of c) ''name'' = JStr b" by blast
    show ?thesis
      using \<open>is_call c\<close>
      by (auto simp: check_call_def valid_call_def call_id_of_def call_name_of_def check_tool_iff
          bindr_Inr_iff e v ab split: option.splits if_splits)
  next
    case False
    with v \<open>is_call c\<close> show ?thesis
      by (auto simp: check_call_def valid_call_def call_id_of_def call_name_of_def text_of_def
          split: json.splits if_splits)
  qed
qed

lemma check_calls_iff:
  "check_calls ie cat seen i calls = Inr () \<longleftrightarrow>
     list_all (valid_call ie cat) calls \<and> distinct (map call_id_of calls) \<and>
     set (map call_id_of calls) \<inter> set seen = {}"
  by (induction calls arbitrary: seen i) (auto simp: bindr_Inr_iff check_call_iff)

lemma validate_structural_iff:
  "validate_structural ie cat calls = Inr () \<longleftrightarrow>
     list_all (valid_call ie cat) calls \<and> distinct (map call_id_of calls)"
proof -
  have "\<not> list_all (valid_call ie cat) calls" if "calls \<noteq> []" "catalog_is_empty cat"
  proof -
    have "catalog_get cat n = None" for n
      using that by (simp add: catalog_get_def catalog_is_empty_def)
    with that show ?thesis by (cases calls) (simp_all add: valid_call_def)
  qed
  then show ?thesis by (auto simp: validate_structural_def check_calls_iff)
qed

lemma call_names_ok:
  "list_all (valid_call ie cat) calls \<Longrightarrow>
   call_names i calls = Inr (map (\<lambda>c. JStr (call_name_of c)) calls)"
proof (induction calls arbitrary: i)
  case (Cons c calls)
  then have "tool_call_view c i = Inr (view_of c)"
    by (simp add: view_index valid_call_def)
  moreover have "oget (view_of c) ''name'' = JStr (call_name_of c)"
    using Cons.prems not_blank_text by (simp add: valid_call_def call_name_of_def)
  ultimately show ?case using Cons by simp
qed simp

lemma check_named_iff:
  assumes "list_all (valid_call ie cat) calls" "calls \<noteq> []"
  shows "check_named p calls = Inr () \<longleftrightarrow>
     list_all (\<lambda>c. Some (call_name_of c) = ctp_required_name p) calls"
proof -
  have ne: "call_name_of c \<noteq> []" if "c \<in> set calls" for c
    using assms(1) that by (auto simp: list_all_iff valid_call_def)
  obtain c0 where c0: "c0 \<in> set calls" using assms(2) by (cases calls) auto
  show ?thesis
  proof (cases "ctp_required_name p")
    case None
    with c0 assms show ?thesis
      by (auto simp: check_named_def call_names_ok [OF assms(1)] truthy_text_def list_all_iff)
  next
    case (Some n)
    have "(\<lambda>c. JStr (call_name_of c)) ` set calls = {JStr n} \<longleftrightarrow> (\<forall>c \<in> set calls. call_name_of c = n)"
      using c0 by auto
    with Some c0 ne show ?thesis
      by (auto simp: check_named_def call_names_ok [OF assms(1)] truthy_text_def list_all_iff)
  qed
qed

lemma validate_full_accepts:
  "validate_full ie cat calls = Inr () \<longleftrightarrow> compliant ie cat calls"
proof (cases "list_all (valid_call ie cat) calls \<and> distinct (map call_id_of calls)")
  case False
  then show ?thesis
    by (auto simp: validate_full_def bindr_Inr_iff validate_structural_iff compliant_def)
next
  case True
  then have s: "validate_structural ie cat calls = Inr ()" by (simp add: validate_structural_iff)
  have v: "list_all (valid_call ie cat) calls" using True by simp
  have named: "check_named p calls = Inr () \<longleftrightarrow>
      list_all (\<lambda>c. Some (call_name_of c) = ctp_required_name p) calls" if "calls \<noteq> []" for p
    by (rule check_named_iff [OF v that])
  show ?thesis
  proof (cases "calls = []")
    case True
    with s show ?thesis
      by (cases "ctp_choice (ctc_policy cat)")
        (simp_all add: validate_full_def compliant_def policy_allows_def)
  next
    case ne: False
    then show ?thesis
      using True
      by (cases "ctp_choice (ctc_policy cat)")
        (auto simp: validate_full_def compliant_def policy_allows_def bindr_Inr_iff Let_def s named not_less)
  qed
qed

text \<open>
  C8. The validation of a reply accepts exactly the compliant replies: \<open>validate_full\<close> succeeds
  if and only if every call is a declared, generatable tool with schema-valid arguments, the
  ids are distinct, and the \<open>tool_choice\<close> and parallel-call policy of the request holds.
\<close>

theorem validate_full_accepts_compliant:
  "validate_full ie cat calls = Inr () \<longleftrightarrow> compliant ie cat calls"
  by (rule validate_full_accepts)

text \<open>Where an error of the validation comes from.\<close>

definition validation_error :: "exn \<Rightarrow> bool" where
  "validation_error x \<longleftrightarrow>
     (case x of DomainError d \<Rightarrow> de_code d = VALIDATION_FAILED \<and> de_status_code d = 400 | PyError k \<Rightarrow> False)"

lemma validation_error_simps [simp]:
  "validation_error (err_text VALIDATION_FAILED m 400 p)" "validation_error (err VALIDATION_FAILED s 400)"
  "validation_error (err_public VALIDATION_FAILED s 400 q)"
  by (simp_all add: validation_error_def err_text_def err_def err_public_def mk_domain_error_def)

definition refusal :: "schema_validator \<Rightarrow> exn \<Rightarrow> bool" where
  "refusal ie e \<longleftrightarrow> validation_error e \<or> (\<exists>schema args. ie schema args = Inl e)"

lemma check_tool_error: "check_tool ie cat name args m = Inl e \<Longrightarrow> refusal ie e"
  by (auto simp: check_tool_def schema_errors_def schema_violation_def bindr_Inl_iff refusal_def
      split: option.splits json.splits if_splits)

lemma view_error: "tool_call_view c i = Inl e \<Longrightarrow> refusal ie e"
  by (auto simp: tool_call_view_def refusal_def split: raw_call.splits json.splits)

lemma check_call_error: "check_call ie cat seen i c = Inl e \<Longrightarrow> refusal ie e"
proof (cases "tool_call_view c i")
  case (Inl x)
  assume "check_call ie cat seen i c = Inl e"
  with Inl show ?thesis using view_error [of c i x ie] by (simp add: check_call_def)
next
  case (Inr d)
  assume "check_call ie cat seen i c = Inl e"
  with Inr show ?thesis
    by (auto simp: check_call_def bindr_Inl_iff dest: check_tool_error split: json.splits if_splits)
      (auto simp: refusal_def)
qed

lemma check_calls_error: "check_calls ie cat seen i calls = Inl e \<Longrightarrow> refusal ie e"
  by (induction calls arbitrary: seen i) (auto simp: bindr_Inl_iff dest: check_call_error)

lemma validate_structural_error: "validate_structural ie cat calls = Inl e \<Longrightarrow> refusal ie e"
  by (auto simp: validate_structural_def refusal_def check_calls_error [unfolded refusal_def] split: if_splits)

lemma call_names_error: "call_names i calls = Inl e \<Longrightarrow> refusal ie e"
  by (induction calls arbitrary: i) (auto simp: bindr_Inl_iff dest: view_error)

text \<open>
  A refused reply is a 400 validation error: when the validation raises, the exception is
  the domain error \<open>VALIDATION_FAILED\<close> with status 400, unless the schema validator itself
  raised on a schema of the request.
\<close>

theorem validate_full_errors:
  assumes "validate_full ie cat calls = Inl e"
  shows "validation_error e \<or> (\<exists>schema args. ie schema args = Inl e)"
proof -
  have "refusal ie e"
    using assms
    by (auto simp: validate_full_def bindr_Inl_iff check_named_def Let_def
        dest: validate_structural_error call_names_error split: if_splits)
      (auto simp: refusal_def)
  then show ?thesis by (simp add: refusal_def)
qed

lemma validate_full_no_tools:
  "validate_full (\<lambda>s a. Inr []) (build_caller_tool_catalog OPENAI_CHAT []) [CallJson JNull] =
   Inl (err_public VALIDATION_FAILED ''the request declares no caller tool'' 400 ''caller_tools_not_available'')"
  by (simp add: validate_full_def validate_structural_def build_caller_tool_catalog_def
      parse_tools_def catalog_is_empty_def)

theorem validate_full_errors_witness:
  "validation_error (err_public VALIDATION_FAILED ''the request declares no caller tool'' 400
     ''caller_tools_not_available'')"
  using validate_full_errors
    [of "\<lambda>s a. Inr []" "build_caller_tool_catalog OPENAI_CHAT []" "[CallJson JNull]",
     OF validate_full_no_tools]
  by simp

text \<open>
  A catalog whose names were checked is unambiguous: \<open>assert_unique_tool_names\<close> succeeds
  exactly when no two definitions share a name, and then looking a definition up by its name
  finds that definition.
\<close>

theorem unique_names_lookup:
  "(assert_unique_tool_names (ctc_definitions cat) = Inr () \<longleftrightarrow> distinct (catalog_names cat)) \<and>
   (assert_unique_tool_names (ctc_definitions cat) = Inr () \<longrightarrow>
      (\<forall>t \<in> set (ctc_definitions cat). catalog_get cat (ctd_name t) = Some t))"
proof -
  have u: "unique_from seen ts = Inr () \<longleftrightarrow> distinct (map ctd_name ts) \<and> set (map ctd_name ts) \<inter> set seen = {}"
    for seen ts by (induction ts arbitrary: seen) auto
  have g: "find (\<lambda>x. ctd_name x = ctd_name t) ts = Some t"
    if "distinct (map ctd_name ts)" "t \<in> set ts" for t ts
    using that by (induction ts) force+
  show ?thesis
    by (auto simp: assert_unique_tool_names_def u catalog_names_def catalog_get_def g)
qed

theorem unique_names_lookup_witness:
  "catalog_get (build_caller_tool_catalog OPENAI_RESPONSES
       [(u ''tools'', JList [JObj [(u ''name'', S ''a'')], JObj [(u ''name'', S ''b'')]])]) (u ''b'')
   = Some \<lparr>ctd_name = u ''b'', ctd_description = JNull, ctd_input_schema = default_schema,
       ctd_source_type = u ''function''\<rparr>"
proof -
  let ?cat = "build_caller_tool_catalog OPENAI_RESPONSES
       [(u ''tools'', JList [JObj [(u ''name'', S ''a'')], JObj [(u ''name'', S ''b'')]])]"
  let ?t = "\<lparr>ctd_name = u ''b'', ctd_description = JNull, ctd_input_schema = default_schema,
       ctd_source_type = u ''function''\<rparr>"
  have d: "ctc_definitions ?cat = [?t\<lparr>ctd_name := u ''a''\<rparr>, ?t]"
    by (simp add: build_caller_tool_catalog_def parse_tools_def responses_tool_def_def
        List.map_filter_def or_else_def schema_or_default_def)
  then have "assert_unique_tool_names (ctc_definitions ?cat) = Inr ()"
    by (simp add: assert_unique_tool_names_def)
  with unique_names_lookup [of ?cat] d show ?thesis by simp
qed

end
