(* ===== verification/Requests.thy ===== *)
theory Requests
  imports Store
begin

text \<open>
  The request side of the three conversation protocols: \<open>app/protocols/normalized.py\<close> and the
  constructors and \<open>normalized_request\<close> of \<open>ChatCompletionsRequest\<close>, \<open>ResponsesRequest\<close> and
  \<open>AnthropicRequest\<close> (\<open>chat_completions.py\<close>, \<open>responses.py\<close>, \<open>anthropic.py\<close>). The body is the
  decoded text of the request; a constructor is a function from the payload that raises.
\<close>

section \<open>normalized.py\<close>

definition decode_object :: "string \<Rightarrow> ustr \<Rightarrow> obj result" where
  "decode_object label raw =
     (case loads raw of
        None \<Rightarrow> Inl (err_text INVALID_REQUEST (u label @ u '' is not valid JSON'') 400 None)
      | Some (JObj d) \<Rightarrow> Inr d
      | Some _ \<Rightarrow> Inl (err_text INVALID_REQUEST (u label @ u '' must be a JSON object'') 400 None))"

definition require_non_empty_str :: "obj \<Rightarrow> string \<Rightarrow> ustr result" where
  "require_non_empty_str payload field =
     (case oget payload field of
        JStr s \<Rightarrow> if blank s then Inl (err_text INVALID_REQUEST (u field @ u '' must be a non-empty string'') 400 None)
                 else Inr s
      | _ \<Rightarrow> Inl (err_text INVALID_REQUEST (u field @ u '' must be a non-empty string'') 400 None))"

definition reject_unsupported_field :: "obj \<Rightarrow> string \<Rightarrow> unit result" where
  "reject_unsupported_field payload field =
     raise_if (ohas payload field \<and> oget payload field \<noteq> JNull)
       (err_text UNSUPPORTED_PARAMETER (u ''unsupported parameter '' @ u field) 400 None)"

definition MAX_EXPANDED_ITEMS :: nat where "MAX_EXPANDED_ITEMS = 512"
definition MAX_EXPANDED_CONTEXT_BYTES :: nat where "MAX_EXPANDED_CONTEXT_BYTES = 2 * 1024 * 1024"

text \<open>\<open>len(s.encode("utf-8"))\<close>; a lone surrogate raises \<open>UnicodeEncodeError\<close>, a \<open>ValueError\<close>.\<close>

definition surrogate :: "nat \<Rightarrow> bool" where
  "surrogate c \<longleftrightarrow> 55296 \<le> c \<and> c \<le> 57343"

definition utf8_width :: "nat \<Rightarrow> nat" where
  "utf8_width c = (if c < 128 then 1 else if c < 2048 then 2 else if c < 65536 then 3 else 4)"

definition utf8_length :: "ustr \<Rightarrow> nat result" where
  "utf8_length s =
     (if list_ex surrogate s then Inl (PyError ValueError) else Inr (sum_list (map utf8_width s)))"

definition context_item_count :: "json list \<Rightarrow> nat" where
  "context_item_count items = length items"

definition context_json_bytes :: "json list \<Rightarrow> nat result" where
  "context_json_bytes items = utf8_length (dumps_compact (JList items))"

definition enforce_context_budget :: "json list \<Rightarrow> unit result" where
  "enforce_context_budget items =
     (if context_item_count items > MAX_EXPANDED_ITEMS
      then Inl (err CONTEXT_LENGTH_EXCEEDED ''too many context items'' 400)
      else bindr (context_json_bytes items) (\<lambda>n.
        raise_if (n > MAX_EXPANDED_CONTEXT_BYTES) (err CONTEXT_LENGTH_EXCEEDED ''context too large'' 400)))"

section \<open>Shared checks\<close>

definition without :: "string list \<Rightarrow> obj \<Rightarrow> obj" where
  "without names d = filter (\<lambda>(k, v). k \<notin> set (map u names)) d"

text \<open>\<open>bool(payload.get("stream", False))\<close>.\<close>

definition get_stream :: "obj \<Rightarrow> bool" where
  "get_stream payload = truthy (oget payload ''stream'')"

definition message_ok :: "json \<Rightarrow> bool" where
  "message_ok m = (case m of JObj d \<Rightarrow> is_str (oget d ''role'') | _ \<Rightarrow> False)"

definition check_messages :: "obj \<Rightarrow> json list result" where
  "check_messages payload =
     (case oget payload ''messages'' of
        JList ms \<Rightarrow>
          (if ms = [] then Inl (err INVALID_REQUEST ''messages must be a non-empty array'' 400)
           else if list_all message_ok ms then Inr ms
           else Inl (err INVALID_REQUEST ''messages has an invalid entry'' 400))
      | _ \<Rightarrow> Inl (err INVALID_REQUEST ''messages must be a non-empty array'' 400))"

section \<open>Chat Completions\<close>

record chat_request =
  ch_model :: ustr
  ch_messages :: "json list"
  ch_stream :: bool
  ch_stream_options :: json
  ch_tools :: json
  ch_tool_choice :: json
  ch_options :: obj
  ch_raw :: obj

definition chat_request :: "obj \<Rightarrow> chat_request result" where
  "chat_request payload =
     bindr (reject_unsupported_field payload ''store'') (\<lambda>_.
     bindr (require_non_empty_str payload ''model'') (\<lambda>model.
     bindr (check_messages payload) (\<lambda>messages.
     let stream_options = oget payload ''stream_options''
     in if stream_options \<noteq> JNull \<and> \<not> is_obj stream_options
        then Inl (err INVALID_REQUEST ''stream_options must be an object'' 400)
        else Inr \<lparr>ch_model = model, ch_messages = messages, ch_stream = get_stream payload,
               ch_stream_options = stream_options, ch_tools = oget payload ''tools'',
               ch_tool_choice = oget payload ''tool_choice'',
               ch_options = without [''model'', ''messages'', ''stream'', ''store''] payload,
               ch_raw = payload\<rparr>)))"

definition chat_normalized :: "chat_request \<Rightarrow> obj" where
  "chat_normalized r =
     [(u ''context'', JList (ch_messages r)), (u ''instructions'', JNull), (u ''tools'', ch_tools r),
      (u ''tool_choice'', ch_tool_choice r),
      (u ''options'', JObj (without [''tools'', ''tool_choice''] (ch_options r))),
      (u ''messages'', JList (ch_messages r)), (u ''stream'', JBool (ch_stream r))]"

section \<open>Responses\<close>

datatype responses_input = InputText ustr | InputItems "json list"

record responses_request =
  rr_store :: "bool option"
  rr_model :: ustr
  rr_input :: responses_input
  rr_instructions :: "ustr option"
  rr_previous_response_id :: "ustr option"
  rr_stream :: bool
  rr_tools :: json
  rr_options :: obj
  rr_raw :: obj

definition check_store :: "obj \<Rightarrow> bool option result" where
  "check_store payload =
     (case oget payload ''store'' of
        JNull \<Rightarrow> Inr None
      | JBool b \<Rightarrow> bindr (if b then reject_unsupported_field payload ''store'' else Inr ()) (\<lambda>_. Inr (Some b))
      | _ \<Rightarrow> Inl (err INVALID_REQUEST ''store must be a boolean'' 400))"

definition check_input :: "obj \<Rightarrow> responses_input result" where
  "check_input payload =
     (let empty = Inl (err INVALID_REQUEST ''input must be a non-empty string or array'' 400)
      in case oget payload ''input'' of
           JNull \<Rightarrow> empty
         | JStr s \<Rightarrow> if s = [] then empty else Inr (InputText s)
         | JList xs \<Rightarrow> if xs = [] then empty else Inr (InputItems xs)
         | _ \<Rightarrow> Inl (err INVALID_REQUEST ''input must be a string or an array'' 400))"

definition opt_str :: "obj \<Rightarrow> string \<Rightarrow> ustr option result" where
  "opt_str payload field =
     (case oget payload field of
        JNull \<Rightarrow> Inr None
      | JStr s \<Rightarrow> Inr (Some s)
      | _ \<Rightarrow> Inl (err_text INVALID_REQUEST (u field @ u '' must be a string'') 400 None))"

definition responses_consumed :: "string list" where
  "responses_consumed = [''model'', ''input'', ''instructions'', ''stream'', ''previous_response_id'',
     ''background'', ''conversation'', ''store'']"

definition responses_request :: "obj \<Rightarrow> responses_request result" where
  "responses_request payload =
     bindr (reject_unsupported_field payload ''background'') (\<lambda>_.
     bindr (reject_unsupported_field payload ''conversation'') (\<lambda>_.
     bindr (check_store payload) (\<lambda>store.
     bindr (require_non_empty_str payload ''model'') (\<lambda>model.
     bindr (check_input payload) (\<lambda>input.
     bindr (opt_str payload ''instructions'') (\<lambda>instructions.
     bindr (opt_str payload ''previous_response_id'') (\<lambda>previous.
     Inr \<lparr>rr_store = store, rr_model = model, rr_input = input, rr_instructions = instructions,
       rr_previous_response_id = (if truthy_text previous then previous else None),
       rr_stream = get_stream payload, rr_tools = oget payload ''tools'',
       rr_options = without responses_consumed payload, rr_raw = payload\<rparr>)))))))"

definition base_context_items :: "responses_request \<Rightarrow> json list" where
  "base_context_items r =
     (case rr_input r of
        InputText s \<Rightarrow> [JObj [(u ''type'', S ''message''), (u ''role'', S ''user''), (u ''content'', JStr s)]]
      | InputItems xs \<Rightarrow> xs)"

definition json_input :: "responses_input \<Rightarrow> json" where
  "json_input i = (case i of InputText s \<Rightarrow> JStr s | InputItems xs \<Rightarrow> JList xs)"

definition json_opt :: "ustr option \<Rightarrow> json" where
  "json_opt t = (case t of None \<Rightarrow> JNull | Some s \<Rightarrow> JStr s)"

definition responses_normalized :: "responses_request \<Rightarrow> json list \<Rightarrow> obj" where
  "responses_normalized r context =
     [(u ''context'', JList context), (u ''instructions'', json_opt (rr_instructions r)),
      (u ''tools'', rr_tools r), (u ''tool_choice'', oget (rr_options r) ''tool_choice''),
      (u ''options'', JObj (without [''tools'', ''tool_choice''] (rr_options r))),
      (u ''input'', json_input (rr_input r)), (u ''stream'', JBool (rr_stream r)),
      (u ''store'', (case rr_store r of None \<Rightarrow> JNull | Some b \<Rightarrow> JBool b))]"

section \<open>Anthropic Messages\<close>

datatype anthropic_system = NoSystem | SystemText ustr | SystemBlocks "json list"

record anthropic_request =
  an_model :: ustr
  an_messages :: "json list"
  an_max_tokens :: int
  an_system :: anthropic_system
  an_stream :: bool
  an_tools :: json
  an_options :: obj
  an_raw :: obj

definition check_max_tokens :: "obj \<Rightarrow> int result" where
  "check_max_tokens payload =
     (case oget payload ''max_tokens'' of
        JInt n \<Rightarrow> if n \<le> 0 then Inl (err INVALID_REQUEST ''max_tokens must be a positive integer'' 400) else Inr n
      | _ \<Rightarrow> Inl (err INVALID_REQUEST ''max_tokens must be a positive integer'' 400))"

definition check_system :: "obj \<Rightarrow> anthropic_system result" where
  "check_system payload =
     (case oget payload ''system'' of
        JNull \<Rightarrow> Inr NoSystem
      | JStr s \<Rightarrow> Inr (SystemText s)
      | JList xs \<Rightarrow> Inr (SystemBlocks xs)
      | _ \<Rightarrow> Inl (err INVALID_REQUEST ''system must be a string or an array of blocks'' 400))"

definition anthropic_request :: "obj \<Rightarrow> anthropic_request result" where
  "anthropic_request payload =
     bindr (require_non_empty_str payload ''model'') (\<lambda>model.
     bindr (check_messages payload) (\<lambda>messages.
     bindr (check_max_tokens payload) (\<lambda>max_tokens.
     bindr (check_system payload) (\<lambda>system.
     Inr \<lparr>an_model = model, an_messages = messages, an_max_tokens = max_tokens, an_system = system,
       an_stream = get_stream payload, an_tools = oget payload ''tools'',
       an_options = without [''model'', ''messages'', ''system'', ''stream'', ''max_tokens''] payload,
       an_raw = payload\<rparr>))))"

definition anthropic_normalized :: "anthropic_request \<Rightarrow> obj" where
  "anthropic_normalized r =
     [(u ''context'', JList (an_messages r)),
      (u ''instructions'', (case an_system r of SystemText s \<Rightarrow> JStr s | _ \<Rightarrow> JNull)),
      (u ''system_blocks'', (case an_system r of SystemBlocks xs \<Rightarrow> JList xs | _ \<Rightarrow> JNull)),
      (u ''tools'', an_tools r), (u ''tool_choice'', oget (an_options r) ''tool_choice''),
      (u ''options'', JObj (without [''tools'', ''tool_choice''] (an_options r))),
      (u ''max_tokens'', JInt (an_max_tokens r)), (u ''messages'', JList (an_messages r)),
      (u ''stream'', JBool (an_stream r))]"

definition parse_chat :: "ustr \<Rightarrow> chat_request result" where
  "parse_chat raw = bindr (decode_object ''body'' raw) chat_request"

definition parse_responses :: "ustr \<Rightarrow> responses_request result" where
  "parse_responses raw = bindr (decode_object ''body'' raw) responses_request"

definition parse_anthropic :: "ustr \<Rightarrow> anthropic_request result" where
  "parse_anthropic raw = bindr (decode_object ''body'' raw) anthropic_request"

section \<open>What a parsed request keeps of the body\<close>

definition obj_of :: "json \<Rightarrow> obj" where
  "obj_of v = (case v of JObj d \<Rightarrow> d | _ \<Rightarrow> [])"

lemma obj_of_JObj [simp]: "obj_of (JObj d) = d"
  by (simp add: obj_of_def)

lemma map_of_without: "map_of (without names d) k = (if k \<in> set (map u names) then None else map_of d k)"
  by (induction d) (auto simp: without_def)

lemma oget_without: "k \<notin> set names \<Longrightarrow> oget (without names d) k = oget d k"
  by (simp add: oget_def map_of_without inj_image_mem_iff) (auto simp: image_iff)

text \<open>
  A normalized request forwards a body when every field of the body that is not one of the
  \<open>consumed\<close> ones is found unchanged, the tools and the tool choice on top and the rest among
  the options.
\<close>

definition forwards :: "string list \<Rightarrow> obj \<Rightarrow> obj \<Rightarrow> bool" where
  "forwards consumed payload n \<longleftrightarrow>
     oget n ''tools'' = oget payload ''tools'' \<and> oget n ''tool_choice'' = oget payload ''tool_choice'' \<and>
     (\<forall>k. map_of (obj_of (oget n ''options'')) k =
        (if k \<in> set (map u (consumed @ [''tools'', ''tool_choice''])) then None else map_of payload k))"

lemma chat_request_Inr:
  "chat_request payload = Inr r \<longleftrightarrow>
     (ohas payload ''store'' \<longrightarrow> oget payload ''store'' = JNull) \<and>
     (\<exists>model messages. require_non_empty_str payload ''model'' = Inr model \<and>
        check_messages payload = Inr messages \<and>
        (oget payload ''stream_options'' = JNull \<or> is_obj (oget payload ''stream_options'')) \<and>
        r = \<lparr>ch_model = model, ch_messages = messages, ch_stream = get_stream payload,
               ch_stream_options = oget payload ''stream_options'', ch_tools = oget payload ''tools'',
               ch_tool_choice = oget payload ''tool_choice'',
               ch_options = without [''model'', ''messages'', ''stream'', ''store''] payload,
               ch_raw = payload\<rparr>)"
  by (auto simp: chat_request_def reject_unsupported_field_def bindr_Inr_iff Let_def)

lemma check_messages_Inr:
  "check_messages payload = Inr ms \<longleftrightarrow>
     oget payload ''messages'' = JList ms \<and> ms \<noteq> [] \<and> list_all message_ok ms"
  by (auto simp: check_messages_def split: json.split if_splits)

lemma require_non_empty_str_Inr:
  "require_non_empty_str payload f = Inr s \<longleftrightarrow> oget payload f = JStr s \<and> \<not> blank s"
  by (auto simp: require_non_empty_str_def split: json.split)

text \<open>
  An accepted request loses nothing: for each of the three conversation protocols the
  normalized request carries the messages (the given context, for Responses) as its context,
  the tools and the tool choice of the body, and every other field of the body that is not
  consumed by the gateway, unchanged, among its options.
\<close>

theorem normalized_forwards_body:
  "(\<forall>r. chat_request payload = Inr r \<longrightarrow>
      forwards [''model'', ''messages'', ''stream'', ''store''] payload (chat_normalized r) \<and>
      oget (chat_normalized r) ''context'' = oget payload ''messages'') \<and>
   (\<forall>r context. responses_request payload = Inr r \<longrightarrow>
      forwards responses_consumed payload (responses_normalized r context) \<and>
      oget (responses_normalized r context) ''context'' = JList context \<and>
      oget (responses_normalized r context) ''input'' = oget payload ''input'') \<and>
   (\<forall>r. anthropic_request payload = Inr r \<longrightarrow>
      forwards [''model'', ''messages'', ''system'', ''stream'', ''max_tokens''] payload (anthropic_normalized r) \<and>
      oget (anthropic_normalized r) ''context'' = oget payload ''messages'' \<and>
      oget (anthropic_normalized r) ''max_tokens'' = oget payload ''max_tokens'')"
proof (intro conjI allI impI)
  fix r assume r: "chat_request payload = Inr r"
  show "forwards [''model'', ''messages'', ''stream'', ''store''] payload (chat_normalized r)"
    using r by (auto simp: chat_request_Inr forwards_def chat_normalized_def map_of_without)
  show "oget (chat_normalized r) ''context'' = oget payload ''messages''"
    using r by (auto simp: chat_request_Inr chat_normalized_def check_messages_Inr)
next
  fix r ctx assume r: "responses_request payload = Inr r"
  have o: "rr_options r = without responses_consumed payload" "rr_tools r = oget payload ''tools''"
    using r by (auto simp: responses_request_def bindr_Inr_iff)
  show "forwards responses_consumed payload (responses_normalized r ctx)"
    by (auto simp: forwards_def responses_normalized_def o map_of_without)
      (auto simp: responses_consumed_def oget_without)
  show "oget (responses_normalized r ctx) ''context'' = JList ctx"
    by (simp add: responses_normalized_def)
  show "oget (responses_normalized r ctx) ''input'' = oget payload ''input''"
    using r by (auto simp: responses_request_def responses_normalized_def json_input_def check_input_def
        bindr_Inr_iff Let_def split: json.splits if_splits)
next
  fix r assume r: "anthropic_request payload = Inr r"
  have o: "an_options r = without [''model'', ''messages'', ''system'', ''stream'', ''max_tokens''] payload"
      "an_tools r = oget payload ''tools''"
    using r by (auto simp: anthropic_request_def bindr_Inr_iff)
  show "forwards [''model'', ''messages'', ''system'', ''stream'', ''max_tokens''] payload (anthropic_normalized r)"
    by (auto simp: forwards_def anthropic_normalized_def o map_of_without oget_without)
  show "oget (anthropic_normalized r) ''context'' = oget payload ''messages''"
    using r by (auto simp: anthropic_request_def anthropic_normalized_def bindr_Inr_iff check_messages_Inr)
  show "oget (anthropic_normalized r) ''max_tokens'' = oget payload ''max_tokens''"
    using r by (auto simp: anthropic_request_def anthropic_normalized_def bindr_Inr_iff check_max_tokens_def
        split: json.splits if_splits)
qed

definition sample_body :: obj where
  "sample_body = [(u ''model'', S ''m''), (u ''messages'', JList [JObj [(u ''role'', S ''user'')]]),
     (u ''temperature'', JInt 1)]"

theorem normalized_forwards_body_witness:
  "\<exists>r. chat_request sample_body = Inr r \<and>
     map_of (obj_of (oget (chat_normalized r) ''options'')) (u ''temperature'') = Some (JInt 1)"
proof -
  have m: "\<not> blank (u ''m'')"
    by (simp add: blank_def strip_def lstrip_def rstrip_def u_def py_space_def)
  have "\<exists>r. chat_request sample_body = Inr r"
    by (simp add: chat_request_Inr sample_body_def require_non_empty_str_Inr check_messages_Inr message_ok_def m)
  then obtain r where r: "chat_request sample_body = Inr r" by blast
  then have "forwards [''model'', ''messages'', ''stream'', ''store''] sample_body (chat_normalized r)"
    using normalized_forwards_body [of sample_body] by blast
  then have "map_of (obj_of (oget (chat_normalized r) ''options'')) (u ''temperature'') = Some (JInt 1)"
    by (simp add: forwards_def sample_body_def)
  with r show ?thesis by blast
qed

text \<open>A refusal of the caller's body: a domain error with one of the given statuses.\<close>

definition client_error :: "int list \<Rightarrow> exn \<Rightarrow> bool" where
  "client_error statuses e \<longleftrightarrow>
     (case e of
        DomainError d \<Rightarrow> de_status_code d \<in> set statuses \<and>
          de_code d \<in> {INVALID_REQUEST, UNSUPPORTED_PARAMETER}
      | PyError k \<Rightarrow> False)"

lemma client_error_simps [simp]:
  "client_error ss (err INVALID_REQUEST m st) \<longleftrightarrow> st \<in> set ss"
  "client_error ss (err_text INVALID_REQUEST t st p) \<longleftrightarrow> st \<in> set ss"
  "client_error ss (err_text UNSUPPORTED_PARAMETER t st p) \<longleftrightarrow> st \<in> set ss"
  by (simp_all add: client_error_def err_def err_text_def mk_domain_error_def)

lemma decode_object_error: "decode_object l raw = Inl e \<Longrightarrow> client_error [400] e"
  by (auto simp: decode_object_def split: option.splits json.splits)

lemma field_errors:
  "require_non_empty_str payload f = Inl e \<Longrightarrow> client_error [400] e"
  "reject_unsupported_field payload f = Inl e \<Longrightarrow> client_error [400] e"
  "check_messages payload = Inl e \<Longrightarrow> client_error [400] e"
  "check_store payload = Inl e \<Longrightarrow> client_error [400] e"
  "check_input payload = Inl e \<Longrightarrow> client_error [400] e"
  "opt_str payload f = Inl e \<Longrightarrow> client_error [400] e"
  "check_max_tokens payload = Inl e \<Longrightarrow> client_error [400] e"
  "check_system payload = Inl e \<Longrightarrow> client_error [400] e"
  by (auto simp: require_non_empty_str_def reject_unsupported_field_def check_messages_def check_store_def
      check_input_def opt_str_def check_max_tokens_def check_system_def bindr_Inl_iff Let_def
      split: json.splits if_splits)




end
