(* ===== verification/System_One.thy ===== *)
theory System_One
  imports Requests
begin

text \<open>
  The decision protocol \<open>app/protocols/systemone.py\<close>: validation of the typed questions of a
  request, and of the human answers that are rendered from the final text of the reply.
  Floats are decimal numerals, so \<open>float(i)\<close> of an int is the numeral of its value while it
  has at most 15 digits, which the range checks of the answers enforce before it is rendered;
  \<open>float\<close> raises \<open>OverflowError\<close> on an int that rounds beyond the largest double.
\<close>

section \<open>Requests\<close>

definition so_fail :: "ustr \<Rightarrow> exn" where
  "so_fail m = err_text INVALID_REQUEST m 422 None"

definition bad_answer :: "ustr \<Rightarrow> exn" where
  "bad_answer m = err_text UPSTREAM_ERROR m 500 None"

definition question_label :: "ustr \<Rightarrow> string \<Rightarrow> ustr" where
  "question_label qid rest = u ''questions.'' @ qid @ u rest"

definition answer_label :: "ustr \<Rightarrow> string \<Rightarrow> ustr" where
  "answer_label qid rest = u ''answers.'' @ qid @ u rest"

definition structured :: "json \<Rightarrow> bool" where
  "structured v \<longleftrightarrow> is_str v \<or> is_obj v \<or> is_list v"

definition require_state :: "obj \<Rightarrow> json result" where
  "require_state payload =
     (let state = oget payload ''state''
      in if \<not> ohas payload ''state'' \<or> state = JNull then Inl (so_fail (u ''state is required''))
         else if \<not> structured state then Inl (so_fail (u ''state must be a string, object or array''))
         else case state of
                JStr s \<Rightarrow> if blank s then Inl (so_fail (u ''state must not be blank'')) else Inr state
              | _ \<Rightarrow> Inr state)"

definition validate_noul_criteria :: "ustr \<Rightarrow> json \<Rightarrow> unit result" where
  "validate_noul_criteria qid criteria =
     (case criteria of
        JNull \<Rightarrow> Inr ()
      | JObj d \<Rightarrow> raise_if (\<not> list_all (\<lambda>k. k \<in> {u ''true'', u ''false''}) (okeys d))
                   (so_fail (question_label qid ''.criteria allows only true / false''))
      | _ \<Rightarrow> Inl (so_fail (question_label qid ''.criteria (noul) must be an object'')))"

definition validate_noul :: "ustr \<Rightarrow> obj \<Rightarrow> json \<Rightarrow> unit result" where
  "validate_noul qid question criteria =
     bindr (validate_noul_criteria qid criteria) (\<lambda>_.
       raise_if (criteria = JNull \<and> oget question ''instructions'' = JNull)
         (so_fail (question_label qid '' (noul) needs criteria or instructions'')))"

definition validate_choice_criteria :: "ustr \<Rightarrow> obj \<Rightarrow> json \<Rightarrow> unit result" where
  "validate_choice_criteria qid question criteria =
     (let not_object = Inl (so_fail (question_label qid ''.criteria (choice) must be a non-empty object''))
      in case criteria of
           JObj d \<Rightarrow>
             (if d = [] then not_object
              else if length d < 2 \<or> length d > 255
              then Inl (so_fail (question_label qid ''.criteria must have 2-255 options''))
              else raise_if (\<not> list_all (\<lambda>k. \<not> blank k) (okeys d))
                     (so_fail (question_label qid ''.criteria options must be non-empty strings'')))
         | _ \<Rightarrow> not_object)"

definition validate_score_criteria :: "ustr \<Rightarrow> obj \<Rightarrow> json \<Rightarrow> unit result" where
  "validate_score_criteria qid question criteria =
     (let not_array = Inl (so_fail (question_label qid ''.criteria (score) must be a non-empty array''))
      in case criteria of
           JList xs \<Rightarrow>
             (if xs = [] then not_array
              else raise_if (length xs < 2 \<or> length xs > 10)
                     (so_fail (question_label qid ''.criteria must have 2-10 levels'')))
         | _ \<Rightarrow> not_array)"

definition question_types :: "json list" where
  "question_types = [S ''noul'', S ''choice'', S ''score'']"

definition validate_question :: "ustr \<Rightarrow> json \<Rightarrow> unit result" where
  "validate_question qid q =
     (case q of
        JObj question \<Rightarrow>
          (let qtype = oget question ''type''; instructions = oget question ''instructions'';
               criteria = oget question ''criteria''
           in bindr (in_set qtype question_types) (\<lambda>known.
              if \<not> known then Inl (so_fail (question_label qid ''.type must be noul / choice / score''))
              else if instructions \<noteq> JNull \<and> \<not> structured instructions
              then Inl (so_fail (question_label qid ''.instructions must be a string, object or array''))
              else if qtype \<in> {S ''choice'', S ''score''} \<and> criteria = JNull
              then Inl (so_fail (question_label qid ''.criteria is required''))
              else if qtype = S ''noul'' then validate_noul qid question criteria
              else if qtype = S ''choice'' then validate_choice_criteria qid question criteria
              else validate_score_criteria qid question criteria))
      | _ \<Rightarrow> Inl (so_fail (question_label qid '' must be an object'')))"

fun validate_each :: "obj \<Rightarrow> unit result" where
  "validate_each [] = Inr ()"
| "validate_each ((qid, q) # qs) =
     (if blank qid then Inl (so_fail (u ''the keys of questions must be non-empty strings''))
      else bindr (validate_question qid q) (\<lambda>_. validate_each qs))"

definition validate_questions :: "obj \<Rightarrow> obj result" where
  "validate_questions payload =
     (let not_map = Inl (so_fail (u ''questions must be a non-empty object''))
      in case oget payload ''questions'' of
           JObj qs \<Rightarrow> if qs = [] then not_map else bindr (validate_each qs) (\<lambda>_. Inr qs)
         | _ \<Rightarrow> not_map)"

record systemone_request =
  so_model :: ustr
  so_state :: json
  so_questions :: obj
  so_instructions :: json
  so_raw :: obj

definition systemone_request :: "obj \<Rightarrow> systemone_request result" where
  "systemone_request payload =
     (case oget payload ''model'' of
        JStr model \<Rightarrow>
          (if blank model then Inl (so_fail (u ''model must be a non-empty string''))
           else
             bindr (require_state payload) (\<lambda>state.
             bindr (validate_questions payload) (\<lambda>questions.
             (let instructions = oget payload ''instructions''
              in if instructions \<noteq> JNull \<and> \<not> structured instructions
                 then Inl (so_fail (u ''instructions must be a string, object or array''))
                 else Inr \<lparr>so_model = model, so_state = state, so_questions = questions,
                        so_instructions = instructions, so_raw = payload\<rparr>))))
      | _ \<Rightarrow> Inl (so_fail (u ''model must be a non-empty string'')))"

definition systemone_normalized :: "systemone_request \<Rightarrow> obj" where
  "systemone_normalized r =
     [(u ''context'', JList [JObj [(u ''role'', S ''state''), (u ''state'', so_state r)]]),
      (u ''instructions'', (if is_str (so_instructions r) then so_instructions r else JNull)),
      (u ''tools'', JNull), (u ''tool_choice'', JNull), (u ''options'', JObj []),
      (u ''state'', so_state r), (u ''questions'', JObj (so_questions r)), (u ''stream'', JBool False)]"

definition parse_systemone :: "ustr \<Rightarrow> systemone_request result" where
  "parse_systemone raw = bindr (decode_object ''jev body'' raw) systemone_request"

section \<open>Answers\<close>

text \<open>\<open>enumerate\<close> of the levels: the legend text of each.\<close>

definition legend_text :: "json \<Rightarrow> json" where
  "legend_text level =
     (case level of
        JStr s \<Rightarrow> JStr s
      | JObj d \<Rightarrow> JStr (py_str (or_else (oget d ''description'')
                   (or_else (oget d ''label'') (JStr (dumps level)))))
      | _ \<Rightarrow> JStr (py_str level))"

fun legend_from :: "nat \<Rightarrow> json list \<Rightarrow> obj" where
  "legend_from i [] = []"
| "legend_from i (x # xs) = (nat_digits i, legend_text x) # legend_from (Suc i) xs"

definition score_legend :: "json \<Rightarrow> obj" where
  "score_legend criteria = (case criteria of JList xs \<Rightarrow> legend_from 0 xs | _ \<Rightarrow> [])"

text \<open>\<open>float(i)\<close>, with the trailing zeros of the numeral in the exponent as \<open>loads\<close> has them.\<close>

definition float_of_int :: "int \<Rightarrow> pyfloat result" where
  "float_of_int i =
     (if abs i \<ge> 2 ^ 1024 - 2 ^ 970 then Inl (PyError OverflowError)
      else Inr (make_float (i < 0) (nat (abs i)) 0))"

definition to_float :: "json \<Rightarrow> pyfloat result" where
  "to_float v = (case v of JInt i \<Rightarrow> float_of_int i | JFloat f \<Rightarrow> Inr f | _ \<Rightarrow> Inl (PyError TypeError))"

definition normalize_unit :: "json \<Rightarrow> json result" where
  "normalize_unit v =
     (if \<not> is_number v then Inl (bad_answer (u ''probability and confidence must be numbers''))
      else bindr (to_float v) (\<lambda>f.
        if \<not> number_in (JFloat f) 1 then Inl (bad_answer (u ''probability and confidence must be in 0-1''))
        else Inr (JFloat f)))"

fun normalize_entries :: "ustr \<Rightarrow> ustr list option \<Rightarrow> obj \<Rightarrow> obj result" where
  "normalize_entries qid allowed [] = Inr []"
| "normalize_entries qid allowed ((k, v) # d) =
     (if (case allowed of None \<Rightarrow> False | Some ks \<Rightarrow> k \<notin> set ks)
      then Inl (bad_answer (answer_label qid ''.probabilities has an unknown option''))
      else bindr (normalize_unit v) (\<lambda>x.
        bindr (normalize_entries qid allowed d) (\<lambda>d'. Inr ((k, x) # d'))))"

definition normalize_probabilities ::
  "ustr \<Rightarrow> obj \<Rightarrow> ustr list option \<Rightarrow> obj \<Rightarrow> json result" where
  "normalize_probabilities qid answer allowed fallback =
     (let not_object = Inl (bad_answer (answer_label qid ''.probabilities must be a non-empty object''))
      in case oget answer ''probabilities'' of
           JNull \<Rightarrow> Inr (JObj fallback)
         | JObj d \<Rightarrow> if d = [] then not_object
                     else bindr (normalize_entries qid allowed d) (\<lambda>d'. Inr (JObj d'))
         | _ \<Rightarrow> not_object)"

definition one_float :: json where
  "one_float = JFloat (Dec False 1 0)"

definition normalize_confidence :: "obj \<Rightarrow> json result" where
  "normalize_confidence answer =
     (let confidence = oget answer ''confidence''
      in if confidence \<noteq> JNull then normalize_unit confidence else Inr one_float)"

definition normalize_noul :: "ustr \<Rightarrow> obj \<Rightarrow> obj result" where
  "normalize_noul qid answer =
     bindr (normalize_unit (oget answer ''noul'')) (\<lambda>x. Inr [(u ''type'', S ''noul''), (u ''noul'', x)])"

definition normalize_choice :: "ustr \<Rightarrow> obj \<Rightarrow> obj \<Rightarrow> obj result" where
  "normalize_choice qid question answer =
     (let options = (case oget question ''criteria'' of JObj d \<Rightarrow> okeys d | _ \<Rightarrow> []);
          not_option = Inl (bad_answer (answer_label qid ''.choice is not an option''))
      in case oget answer ''choice'' of
           JStr choice \<Rightarrow>
             (if choice \<notin> set options then not_option
              else
                bindr (normalize_probabilities qid answer (Some options) [(choice, one_float)]) (\<lambda>p.
                bindr (normalize_confidence answer) (\<lambda>c.
                Inr [(u ''type'', S ''choice''), (u ''choice'', JStr choice), (u ''probabilities'', p),
                     (u ''confidence'', c)])))
         | _ \<Rightarrow> not_option)"

text \<open>\<open>round(x)\<close> of a float in range: to the nearest integer, ties to the even one.\<close>

definition round_half_even :: "int \<Rightarrow> int \<Rightarrow> int" where
  "round_half_even a b =
     (let q = a div b; r = a mod b
      in if 2 * r < b then q else if 2 * r > b then q + 1 else if even q then q else q + 1)"

fun round_float :: "pyfloat \<Rightarrow> int" where
  "round_float (Dec neg m e) =
     (let k = (if neg then - int m else int m)
      in if e \<ge> 0 then k * 10 ^ nat e else round_half_even k (10 ^ nat (- e)))"
| "round_float _ = 0"

definition normalize_score :: "ustr \<Rightarrow> obj \<Rightarrow> obj \<Rightarrow> obj result" where
  "normalize_score qid question answer =
     (let score = oget answer ''score''; criteria = oget question ''criteria'';
          max_level = (case criteria of JList xs \<Rightarrow> int (length xs) - 1 | _ \<Rightarrow> 0)
      in if \<not> is_number score then Inl (bad_answer (answer_label qid ''.score must be a number''))
         else bindr (to_float score) (\<lambda>f.
           if \<not> number_in (JFloat f) max_level
           then Inl (bad_answer (answer_label qid ''.score is out of range''))
           else
             bindr (case oget answer ''legend'' of
                      JNull \<Rightarrow> Inr (score_legend criteria)
                    | JObj d \<Rightarrow> Inr d
                    | _ \<Rightarrow> Inl (bad_answer (answer_label qid ''.legend must be an object''))) (\<lambda>legend.
             bindr (normalize_probabilities qid answer None [(int_str (round_float f), one_float)]) (\<lambda>p.
             bindr (normalize_confidence answer) (\<lambda>c.
             Inr [(u ''type'', S ''score''), (u ''score'', JFloat f), (u ''legend'', JObj legend),
                  (u ''probabilities'', p), (u ''confidence'', c)])))))"

definition normalize_answer :: "ustr \<Rightarrow> obj \<Rightarrow> json \<Rightarrow> obj result" where
  "normalize_answer qid question answer =
     (let qtype = oget question ''type''
      in case answer of
           JObj d \<Rightarrow>
             (if oget d ''type'' \<noteq> qtype
              then Inl (bad_answer (answer_label qid ''.type differs from the question''))
              else if qtype = S ''noul'' then normalize_noul qid d
              else if qtype = S ''choice'' then normalize_choice qid question d
              else normalize_score qid question d)
         | _ \<Rightarrow> Inl (bad_answer (answer_label qid '' must be an object'')))"

definition question_of :: "json \<Rightarrow> obj" where
  "question_of q = (case q of JObj d \<Rightarrow> d | _ \<Rightarrow> [])"

definition get_key :: "obj \<Rightarrow> ustr \<Rightarrow> json" where
  "get_key d k = (case map_of d k of None \<Rightarrow> JNull | Some v \<Rightarrow> v)"

fun normalize_answers :: "obj \<Rightarrow> obj \<Rightarrow> obj result" where
  "normalize_answers answers [] = Inr []"
| "normalize_answers answers ((qid, q) # qs) =
     bindr (normalize_answer qid (question_of q) (get_key answers qid)) (\<lambda>a.
     bindr (normalize_answers answers qs) (\<lambda>rest. Inr ((qid, JObj a) # rest)))"

definition parse_answers :: "reply_draft \<Rightarrow> obj \<Rightarrow> obj result" where
  "parse_answers draft questions =
     (let text = (case rd_final_text draft of None \<Rightarrow> [] | Some t \<Rightarrow> strip t)
      in if text = [] then Inl (bad_answer (u ''the reply has no jev answers''))
         else
           (case loads text of
              None \<Rightarrow> Inl (bad_answer (u ''the reply is not valid jev answer JSON''))
            | Some payload \<Rightarrow>
                (case (case payload of JObj d \<Rightarrow> oget d ''answers'' | _ \<Rightarrow> JNull) of
                   JObj answers \<Rightarrow>
                     (if set (okeys answers) \<noteq> set (okeys questions)
                      then Inl (bad_answer (u ''the keys of answers must be the keys of questions''))
                      else normalize_answers answers questions)
                 | _ \<Rightarrow> Inl (bad_answer (u ''the reply has no answers object'')))))"

definition render_systemone :: "ustr \<Rightarrow> reply_draft \<Rightarrow> obj \<Rightarrow> obj \<Rightarrow> obj result" where
  "render_systemone model draft questions usage =
     bindr (parse_answers draft questions) (\<lambda>answers.
       Inr [(u ''model'', JStr model), (u ''answers'', JObj answers),
            (u ''usage'', JObj
               [(u ''input_tokens'', (if ohas usage ''input_tokens'' then oget usage ''input_tokens'' else JInt 0)),
                (u ''output_tokens'', (if ohas usage ''output_tokens'' then oget usage ''output_tokens'' else JInt 0))])])"

section \<open>What the validation guarantees\<close>

definition unit_value :: "json \<Rightarrow> bool" where
  "unit_value v \<longleftrightarrow> (case v of JFloat f \<Rightarrow> number_in v 1 | _ \<Rightarrow> False)"

definition unit_values :: "json \<Rightarrow> bool" where
  "unit_values v \<longleftrightarrow> (case v of JObj d \<Rightarrow> list_all (\<lambda>(k, x). unit_value x) d | _ \<Rightarrow> False)"

definition keys_of :: "json \<Rightarrow> ustr set" where
  "keys_of v = set (okeys (question_of v))"

text \<open>
  The contract of an answer against its question: the same type; a noul, a confidence and every
  probability in [0, 1]; a choice and the keys of its probabilities among the options; a score
  among the levels.
\<close>

definition answer_ok :: "obj \<Rightarrow> obj \<Rightarrow> bool" where
  "answer_ok question a \<longleftrightarrow> oget a ''type'' = oget question ''type'' \<and>
     (oget question ''type'' = S ''noul'' \<longrightarrow> unit_value (oget a ''noul'')) \<and>
     (oget question ''type'' = S ''choice'' \<longrightarrow>
        (\<exists>c. oget a ''choice'' = JStr c \<and> c \<in> keys_of (oget question ''criteria'')) \<and>
        keys_of (oget a ''probabilities'') \<subseteq> keys_of (oget question ''criteria'') \<and>
        unit_values (oget a ''probabilities'') \<and> unit_value (oget a ''confidence'')) \<and>
     (oget question ''type'' = S ''score'' \<longrightarrow>
        (\<exists>xs. oget question ''criteria'' = JList xs \<and> number_in (oget a ''score'') (int (length xs) - 1)) \<and>
        unit_values (oget a ''probabilities'') \<and> unit_value (oget a ''confidence''))"

lemma unit_value_one [simp]: "unit_value one_float"
  by (simp add: unit_value_def one_float_def)

lemma normalize_unit_ok: "normalize_unit v = Inr x \<Longrightarrow> unit_value x"
  by (auto simp: normalize_unit_def bindr_Inr_iff unit_value_def split: if_splits)

lemma normalize_entries_ok:
  "normalize_entries qid allowed d = Inr d' \<Longrightarrow>
     list_all (\<lambda>(k, x). unit_value x) d' \<and>
     (\<forall>ks. allowed = Some ks \<longrightarrow> (\<forall>k \<in> set (okeys d'). k \<in> set ks))"
proof (induction d arbitrary: d')
  case (Cons kv d)
  obtain k v where "kv = (k, v)" by (cases kv)
  with Cons show ?case
    by (auto simp: bindr_Inr_iff okeys_def split: if_splits option.splits dest!: normalize_unit_ok)
qed (simp add: okeys_def)

lemma normalize_probabilities_ok:
  assumes "normalize_probabilities qid answer allowed fallback = Inr v"
    "list_all (\<lambda>(k, x). unit_value x) fallback"
    "\<forall>ks. allowed = Some ks \<longrightarrow> (\<forall>k \<in> set (okeys fallback). k \<in> set ks)"
  shows "unit_values v \<and> (\<forall>ks. allowed = Some ks \<longrightarrow> (\<forall>k \<in> keys_of v. k \<in> set ks))"
  using assms
  by (auto simp: normalize_probabilities_def unit_values_def keys_of_def question_of_def bindr_Inr_iff Let_def
      split: json.splits if_splits dest: normalize_entries_ok)

lemma normalize_confidence_ok: "normalize_confidence answer = Inr c \<Longrightarrow> unit_value c"
  by (auto simp: normalize_confidence_def Let_def dest: normalize_unit_ok split: if_splits)

lemma normalize_choice_ok:
  assumes "normalize_choice qid question d = Inr a" "oget question ''type'' = S ''choice''"
  shows "answer_ok question a"
proof -
  let ?options = "case oget question ''criteria'' of JObj d \<Rightarrow> okeys d | _ \<Rightarrow> []"
  obtain c p k where c: "c \<in> set ?options"
    and p: "normalize_probabilities qid d (Some ?options) [(c, one_float)] = Inr p"
    and k: "normalize_confidence d = Inr k"
    and a: "a = [(u ''type'', S ''choice''), (u ''choice'', JStr c), (u ''probabilities'', p), (u ''confidence'', k)]"
    using assms(1) by (auto simp: normalize_choice_def Let_def bindr_Inr_iff split: json.splits if_splits)
  have o: "set ?options = keys_of (oget question ''criteria'')"
    by (auto simp: keys_of_def question_of_def okeys_def split: json.splits)
  have "unit_values p \<and> keys_of p \<subseteq> set ?options"
    using normalize_probabilities_ok [OF p] c by (auto simp: okeys_def)
  with c o k assms(2) show ?thesis by (simp add: answer_ok_def a normalize_confidence_ok)
qed

lemma normalize_score_ok:
  assumes "normalize_score qid question d = Inr a" "oget question ''type'' = S ''score''"
    "oget question ''criteria'' = JList xs"
  shows "answer_ok question a"
proof -
  obtain f l p k where f: "number_in (JFloat f) (int (length xs) - 1)"
    and p: "normalize_probabilities qid d None [(int_str (round_float f), one_float)] = Inr p"
    and k: "normalize_confidence d = Inr k"
    and a: "a = [(u ''type'', S ''score''), (u ''score'', JFloat f), (u ''legend'', JObj l),
        (u ''probabilities'', p), (u ''confidence'', k)]"
    using assms(1,3) by (auto simp: normalize_score_def Let_def bindr_Inr_iff split: if_splits)
  have "unit_values p" using normalize_probabilities_ok [OF p] by simp
  with f k assms show ?thesis by (simp add: answer_ok_def a normalize_confidence_ok)
qed

definition question_ok :: "json \<Rightarrow> bool" where
  "question_ok q \<longleftrightarrow> is_obj q \<and> oget (question_of q) ''type'' \<in> set question_types \<and>
     (oget (question_of q) ''type'' = S ''score'' \<longrightarrow> is_list (oget (question_of q) ''criteria''))"

lemma normalize_answer_ok:
  assumes "normalize_answer qid (question_of q) v = Inr a" "question_ok q"
  shows "answer_ok (question_of q) a"
proof -
  obtain d where d: "v = JObj d" "oget d ''type'' = oget (question_of q) ''type''"
    using assms(1) by (auto simp: normalize_answer_def Let_def split: json.splits if_splits)
  consider "oget (question_of q) ''type'' = S ''noul''" | "oget (question_of q) ''type'' = S ''choice''"
    | xs where "oget (question_of q) ''type'' = S ''score''" "oget (question_of q) ''criteria'' = JList xs"
    using assms(2) by (cases "oget (question_of q) ''criteria''") (auto simp: question_ok_def question_types_def)
  then show ?thesis
  proof cases
    case 1
    then show ?thesis
      using assms(1) d
      by (auto simp: normalize_answer_def Let_def normalize_noul_def bindr_Inr_iff answer_ok_def dest: normalize_unit_ok)
  next
    case 2
    with assms(1) d show ?thesis by (auto simp: normalize_answer_def Let_def intro: normalize_choice_ok)
  next
    case 3
    with assms(1) d show ?thesis by (auto simp: normalize_answer_def Let_def intro: normalize_score_ok)
  qed
qed

lemma validate_question_ok: "validate_question qid q = Inr () \<Longrightarrow> question_ok q"
  by (auto simp: validate_question_def question_ok_def question_of_def bindr_Inr_iff Let_def question_types_def
      validate_score_criteria_def in_set_def split: json.splits if_splits)

lemma validate_each_ok: "validate_each qs = Inr () \<Longrightarrow> list_all (\<lambda>(qid, q). \<not> blank qid \<and> question_ok q) qs"
  by (induction qs rule: validate_each.induct) (auto simp: bindr_Inr_iff validate_question_ok split: if_splits)

lemma normalize_answers_ok:
  assumes "normalize_answers answers qs = Inr out" "list_all (\<lambda>(qid, q). question_ok q) qs"
  shows "list_all2 (\<lambda>(qid, q) (aid, a). aid = qid \<and> answer_ok (question_of q) (question_of a)) qs out"
  using assms
proof (induction answers qs arbitrary: out rule: normalize_answers.induct)
  case (2 answers qid q qs)
  then show ?case
    by (auto simp: bindr_Inr_iff question_of_def [of "JObj _"] dest: normalize_answer_ok)
qed simp

text \<open>
  C15. A decision that is rendered is a decision that was asked for: if the questions of the
  request were accepted and the human's text is rendered, then the answers are those of the
  questions, in their order, and each one satisfies the contract of its question.
\<close>

theorem rendered_answers_are_valid:
  assumes "validate_questions payload = Inr questions" "parse_answers draft questions = Inr answers"
  shows "map fst answers = map fst questions \<and>
     list_all2 (\<lambda>(qid, q) (aid, a). aid = qid \<and> answer_ok (question_of q) (question_of a)) questions answers"
proof -
  have "validate_each questions = Inr ()"
    using assms(1) by (auto simp: validate_questions_def Let_def bindr_Inr_iff split: json.splits if_splits)
  then have ok: "list_all (\<lambda>(qid, q). question_ok q) questions"
    by (auto simp: list_all_iff dest!: validate_each_ok)
  obtain ans where "normalize_answers ans questions = Inr answers"
    using assms(2) by (auto simp: parse_answers_def Let_def split: option.splits json.splits if_splits)
  then have l: "list_all2 (\<lambda>(qid, q) (aid, a). aid = qid \<and> answer_ok (question_of q) (question_of a)) questions answers"
    using ok by (rule normalize_answers_ok)
  then have "map fst answers = map fst questions"
    by (induction rule: list_all2_induct) auto
  with l show ?thesis by simp
qed

text \<open>
  What the constructor refuses: every refusal of a decision request is the domain error
  \<open>invalid_request\<close> with status 400 (not a JSON object) or 422, except that a question whose
  type is a list or an object raises \<open>TypeError\<close>.
\<close>

theorem systemone_refusals:
  assumes "parse_systemone raw = Inl e"
  shows "client_error [400, 422] e \<or> e = PyError TypeError"
proof -
  have sf: "client_error [400, 422] (so_fail m)" for m by (simp add: so_fail_def)
  have st: "require_state p = Inl e \<Longrightarrow> client_error [400, 422] e" for p
    by (auto simp: require_state_def Let_def sf split: json.splits if_splits)
  have q: "validate_question qid v = Inl e \<Longrightarrow> client_error [400, 422] e \<or> e = PyError TypeError" for qid v
    by (auto simp: validate_question_def validate_noul_def validate_noul_criteria_def in_set_def
        validate_choice_criteria_def validate_score_criteria_def bindr_Inl_iff Let_def sf
        split: json.splits if_splits)
  have each: "validate_each qs = Inl e \<Longrightarrow> client_error [400, 422] e \<or> e = PyError TypeError" for qs
    by (induction qs rule: validate_each.induct) (auto simp: bindr_Inl_iff sf dest: q split: if_splits)
  have qs: "validate_questions p = Inl e \<Longrightarrow> client_error [400, 422] e \<or> e = PyError TypeError" for p
    by (auto simp: validate_questions_def Let_def bindr_Inl_iff sf dest: each split: json.splits if_splits)
  have d: "decode_object l raw = Inl e \<Longrightarrow> client_error [400, 422] e" for l
    using decode_object_error [of l raw e] by (auto simp: client_error_def split: exn.splits)
  have r: "systemone_request p = Inl e \<Longrightarrow> client_error [400, 422] e \<or> e = PyError TypeError" for p
  proof (cases "oget p ''model''")
    case (JStr model)
    assume "systemone_request p = Inl e"
    with JStr show ?thesis
      by (auto simp: systemone_request_def bindr_Inl_iff Let_def sf dest: st qs split: if_splits)
  qed (auto simp: systemone_request_def sf)
  show ?thesis
    using assms by (auto simp: parse_systemone_def bindr_Inl_iff dest: d r)
qed

definition sample_questions :: obj where
  "sample_questions = [(u ''q'', JObj [(u ''type'', S ''noul''), (u ''instructions'', S ''?'')])]"

lemma sample_questions_ok:
  "validate_questions [(u ''questions'', JObj sample_questions)] = Inr sample_questions"
  by (simp add: validate_questions_def sample_questions_def blank_def strip_def lstrip_def rstrip_def
      py_space_def validate_question_def question_types_def structured_def validate_noul_def
      validate_noul_criteria_def) (simp add: u_def py_space_def)

theorem systemone_refusals_witness:
  "client_error [400, 422] (err_text INVALID_REQUEST (u ''jev body'' @ u '' is not valid JSON'') 400 None)"
proof -
  have "parse_systemone [] = Inl (err_text INVALID_REQUEST (u ''jev body'' @ u '' is not valid JSON'') 400 None)"
    by (simp add: parse_systemone_def decode_object_def loads_def skip_ws_def)
  from systemone_refusals [OF this] show ?thesis by simp
qed

definition sample_answers :: json where
  "sample_answers = JObj [(u ''answers'', JObj [(u ''q'', JObj [(u ''type'', S ''noul''), (u ''noul'', JInt 1)])])]"

definition sample_decision :: reply_draft where
  "sample_decision = \<lparr>rd_reasoning = None, rd_tool_calls = [], rd_final_text = Some (dumps sample_answers)\<rparr>"

lemma sample_parse:
  "parse_answers sample_decision sample_questions =
     Inr [(u ''q'', JObj [(u ''type'', S ''noul''), (u ''noul'', JFloat (Dec False 1 0))])]"
proof -
  have strip: "strip (dumps sample_answers) = dumps sample_answers"
    by (simp add: sample_answers_def dumps_def quote_def escape_char_def strip_def lstrip_def rstrip_def u_def
        int_str_def nat_digits.simps py_space_def)
  have ne: "dumps sample_answers \<noteq> []" by (simp add: sample_answers_def dumps_def)
  have l: "loads (dumps sample_answers) = Some sample_answers"
    by (rule loads_dumps) (simp add: sample_answers_def int_ok_def int_str_def nat_digits.simps)
  have f: "float_of_int 1 = Inr (Dec False 1 0)"
    by (simp add: float_of_int_def make_float_def canon.simps)
  have a: "normalize_answer (u ''q'') [(u ''type'', S ''noul''), (u ''instructions'', S ''?'')]
      (JObj [(u ''type'', S ''noul''), (u ''noul'', JInt 1)]) =
    Inr [(u ''type'', S ''noul''), (u ''noul'', JFloat (Dec False 1 0))]"
    by (simp add: normalize_answer_def normalize_noul_def normalize_unit_def to_float_def f)
  show ?thesis
    using strip ne l a
    by (simp add: parse_answers_def sample_decision_def)
      (simp add: sample_answers_def sample_questions_def okeys_def question_of_def get_key_def)
qed

theorem rendered_answers_are_valid_witness:
  "answer_ok [(u ''type'', S ''noul''), (u ''instructions'', S ''?'')]
     [(u ''type'', S ''noul''), (u ''noul'', JFloat (Dec False 1 0))]"
  using rendered_answers_are_valid [OF sample_questions_ok sample_parse]
  by (simp add: sample_questions_def question_of_def)

end
