(* ===== verification/Renderers.thy ===== *)
theory Renderers
  imports Requests
begin

text \<open>
  The response side of the three conversation protocols: a reply draft as the body of a
  response or as the events of a stream (\<open>chat_completions.py\<close>, \<open>responses.py\<close>,
  \<open>anthropic.py\<close> under \<open>app/protocols/\<close>). The identifiers drawn from \<open>secrets\<close> and the
  clock are arguments; \<open>usage\<close> is the dictionary of token counts, empty for \<open>None\<close>.
\<close>

text \<open>A server-sent event: its name, if any, and its data.\<close>

datatype sse = Sse "string option" ustr

text \<open>\<open>text[i : i + 200] for i in range(0, len(text), 200)\<close>, and with \<open>max(len(text), 1)\<close>.\<close>

function slices :: "nat \<Rightarrow> ustr \<Rightarrow> ustr list" where
  "slices n s = (if s = [] \<or> n = 0 then [] else take n s # slices n (drop n s))"
  by pat_completeness auto
termination by (relation "measure (\<lambda>(n, s). length s)") auto

declare slices.simps [simp del]

definition slices1 :: "nat \<Rightarrow> ustr \<Rightarrow> ustr list" where
  "slices1 n s = (if s = [] then [[]] else slices n s)"

lemma concat_slices: "0 < n \<Longrightarrow> concat (slices n s) = s"
  by (induction n s rule: slices.induct) (subst slices.simps, simp)

lemma concat_slices1 [simp]: "0 < n \<Longrightarrow> concat (slices1 n s) = s"
  by (simp add: slices1_def concat_slices)

lemma slices_short: "\<forall>x \<in> set (slices n s). length x \<le> n \<and> x \<noteq> []"
  by (induction n s rule: slices.induct) (subst slices.simps, auto)

section \<open>Chat Completions\<close>

definition finish_reason :: "reply_draft \<Rightarrow> string" where
  "finish_reason draft = (if rd_tool_calls draft \<noteq> [] then ''tool_calls'' else ''stop'')"

text \<open>\<open>call.id or f"call_{secrets.token_hex(12)}"\<close>; \<open>rnd\<close> gives the token of each position.\<close>

definition id_or :: "ustr \<Rightarrow> string \<Rightarrow> ustr \<Rightarrow> ustr" where
  "id_or i prefix tok = (if i \<noteq> [] then i else u prefix @ tok)"

definition chat_tool_call :: "(nat \<Rightarrow> ustr) \<Rightarrow> nat \<times> reply_tool_call \<Rightarrow> json" where
  "chat_tool_call rnd p =
     JObj [(u ''id'', JStr (id_or (rtc_id (snd p)) ''call_'' (rnd (fst p)))), (u ''type'', S ''function''),
       (u ''function'', JObj [(u ''name'', JStr (rtc_name (snd p))),
          (u ''arguments'', JStr (dumps (JObj (rtc_arguments (snd p)))))])]"

definition chat_message :: "(nat \<Rightarrow> ustr) \<Rightarrow> reply_draft \<Rightarrow> obj" where
  "chat_message rnd draft =
     (let tool_calls = map (chat_tool_call rnd) (enumerate 0 (rd_tool_calls draft))
      in [(u ''role'', S ''assistant''), (u ''content'', json_opt (rd_final_text draft))] @
         (if truthy_text (rd_reasoning draft) then [(u ''reasoning_content'', json_opt (rd_reasoning draft))] else []) @
         (if tool_calls \<noteq> [] then [(u ''tool_calls'', JList tool_calls)] else []))"

definition zero_usage :: "string list \<Rightarrow> obj" where
  "zero_usage ks = map (\<lambda>k. (u k, JInt 0)) ks"

definition chat_render_response :: "(nat \<Rightarrow> ustr) \<Rightarrow> ustr \<Rightarrow> int \<Rightarrow> ustr \<Rightarrow> reply_draft \<Rightarrow> obj \<Rightarrow> obj" where
  "chat_render_response rnd chat_id created model draft usage =
     [(u ''id'', JStr chat_id), (u ''object'', S ''chat.completion''), (u ''created'', JInt created),
      (u ''model'', JStr model),
      (u ''choices'', JList [JObj [(u ''index'', JInt 0), (u ''message'', JObj (chat_message rnd draft)),
         (u ''finish_reason'', S (finish_reason draft))]]),
      (u ''usage'', JObj (if usage \<noteq> [] then usage
         else zero_usage [''prompt_tokens'', ''completion_tokens'', ''total_tokens'']))]"

definition chat_chunk :: "ustr \<Rightarrow> ustr \<Rightarrow> int \<Rightarrow> obj \<times> string option \<Rightarrow> sse" where
  "chat_chunk chat_id model created p =
     Sse None (dumps (JObj [(u ''id'', JStr chat_id), (u ''object'', S ''chat.completion.chunk''),
       (u ''created'', JInt created), (u ''model'', JStr model),
       (u ''choices'', JList [JObj [(u ''index'', JInt 0), (u ''delta'', JObj (fst p)),
          (u ''finish_reason'', (case snd p of None \<Rightarrow> JNull | Some f \<Rightarrow> S f))]])]))"

text \<open>The deltas of the stream in their order, each with its finish reason.\<close>

definition tool_delta_start :: "(nat \<Rightarrow> ustr) \<Rightarrow> nat \<times> reply_tool_call \<Rightarrow> obj" where
  "tool_delta_start rnd p =
     [(u ''tool_calls'', JList [JObj [(u ''index'', JInt (int (fst p))),
        (u ''id'', JStr (id_or (rtc_id (snd p)) ''call_'' (rnd (fst p)))), (u ''type'', S ''function''),
        (u ''function'', JObj [(u ''name'', JStr (rtc_name (snd p))), (u ''arguments'', S '''')])]])]"

definition tool_delta_part :: "nat \<Rightarrow> ustr \<Rightarrow> obj" where
  "tool_delta_part position part =
     [(u ''tool_calls'', JList [JObj [(u ''index'', JInt (int position)),
        (u ''function'', JObj [(u ''arguments'', JStr part)])]])]"

definition tool_deltas :: "(nat \<Rightarrow> ustr) \<Rightarrow> nat \<times> reply_tool_call \<Rightarrow> obj list" where
  "tool_deltas rnd p =
     tool_delta_start rnd p #
     map (tool_delta_part (fst p)) (slices1 200 (dumps (JObj (rtc_arguments (snd p)))))"

definition text_of_opt :: "ustr option \<Rightarrow> ustr" where
  "text_of_opt t = (case t of None \<Rightarrow> [] | Some s \<Rightarrow> s)"

definition chat_deltas :: "(nat \<Rightarrow> ustr) \<Rightarrow> reply_draft \<Rightarrow> (obj \<times> string option) list" where
  "chat_deltas rnd draft =
     map (\<lambda>d. (d, None))
       ([[(u ''role'', S ''assistant'')]] @
        map (\<lambda>part. [(u ''reasoning_content'', JStr part)]) (slices 200 (text_of_opt (rd_reasoning draft))) @
        concat (map (tool_deltas rnd) (enumerate 0 (rd_tool_calls draft))) @
        map (\<lambda>part. [(u ''content'', JStr part)]) (slices 200 (text_of_opt (rd_final_text draft)))) @
     [([], Some (finish_reason draft))]"

definition chat_stream_frames ::
  "(nat \<Rightarrow> ustr) \<Rightarrow> ustr \<Rightarrow> int \<Rightarrow> ustr \<Rightarrow> reply_draft \<Rightarrow> obj \<Rightarrow> bool \<Rightarrow> sse list" where
  "chat_stream_frames rnd chat_id created model draft usage include_usage =
     map (chat_chunk chat_id model created) (chat_deltas rnd draft) @
     (if include_usage \<and> usage \<noteq> [] then
        [Sse None (dumps (JObj [(u ''id'', JStr chat_id), (u ''object'', S ''chat.completion.chunk''),
           (u ''created'', JInt created), (u ''model'', JStr model), (u ''choices'', JList []),
           (u ''usage'', JObj usage)]))]
      else []) @
     [Sse None (u ''[DONE]'')]"

definition chat_stream_error_frame :: "ustr \<Rightarrow> sse" where
  "chat_stream_error_frame message =
     Sse None (dumps (JObj [(u ''error'', JObj [(u ''message'', JStr message), (u ''type'', S ''server_error''),
       (u ''code'', S ''internal_error'')])]))"

section \<open>Responses\<close>

definition message_item :: "string \<Rightarrow> ustr \<Rightarrow> json" where
  "message_item item_id text =
     JObj [(u ''type'', S ''message''), (u ''id'', S item_id), (u ''role'', S ''assistant''),
       (u ''status'', S ''completed''),
       (u ''content'', JList [JObj [(u ''type'', S ''output_text''), (u ''text'', JStr text),
          (u ''annotations'', JList [])]])]"

definition call_item :: "reply_tool_call \<Rightarrow> json" where
  "call_item c =
     JObj [(u ''type'', S ''function_call''), (u ''id'', JStr (u ''fc_'' @ rtc_id c)),
       (u ''call_id'', JStr (rtc_id c)), (u ''name'', JStr (rtc_name c)),
       (u ''arguments'', JStr (dumps (JObj (rtc_arguments c)))), (u ''status'', S ''completed'')]"

definition reasoning_item :: "ustr \<Rightarrow> json" where
  "reasoning_item r =
     JObj [(u ''id'', S ''rs_reasoning''), (u ''type'', S ''reasoning''),
       (u ''summary'', JList [JObj [(u ''type'', S ''summary_text''), (u ''text'', JStr r)]])]"

definition reply_output_items :: "reply_draft \<Rightarrow> json list" where
  "reply_output_items draft =
     (if truthy_text (rd_reasoning draft) then [reasoning_item (the (rd_reasoning draft))] else []) @
     map call_item (rd_tool_calls draft) @
     (if truthy_text (rd_final_text draft) then [message_item ''msg_reply'' (the (rd_final_text draft))] else [])"

definition responses_usage :: "obj \<Rightarrow> json" where
  "responses_usage usage =
     JObj (if usage \<noteq> [] then usage else zero_usage [''input_tokens'', ''output_tokens'', ''total_tokens''])"

text \<open>\<open>response_object\<close> without \<open>sequence_number_start\<close>, which every caller pops.\<close>

definition response_object :: "ustr \<Rightarrow> ustr \<Rightarrow> int \<Rightarrow> reply_draft \<Rightarrow> string \<Rightarrow> obj \<Rightarrow> obj" where
  "response_object model response_id created draft status usage =
     [(u ''id'', JStr response_id), (u ''object'', S ''response''), (u ''created_at'', JInt created),
      (u ''status'', S status), (u ''model'', JStr model),
      (u ''output'', JList (if status = ''completed'' then reply_output_items draft else [])),
      (u ''usage'', responses_usage usage)]"

definition responses_render_response :: "ustr \<Rightarrow> ustr \<Rightarrow> int \<Rightarrow> reply_draft \<Rightarrow> obj \<Rightarrow> obj" where
  "responses_render_response model response_id created draft usage =
     response_object model response_id created draft ''completed'' usage"

text \<open>The events before numbering: the name and the data of each call of \<open>frame\<close>.\<close>

definition part_events :: "nat \<Rightarrow> json \<Rightarrow> nat \<times> json \<Rightarrow> (string \<times> obj) list" where
  "part_events index item_id p =
     (let part_index = fst p; block = (case snd p of JObj d \<Rightarrow> d | _ \<Rightarrow> []);
          text = py_str (or_else (oget block ''text'') (S ''''));
          at = [(u ''item_id'', item_id), (u ''output_index'', JInt (int index)),
                (u ''content_index'', JInt (int part_index))]
      in [(''response.content_part.added'', at @ [(u ''part'', JObj [(u ''type'', S ''output_text''),
             (u ''text'', S ''''), (u ''annotations'', JList [])])])] @
         map (\<lambda>d. (''response.output_text.delta'', at @ [(u ''delta'', JStr d)])) (slices1 200 text) @
         [(''response.output_text.done'', at @ [(u ''text'', JStr text)]),
          (''response.content_part.done'', at @ [(u ''part'',
             JObj (oset block ''annotations'' (or_else (oget block ''annotations'') (JList []))))])])"

definition item_events :: "nat \<times> json \<Rightarrow> (string \<times> obj) list" where
  "item_events p =
     (let index = fst p; item = (case snd p of JObj d \<Rightarrow> d | _ \<Rightarrow> []);
          head = [(u ''output_index'', JInt (int index)), (u ''item'', JObj item)];
          at = [(u ''item_id'', oget item ''id''), (u ''output_index'', JInt (int index))];
          blocks = (case or_else (oget item ''content'') (JList []) of JList bs \<Rightarrow> bs | _ \<Rightarrow> []);
          arguments = py_str (or_else (oget item ''arguments'') (S ''{}''))
      in [(''response.output_item.added'', head)] @
         (if oget item ''type'' = S ''message''
          then concat (map (part_events index (oget item ''id'')) (enumerate 0 blocks))
          else if oget item ''type'' = S ''function_call''
          then map (\<lambda>d. (''response.function_call_arguments.delta'', at @ [(u ''delta'', JStr d)]))
                 (slices1 200 arguments) @
               [(''response.function_call_arguments.done'', at @ [(u ''arguments'', JStr arguments)])]
          else []) @
         [(''response.output_item.done'', head)])"

definition responses_body_events :: "ustr \<Rightarrow> ustr \<Rightarrow> int \<Rightarrow> reply_draft \<Rightarrow> obj \<Rightarrow> (string \<times> obj) list" where
  "responses_body_events model response_id created draft usage =
     (let in_progress = response_object model response_id created draft ''in_progress'' usage
      in [(''response.created'', [(u ''response'', JObj in_progress)]),
          (''response.in_progress'', [(u ''response'', JObj in_progress)])] @
         concat (map item_events (enumerate 0 (reply_output_items draft))))"

text \<open>\<open>frame\<close>: the type and the next sequence number are added to the data.\<close>

definition numbered :: "nat \<times> string \<times> obj \<Rightarrow> sse" where
  "numbered p = (case p of (n, event, data) \<Rightarrow>
     Sse (Some event) (dumps (JObj (data @ [(u ''type'', S event), (u ''sequence_number'', JInt (int n))]))))"

definition responses_stream_events :: "ustr \<Rightarrow> ustr \<Rightarrow> int \<Rightarrow> reply_draft \<Rightarrow> obj \<Rightarrow> sse list" where
  "responses_stream_events model response_id created draft usage =
     (let events = responses_body_events model response_id created draft usage;
          final = response_object model response_id created draft ''completed'' usage @
                    [(u ''sequence_number'', JInt (int (length events) + 1))]
      in map numbered (enumerate 0 (events @ [(''response.completed'', [(u ''response'', JObj final)])])))"

section \<open>Anthropic Messages\<close>

definition tool_use_block :: "(nat \<Rightarrow> ustr) \<Rightarrow> nat \<times> reply_tool_call \<Rightarrow> json" where
  "tool_use_block rnd p =
     JObj [(u ''type'', S ''tool_use''), (u ''id'', JStr (id_or (rtc_id (snd p)) ''toolu_'' (rnd (fst p)))),
       (u ''name'', JStr (rtc_name (snd p))), (u ''input'', JObj (rtc_arguments (snd p)))]"

definition text_block :: "ustr \<Rightarrow> json" where
  "text_block t = JObj [(u ''type'', S ''text''), (u ''text'', JStr t)]"

definition content_blocks :: "(nat \<Rightarrow> ustr) \<Rightarrow> reply_draft \<Rightarrow> json list" where
  "content_blocks rnd draft =
     (let blocks = map (tool_use_block rnd) (enumerate 0 (rd_tool_calls draft))
      in blocks @
         (if truthy_text (rd_final_text draft) then [text_block (the (rd_final_text draft))]
          else if blocks = [] then [text_block []] else []))"

definition stop_reason :: "reply_draft \<Rightarrow> string" where
  "stop_reason draft = (if rd_tool_calls draft \<noteq> [] then ''tool_use'' else ''end_turn'')"

definition usage_or_0 :: "obj \<Rightarrow> string \<Rightarrow> json" where
  "usage_or_0 usage k = (if ohas usage k then oget usage k else JInt 0)"

definition anthropic_render_response :: "(nat \<Rightarrow> ustr) \<Rightarrow> ustr \<Rightarrow> ustr \<Rightarrow> reply_draft \<Rightarrow> obj \<Rightarrow> obj" where
  "anthropic_render_response rnd msg_id model draft usage =
     [(u ''id'', JStr msg_id), (u ''type'', S ''message''), (u ''role'', S ''assistant''),
      (u ''model'', JStr model), (u ''content'', JList (content_blocks rnd draft)),
      (u ''stop_reason'', S (stop_reason draft)), (u ''stop_sequence'', JNull),
      (u ''usage'', JObj [(u ''input_tokens'', usage_or_0 usage ''input_tokens''),
         (u ''output_tokens'', usage_or_0 usage ''output_tokens'')])]"

definition block_events :: "reply_draft \<Rightarrow> nat \<times> json \<Rightarrow> (string \<times> obj) list" where
  "block_events draft p =
     (let index = JInt (int (fst p)); block = (case snd p of JObj d \<Rightarrow> d | _ \<Rightarrow> []);
          tool = (oget block ''type'' = S ''tool_use'');
          start = (if tool then oset block ''input'' (JObj []) else oset block ''text'' (S ''''));
          delta = (\<lambda>d. (''content_block_delta'', [(u ''index'', index), (u ''delta'', JObj d)]))
      in [(''content_block_start'', [(u ''index'', index), (u ''content_block'', JObj start)])] @
         (if tool
          then map (\<lambda>s. delta [(u ''type'', S ''input_json_delta''), (u ''partial_json'', JStr s)])
                 (slices1 200 (dumps (oget block ''input'')))
          else map (\<lambda>s. delta [(u ''type'', S ''text_delta''), (u ''text'', JStr s)])
                 (slices 200 (text_of_opt (rd_final_text draft)))) @
         [(''content_block_stop'', [(u ''index'', index)])])"

definition anthropic_events ::
  "(nat \<Rightarrow> ustr) \<Rightarrow> ustr \<Rightarrow> ustr \<Rightarrow> reply_draft \<Rightarrow> obj \<Rightarrow> (string \<times> obj) list" where
  "anthropic_events rnd msg_id model draft usage =
     [(''message_start'', [(u ''message'', JObj [(u ''id'', JStr msg_id), (u ''type'', S ''message''),
         (u ''role'', S ''assistant''), (u ''model'', JStr model), (u ''content'', JList []),
         (u ''stop_reason'', JNull), (u ''stop_sequence'', JNull),
         (u ''usage'', JObj [(u ''input_tokens'', usage_or_0 usage ''input_tokens''),
            (u ''output_tokens'', JInt 0)])])])] @
     concat (map (block_events draft) (enumerate 0 (content_blocks rnd draft))) @
     [(''message_delta'', [(u ''delta'', JObj [(u ''stop_reason'', S (stop_reason draft)),
          (u ''stop_sequence'', JNull)]),
         (u ''usage'', JObj [(u ''output_tokens'', usage_or_0 usage ''output_tokens'')])]),
      (''message_stop'', [])]"

definition typed_frame :: "string \<times> obj \<Rightarrow> sse" where
  "typed_frame p = Sse (Some (fst p)) (dumps (JObj (snd p @ [(u ''type'', S (fst p))])))"

definition anthropic_stream_events ::
  "(nat \<Rightarrow> ustr) \<Rightarrow> ustr \<Rightarrow> ustr \<Rightarrow> reply_draft \<Rightarrow> obj \<Rightarrow> sse list" where
  "anthropic_stream_events rnd msg_id model draft usage =
     map typed_frame (anthropic_events rnd msg_id model draft usage)"

definition anthropic_stream_error_event :: "ustr \<Rightarrow> sse" where
  "anthropic_stream_error_event message =
     Sse (Some ''error'') (dumps (JObj [(u ''type'', S ''error''),
       (u ''error'', JObj [(u ''type'', S ''api_error''), (u ''message'', JStr message)])]))"

definition responses_stream_error_event :: "ustr \<Rightarrow> ustr \<Rightarrow> ustr \<Rightarrow> sse" where
  "responses_stream_error_event response_id model message =
     Sse (Some ''response.failed'') (dumps (JObj [(u ''type'', S ''response.failed''),
       (u ''response'', JObj [(u ''id'', JStr response_id), (u ''object'', S ''response''),
          (u ''status'', S ''failed''), (u ''model'', JStr model),
          (u ''error'', JObj [(u ''code'', S ''server_error''), (u ''message'', JStr message)])])]))"

section \<open>What a client reads back from a stream\<close>

definition str_of :: "json \<Rightarrow> ustr" where
  "str_of v = (case v of JStr s \<Rightarrow> s | _ \<Rightarrow> [])"

lemma str_of_JStr [simp]: "str_of (JStr s) = s" "str_of JNull = []"
  by (simp_all add: str_of_def)

text \<open>Collecting the pieces that a reader picks from each event.\<close>

definition collect :: "('e \<Rightarrow> ustr) \<Rightarrow> 'e list \<Rightarrow> ustr" where
  "collect f es = concat (map f es)"

lemma collect_simps [simp]:
  "collect f [] = []" "collect f (e # es) = f e @ collect f es"
  "collect f (es @ es') = collect f es @ collect f es'"
  by (simp_all add: collect_def)

lemma collect_none: "(\<And>e. e \<in> set es \<Longrightarrow> f e = []) \<Longrightarrow> collect f es = []"
  by (induction es) auto

lemma collect_map: "collect f (map g xs) = collect (\<lambda>x. f (g x)) xs"
  by (simp add: collect_def comp_def)

lemma collect_id [simp]: "collect (\<lambda>x. x) xs = concat xs"
  by (simp add: collect_def)

lemma collect_concat: "collect f (concat ess) = concat (map (collect f) ess)"
  by (induction ess) simp_all

text \<open>The readers of each protocol: of the final text, of the reasoning, of the arguments of a call.\<close>

definition chat_field :: "string \<Rightarrow> obj \<times> string option \<Rightarrow> ustr" where
  "chat_field k p = str_of (oget (fst p) k)"

definition chat_args :: "nat \<Rightarrow> obj \<times> string option \<Rightarrow> ustr" where
  "chat_args i p =
     (case oget (fst p) ''tool_calls'' of
        JList [JObj c] \<Rightarrow>
          (if oget c ''index'' = JInt (int i) then str_of (oget (obj_of (oget c ''function'')) ''arguments'') else [])
      | _ \<Rightarrow> [])"

definition responses_text :: "string \<times> obj \<Rightarrow> ustr" where
  "responses_text p = (if fst p = ''response.output_text.delta'' then str_of (oget (snd p) ''delta'') else [])"

definition responses_args :: "nat \<Rightarrow> string \<times> obj \<Rightarrow> ustr" where
  "responses_args i p =
     (if fst p = ''response.function_call_arguments.delta'' \<and> oget (snd p) ''output_index'' = JInt (int i)
      then str_of (oget (snd p) ''delta'') else [])"

definition anthropic_field :: "string \<Rightarrow> nat option \<Rightarrow> string \<times> obj \<Rightarrow> ustr" where
  "anthropic_field k i p =
     (if fst p = ''content_block_delta'' \<and>
         (case i of None \<Rightarrow> True | Some n \<Rightarrow> oget (snd p) ''index'' = JInt (int n))
      then str_of (oget (obj_of (oget (snd p) ''delta'')) k) else [])"

lemma chat_field_tool: "k \<noteq> ''tool_calls'' \<Longrightarrow> e \<in> set (tool_deltas rnd p) \<Longrightarrow> chat_field k (e, f) = []"
  by (auto simp: tool_deltas_def tool_delta_start_def tool_delta_part_def chat_field_def)

lemma chat_field_calls:
  "k \<noteq> ''tool_calls'' \<Longrightarrow>
   collect (\<lambda>x. chat_field k (x, None)) (concat (map (tool_deltas rnd) ps)) = []"
  by (rule collect_none) (auto simp: chat_field_tool)

lemma collect_slices: "(\<And>x. f (g x) = x) \<Longrightarrow> collect f (map g (slices 200 s)) = s"
  by (simp add: collect_map concat_slices)

lemma chat_stream_text: "collect (chat_field ''content'') (chat_deltas rnd d) = text_of_opt (rd_final_text d)"
  by (simp add: chat_deltas_def collect_map chat_field_calls)
    (simp add: chat_field_def concat_slices collect_none)

lemma chat_stream_reasoning:
  "collect (chat_field ''reasoning_content'') (chat_deltas rnd d) = text_of_opt (rd_reasoning d)"
  by (simp add: chat_deltas_def collect_map chat_field_calls)
    (simp add: chat_field_def concat_slices collect_none)

lemma chat_args_tool:
  "collect (\<lambda>x. chat_args i (x, None)) (tool_deltas rnd (n, c)) =
     (if n = i then dumps (JObj (rtc_arguments c)) else [])"
  by (auto simp: tool_deltas_def tool_delta_start_def tool_delta_part_def chat_args_def collect_map
      intro!: collect_none)

lemma chat_args_calls:
  "collect (\<lambda>x. chat_args i (x, None)) (concat (map (tool_deltas rnd) (enumerate n cs))) =
     (if n \<le> i \<and> i < n + length cs then dumps (JObj (rtc_arguments (cs ! (i - n)))) else [])"
  by (induction cs arbitrary: n) (auto simp: chat_args_tool nth_Cons' Suc_diff_Suc dest: le_antisym)

lemma chat_stream_args:
  "i < length (rd_tool_calls d) \<Longrightarrow>
   collect (chat_args i) (chat_deltas rnd d) = dumps (JObj (rtc_arguments (rd_tool_calls d ! i)))"
  by (simp add: chat_deltas_def collect_map chat_args_calls) (simp add: chat_args_def collect_none)

text \<open>Responses.\<close>

lemma responses_item_text:
  "collect responses_text (item_events (n, reasoning_item r)) = []"
  "collect responses_text (item_events (n, call_item c)) = []"
  "collect responses_text (item_events (n, message_item i t)) = t"
  by (simp_all add: item_events_def reasoning_item_def call_item_def message_item_def part_events_def
      responses_text_def or_else_def Let_def collect_map collect_none enumerate_simps)

lemma responses_calls_text:
  "collect responses_text (concat (map item_events (enumerate n (map call_item cs)))) = []"
  by (induction cs arbitrary: n) (simp_all add: responses_item_text)

lemma responses_stream_text:
  "collect responses_text (responses_body_events model rid created d usage) = text_of_opt (rd_final_text d)"
  by (cases "rd_final_text d")
    (auto simp: responses_body_events_def reply_output_items_def enumerate_append_eq responses_calls_text
      responses_item_text truthy_text_def text_of_opt_def responses_text_def Let_def)

text \<open>The output index of the first tool call: after the reasoning item, if there is one.\<close>

definition call_base :: "reply_draft \<Rightarrow> nat" where
  "call_base d = (if truthy_text (rd_reasoning d) then 1 else 0)"

lemma responses_item_args:
  "collect (responses_args i) (item_events (n, reasoning_item r)) = []"
  "collect (responses_args i) (item_events (n, call_item c)) =
     (if n = i then dumps (JObj (rtc_arguments c)) else [])"
  "collect (responses_args i) (item_events (n, message_item k t)) = []"
proof -
  have ne: "dumps (JObj a) \<noteq> []" for a by (simp add: dumps_def)
  show "collect (responses_args i) (item_events (n, call_item c)) =
     (if n = i then dumps (JObj (rtc_arguments c)) else [])"
    by (simp add: item_events_def call_item_def responses_args_def or_else_def Let_def collect_map
        collect_none ne)
qed (simp_all add: item_events_def reasoning_item_def message_item_def part_events_def
      responses_args_def or_else_def Let_def collect_map collect_none)

lemma responses_calls_args:
  "collect (responses_args i) (concat (map item_events (enumerate n (map call_item cs)))) =
     (if n \<le> i \<and> i < n + length cs then dumps (JObj (rtc_arguments (cs ! (i - n)))) else [])"
  by (induction cs arbitrary: n) (auto simp: responses_item_args nth_Cons' Suc_diff_Suc dest: le_antisym)

lemma responses_stream_args:
  "i < length (rd_tool_calls d) \<Longrightarrow>
   collect (responses_args (call_base d + i)) (responses_body_events model rid created d usage) =
     dumps (JObj (rtc_arguments (rd_tool_calls d ! i)))"
  by (auto simp: responses_body_events_def reply_output_items_def enumerate_append_eq responses_calls_args
      responses_item_args call_base_def Let_def) (auto simp: responses_args_def)

text \<open>Anthropic.\<close>

lemma anthropic_block_text:
  "collect (anthropic_field ''text'' None) (block_events d (n, tool_use_block rnd p)) = []"
  "collect (anthropic_field ''text'' None) (block_events d (n, text_block t)) = text_of_opt (rd_final_text d)"
  by (simp_all add: block_events_def tool_use_block_def text_block_def anthropic_field_def Let_def
      collect_map collect_none concat_slices)

lemma anthropic_blocks_text:
  "collect (anthropic_field ''text'' None)
     (concat (map (block_events d) (enumerate n (map (tool_use_block rnd) ps)))) = []"
  by (induction ps arbitrary: n) (simp_all add: anthropic_block_text)

lemma anthropic_stream_text:
  "collect (anthropic_field ''text'' None) (anthropic_events rnd mid model d usage) = text_of_opt (rd_final_text d)"
  by (auto simp: anthropic_events_def content_blocks_def enumerate_append_eq anthropic_blocks_text
      anthropic_block_text Let_def) (auto simp: anthropic_field_def truthy_text_def text_of_opt_def split: option.splits)

lemma anthropic_block_args:
  "collect (anthropic_field ''partial_json'' (Some i)) (block_events d (n, tool_use_block rnd p)) =
     (if n = i then dumps (JObj (rtc_arguments (snd p))) else [])"
  "collect (anthropic_field ''partial_json'' (Some i)) (block_events d (n, text_block t)) = []"
  by (simp_all add: block_events_def tool_use_block_def text_block_def anthropic_field_def Let_def
      collect_map collect_none)

lemma anthropic_blocks_args:
  "collect (anthropic_field ''partial_json'' (Some i))
     (concat (map (block_events d) (enumerate n (map (tool_use_block rnd) (enumerate n cs))))) =
     (if n \<le> i \<and> i < n + length cs then dumps (JObj (rtc_arguments (cs ! (i - n)))) else [])"
  by (induction cs arbitrary: n) (auto simp: anthropic_block_args nth_Cons' Suc_diff_Suc dest: le_antisym)

lemma anthropic_stream_args:
  "i < length (rd_tool_calls d) \<Longrightarrow>
   collect (anthropic_field ''partial_json'' (Some i)) (anthropic_events rnd mid model d usage) =
     dumps (JObj (rtc_arguments (rd_tool_calls d ! i)))"
  by (auto simp: anthropic_events_def content_blocks_def enumerate_append_eq anthropic_blocks_args
      anthropic_block_args Let_def) (auto simp: anthropic_field_def)

text \<open>
  C13. Every stream carries the reply: in each of the three protocols the pieces of the text
  deltas, put together, are the final text of the reply (and, in Chat Completions, the pieces
  of the reasoning are its reasoning), although no piece is longer than 200 characters.
\<close>

theorem streams_carry_text:
  "collect (chat_field ''content'') (chat_deltas rnd d) = text_of_opt (rd_final_text d) \<and>
   collect (chat_field ''reasoning_content'') (chat_deltas rnd d) = text_of_opt (rd_reasoning d) \<and>
   collect responses_text (responses_body_events model rid created d usage) = text_of_opt (rd_final_text d) \<and>
   collect (anthropic_field ''text'' None) (anthropic_events rnd mid model d usage) = text_of_opt (rd_final_text d)"
  by (simp add: chat_stream_text chat_stream_reasoning responses_stream_text anthropic_stream_text)

text \<open>
  C12. Every stream carries the tool calls: for each call of the reply, the argument pieces with
  its index, put together, are a JSON text that \<open>json.loads\<close> reads back as exactly the
  arguments of that call, in each of the three protocols.
\<close>

theorem streams_carry_arguments:
  assumes "i < length (rd_tool_calls d)" "rtc_arguments (rd_tool_calls d ! i) = args" "wf_json (JObj args)"
  shows "loads (collect (chat_args i) (chat_deltas rnd d)) = Some (JObj args) \<and>
     loads (collect (responses_args (call_base d + i)) (responses_body_events model rid created d usage)) =
       Some (JObj args) \<and>
     loads (collect (anthropic_field ''partial_json'' (Some i)) (anthropic_events rnd mid model d usage)) =
       Some (JObj args)"
  using assms by (simp only: chat_stream_args responses_stream_args anthropic_stream_args loads_dumps simp_thms)

definition sample_call_draft :: reply_draft where
  "sample_call_draft = \<lparr>rd_reasoning = Some (u ''r''),
     rd_tool_calls = [\<lparr>rtc_id = u ''1'', rtc_name = u ''f'', rtc_arguments = [(u ''x'', JInt 1)]\<rparr>],
     rd_final_text = None\<rparr>"

theorem streams_carry_arguments_witness:
  "loads (collect (chat_args 0) (chat_deltas (\<lambda>n. []) sample_call_draft)) = Some (JObj [(u ''x'', JInt 1)])"
  by (rule streams_carry_arguments [THEN conjunct1])
    (simp_all add: sample_call_draft_def int_ok_def int_str_def nat_digits.simps)


end
