(* ===== verification/Inference.thy ===== *)
theory Inference
  imports Admission Models Caller_Tools System_One Renderers
begin

text \<open>
  \<open>InferenceService\<close> (\<open>app/services/inference_service.py\<close>): creating a task, the reference to a
  previous response with its context chain, and the terminal transitions with the release of
  the slot. \<open>rnd\<close> gives the successive results of \<open>secrets.token_hex\<close>; \<open>deliver_task\<close>
  stands for \<open>DeliveryService.deliver_task\<close>, of which the proofs use that it leaves the
  task and user tables alone (\<open>delivery_frame\<close>), and \<open>connections\<close> for the ids of the rows of
  \<open>im_connections\<close>.
\<close>

definition MAX_CONTEXT_CHAIN_DEPTH :: nat where "MAX_CONTEXT_CHAIN_DEPTH = 20"

section \<open>Error codes\<close>

fun error_code_value :: "domain_error_code \<Rightarrow> string" where
  "error_code_value INVALID_REQUEST = ''invalid_request''"
| "error_code_value INVALID_API_KEY = ''invalid_api_key''"
| "error_code_value MODEL_NOT_FOUND = ''model_not_found''"
| "error_code_value RATE_LIMIT_EXCEEDED = ''rate_limit_exceeded''"
| "error_code_value REQUEST_TIMEOUT = ''request_timeout''"
| "error_code_value PAYLOAD_TOO_LARGE = ''payload_too_large''"
| "error_code_value UPSTREAM_ERROR = ''upstream_error''"
| "error_code_value CONTEXT_LENGTH_EXCEEDED = ''context_length_exceeded''"
| "error_code_value UNSUPPORTED_PARAMETER = ''unsupported_parameter''"
| "error_code_value CONFLICT = ''conflict''"
| "error_code_value NOT_FOUND = ''not_found''"
| "error_code_value FORBIDDEN = ''forbidden''"
| "error_code_value UNAUTHORIZED = ''unauthorized''"
| "error_code_value VALIDATION_FAILED = ''validation_failed''"
| "error_code_value INVALID_INVITATION = ''invalid_invitation''"

fun terminal_public_error_code :: "task_state \<Rightarrow> string option" where
  "terminal_public_error_code FAILED = Some ''upstream_error''"
| "terminal_public_error_code TIMED_OUT = Some ''request_timeout''"
| "terminal_public_error_code CANCELLED = Some ''cancelled''"
| "terminal_public_error_code _ = None"

section \<open>Parsed requests\<close>

datatype parsed = PChat chat_request | PResponses responses_request | PAnthropic anthropic_request
  | PSystemOne systemone_request

fun parsed_model :: "parsed \<Rightarrow> ustr" where
  "parsed_model (PChat r) = ch_model r"
| "parsed_model (PResponses r) = rr_model r"
| "parsed_model (PAnthropic r) = an_model r"
| "parsed_model (PSystemOne r) = so_model r"

fun parsed_stream :: "parsed \<Rightarrow> bool" where
  "parsed_stream (PChat r) = ch_stream r"
| "parsed_stream (PResponses r) = rr_stream r"
| "parsed_stream (PAnthropic r) = an_stream r"
| "parsed_stream (PSystemOne r) = False"

fun parsed_raw :: "parsed \<Rightarrow> obj" where
  "parsed_raw (PChat r) = ch_raw r"
| "parsed_raw (PResponses r) = rr_raw r"
| "parsed_raw (PAnthropic r) = an_raw r"
| "parsed_raw (PSystemOne r) = so_raw r"

section \<open>The previous response and its context\<close>

definition assert_protocol_strategy :: "inference_protocol \<Rightarrow> reply_strategy \<Rightarrow> unit result" where
  "assert_protocol_strategy protocol strategy =
     raise_if (protocol = TYPE_SAFE_SYSTEMONE \<and> strategy \<noteq> HUMAN)
       (err UNSUPPORTED_PARAMETER ''jev System One requests require a human reply strategy API key.'' 400)"

definition invalid_previous :: exn where
  "invalid_previous =
     err_public INVALID_REQUEST ''Invalid previous_response_id.'' 400 ''invalid_previous_response_id''"

text \<open>
  The loop over the ancestors: \<open>n\<close> is the number of steps still allowed, so \<open>depth\<close> of the
  source is \<open>MAX_CONTEXT_CHAIN_DEPTH - n\<close>.
\<close>

fun walk_chain :: "nat \<Rightarrow> store \<Rightarrow> request_task \<Rightarrow> unit result" where
  "walk_chain n st cursor =
     (case rt_previous_task_id cursor of
        None \<Rightarrow> Inr ()
      | Some p \<Rightarrow>
          (case n of
             0 \<Rightarrow> Inl (err CONTEXT_LENGTH_EXCEEDED ''Context chain depth exceeds the maximum.'' 400)
           | Suc m \<Rightarrow>
               (case get_task st p of
                  None \<Rightarrow> Inl invalid_previous
                | Some cursor' \<Rightarrow> walk_chain m st cursor')))"

declare walk_chain.simps [simp del]

definition find_response :: "store \<Rightarrow> ustr \<Rightarrow> request_task option" where
  "find_response st rid = find (\<lambda>t. rt_response_public_id t = Some rid) (st_tasks st)"

definition resolve_previous :: "store \<Rightarrow> ustr \<Rightarrow> api_key \<Rightarrow> request_task result" where
  "resolve_previous st rid key =
     (case find_response st rid of
        None \<Rightarrow> Inl invalid_previous
      | Some task \<Rightarrow>
          if rt_api_key_id task \<noteq> ak_id key \<or> rt_state task \<noteq> COMPLETED then Inl invalid_previous
          else bindr (walk_chain MAX_CONTEXT_CHAIN_DEPTH st task) (\<lambda>_. Inr task))"

definition parent_context :: "request_task \<Rightarrow> json list result" where
  "parent_context previous =
     (case loads (rt_normalized_request_json previous) of
        None \<Rightarrow> Inl (PyError ValueError)
      | Some (JObj d) \<Rightarrow> iterate (or_else (oget d ''context'') (JList []))
      | Some _ \<Rightarrow> Inl (PyError AttributeError))"

definition response_items :: "request_task \<Rightarrow> json list" where
  "response_items previous =
     (case rt_response_payload previous of None \<Rightarrow> [] | Some draft \<Rightarrow> reply_output_items draft)"

definition with_budget :: "json list \<Rightarrow> obj \<Rightarrow> obj result" where
  "with_budget ctx normalized = bindr (enforce_context_budget ctx) (\<lambda>_. Inr normalized)"

definition build_normalized ::
  "parsed \<Rightarrow> request_task option \<Rightarrow> inference_protocol \<Rightarrow> obj result" where
  "build_normalized parsed previous protocol =
     bindr (assert_unique_tool_names (ctc_definitions (build_caller_tool_catalog protocol (parsed_raw parsed)))) (\<lambda>_.
     (case parsed of
        PChat r \<Rightarrow> with_budget (ch_messages r) (chat_normalized r)
      | PAnthropic r \<Rightarrow> with_budget (an_messages r) (anthropic_normalized r)
      | PSystemOne r \<Rightarrow>
          with_budget [JObj [(u ''role'', S ''state''), (u ''state'', so_state r)]] (systemone_normalized r)
      | PResponses r \<Rightarrow>
          bindr (case previous of
                   None \<Rightarrow> Inr []
                 | Some p \<Rightarrow> bindr (parent_context p) (\<lambda>ctx. Inr (ctx @ response_items p))) (\<lambda>history.
          let ctx = history @ base_context_items r
          in with_budget ctx (responses_normalized r ctx))))"

section \<open>Creating a task\<close>

text \<open>Three candidates of eight digits, then one of thirty-two without a check.\<close>

fun first_free :: "ustr list \<Rightarrow> store \<Rightarrow> ustr option" where
  "first_free [] st = None"
| "first_free (c # cs) st =
     (if c \<in> set (map rt_public_id (st_tasks st)) then first_free cs st else Some c)"

definition task_public_id :: "(nat \<Rightarrow> ustr) \<Rightarrow> store \<Rightarrow> ustr" where
  "task_public_id rnd st =
     (case first_free (map (\<lambda>i. u ''t_'' @ rnd i) [0, 1, 2]) st of
        Some c \<Rightarrow> c | None \<Rightarrow> u ''t_'' @ rnd 3)"

definition new_task ::
  "instant \<Rightarrow> (nat \<Rightarrow> ustr) \<Rightarrow> api_key \<Rightarrow> int \<Rightarrow> inference_protocol \<Rightarrow> parsed \<Rightarrow> int \<Rightarrow>
   request_task option \<Rightarrow> ustr \<Rightarrow> obj \<Rightarrow> obj \<Rightarrow> store \<Rightarrow> request_task" where
  "new_task now rnd key owner_id protocol parsed model_pk previous raw_body headers normalized st =
     \<lparr>rt_id = fresh_id rt_id (st_tasks st), rt_public_id = task_public_id rnd st,
       rt_response_public_id = (if protocol = OPENAI_RESPONSES then Some (u ''resp_'' @ rnd 4) else None),
       rt_previous_task_id = map_option rt_id previous, rt_owner_user_id = owner_id,
       rt_api_key_id = ak_id key, rt_api_key_prefix_snapshot = ak_key_prefix key,
       rt_api_key_name_snapshot = ak_name key, rt_fake_model_id = Some model_pk,
       rt_requested_model = parsed_model parsed, rt_protocol = protocol,
       rt_raw_payload_json = raw_body, rt_normalized_request_json = dumps (JObj normalized),
       rt_request_headers_json = (if headers \<noteq> [] then Some (dumps (JObj headers)) else None),
       rt_stream_requested = parsed_stream parsed, rt_reply_strategy_snapshot = ak_reply_strategy key,
       rt_delivery_mode_snapshot = ak_delivery_mode key,
       rt_im_connection_id_snapshot = ak_im_connection_id key,
       rt_llm_config_id_snapshot = ak_llm_config_id key,
       rt_human_deadline_at = Some (now + seconds (ak_human_timeout_seconds key)),
       rt_state = WAITING_HUMAN, rt_response_payload = None, rt_public_error_code = None,
       rt_cancel_reason_code = None, rt_slot_acquired_at = now, rt_slot_released_at = None,
       rt_response_started_at = None, rt_completed_at = None, rt_created_at = now,
       rt_updated_at = now, rt_version = 1\<rparr>"

text \<open>\<open>session.add\<close> and \<open>flush\<close>: the unique constraints on the two public ids.\<close>

definition insert_task :: "request_task \<Rightarrow> store \<Rightarrow> store result" where
  "insert_task task st =
     (if list_ex (\<lambda>t. rt_public_id t = rt_public_id task \<or>
           (rt_response_public_id t \<noteq> None \<and> rt_response_public_id t = rt_response_public_id task)) (st_tasks st)
      then Inl (PyError IntegrityError)
      else Inr (st\<lparr>st_tasks := st_tasks st @ [task]\<rparr>))"

definition deliver ::
  "(request_task \<Rightarrow> int \<Rightarrow> store \<Rightarrow> store) \<Rightarrow> int list \<Rightarrow> request_task \<Rightarrow> store \<Rightarrow> store" where
  "deliver deliver_task connections task st =
     (if rt_reply_strategy_snapshot task = LLM then st
      else if rt_delivery_mode_snapshot task \<noteq> IM then st
      else
        (case rt_im_connection_id_snapshot task of
           None \<Rightarrow> st
         | Some c \<Rightarrow> if c = 0 \<or> c \<notin> set connections then st else deliver_task task c st))"

definition created_payload :: "inference_protocol \<Rightarrow> parsed \<Rightarrow> obj" where
  "created_payload protocol parsed =
     [(u ''protocol'', S (inference_protocol_value protocol)), (u ''stream'', JBool (parsed_stream parsed))]"

definition previous_of :: "parsed \<Rightarrow> api_key \<Rightarrow> store \<Rightarrow> request_task option result" where
  "previous_of parsed key st =
     (case parsed of
        PResponses r \<Rightarrow>
          (case rr_previous_response_id r of
             None \<Rightarrow> Inr None
           | Some rid \<Rightarrow> bindr (resolve_previous st rid key) (\<lambda>t. Inr (Some t)))
      | _ \<Rightarrow> Inr None)"

definition create_task ::
  "instant \<Rightarrow> (nat \<Rightarrow> ustr) \<Rightarrow> (request_task \<Rightarrow> int \<Rightarrow> store \<Rightarrow> store) \<Rightarrow> int list \<Rightarrow> catalog \<Rightarrow>
   api_key \<Rightarrow> int \<Rightarrow> inference_protocol \<Rightarrow> parsed \<Rightarrow> ustr \<Rightarrow> obj \<Rightarrow> store \<Rightarrow> (store \<times> request_task) result" where
  "create_task now rnd deliver_task connections ca key owner_id protocol parsed raw_body headers st =
     bindr (assert_protocol_strategy protocol (ak_reply_strategy key)) (\<lambda>_.
     (case resolve_model ca key (parsed_model parsed) of
        None \<Rightarrow> Inl (err MODEL_NOT_FOUND ''The requested model does not exist or is not available.'' 404)
      | Some model_row \<Rightarrow>
          bindr (previous_of parsed key st) (\<lambda>previous.
          bindr (build_normalized parsed previous protocol) (\<lambda>normalized.
          bindr (acquire_slot now key owner_id st) (\<lambda>st1.
          let task = new_task now rnd key owner_id protocol parsed (fm_id model_row) previous raw_body
                       headers normalized st1
          in bindr (insert_task task st1) (\<lambda>st2.
             let st3 = add_event (rt_id task) EV_CREATED ACTOR_SYSTEM None
                         (Some (created_payload protocol parsed)) st2
             in Inr (deliver deliver_task connections task st3, task)))))))"

section \<open>Terminal transitions\<close>

fun terminal_event :: "task_state \<Rightarrow> task_event_type" where
  "terminal_event COMPLETED = EV_COMPLETED"
| "terminal_event FAILED = EV_FAILED"
| "terminal_event TIMED_OUT = EV_TIMED_OUT"
| "terminal_event _ = EV_CANCELLED"

definition set_public_error :: "int \<Rightarrow> ustr \<Rightarrow> store \<Rightarrow> store" where
  "set_public_error task_id code st =
     fst (update_tasks (\<lambda>t. rt_id t = task_id) (\<lambda>t. t\<lparr>rt_public_error_code := Some code\<rparr>) st)"

definition public_code_of :: "task_state \<Rightarrow> domain_error_code option \<Rightarrow> string option" where
  "public_code_of state public_error =
     (case public_error of Some c \<Rightarrow> Some (error_code_value c) | None \<Rightarrow> terminal_public_error_code state)"

definition finalize ::
  "instant \<Rightarrow> request_task \<Rightarrow> task_state \<Rightarrow> task_state list option \<Rightarrow> domain_error_code option \<Rightarrow> store \<Rightarrow>
   (store \<times> bool) result" where
  "finalize now task state allowed public_error st =
     bindr (release_slot_to_terminal now (rt_id task) state allowed st) (\<lambda>(st1, won).
       if won then
         (let st2 = release_slot now (rt_owner_user_id task) st1;
              st3 = (case public_code_of state public_error of
                       None \<Rightarrow> st2 | Some code \<Rightarrow> set_public_error (rt_id task) (u code) st2)
          in Inr (add_event (rt_id task) (terminal_event state) ACTOR_SYSTEM None None st3, True))
       else Inr (st1, False))"

definition cancel_caller_disconnected :: "instant \<Rightarrow> int \<Rightarrow> ustr \<Rightarrow> store \<Rightarrow> store \<times> bool" where
  "cancel_caller_disconnected now task_id reason st =
     (let (st1, won) = repo_cancel_caller_disconnected now task_id reason st
      in if won then
           (case get_task st1 task_id of
              None \<Rightarrow> (st1, True)
            | Some task \<Rightarrow>
                (add_event task_id EV_CANCELLED ACTOR_CALLER None None
                   (release_slot now (rt_owner_user_id task) st1), True))
         else (st1, False))"

definition mark_responding :: "instant \<Rightarrow> request_task \<Rightarrow> store \<Rightarrow> store \<times> bool" where
  "mark_responding now task st =
     (let (st1, won) = start_response now (rt_id task) st
      in if won then (add_event (rt_id task) EV_STREAM ACTOR_SYSTEM None None st1, True) else (st1, False))"

section \<open>Closing a task\<close>

definition gateway_ok :: "store \<Rightarrow> bool" where
  "gateway_ok st \<longleftrightarrow> tasks_ok st \<and> ledger_ok st"

text \<open>The row a terminal transition leaves, with its public error code.\<close>

definition with_error :: "string option \<Rightarrow> request_task \<Rightarrow> request_task" where
  "with_error code t = (case code of None \<Rightarrow> t | Some c \<Rightarrow> t\<lparr>rt_public_error_code := Some (u c)\<rparr>)"

lemma with_error_simps [simp]:
  "rt_id (with_error code t) = rt_id t" "rt_state (with_error code t) = rt_state t"
  "rt_version (with_error code t) = rt_version t"
  "rt_slot_released_at (with_error code t) = rt_slot_released_at t"
  "rt_completed_at (with_error code t) = rt_completed_at t"
  "rt_response_payload (with_error code t) = rt_response_payload t"
  "same_identity t0 (with_error code t) \<longleftrightarrow> same_identity t0 t"
  by (simp_all add: with_error_def same_identity_def split: option.split)

lemma with_error_step:
  assumes "row_step t t'" "t' \<noteq> t" "task_ok t'"
  shows "row_step t (with_error code t') \<and> task_ok (with_error code t')"
proof -
  have "same_identity t t' \<and> edge (rt_state t) (rt_state t') \<and> rt_version t' = rt_version t + 1 \<and>
      (rt_response_payload t \<noteq> None \<longrightarrow> rt_response_payload t' = rt_response_payload t)"
    using assms(1,2) unfolding row_step_def by blast
  then have "row_step t (with_error code t')" unfolding row_step_def with_error_simps by blast
  moreover have "task_ok (with_error code t')" using assms(3) by (simp add: task_ok_def)
  ultimately show ?thesis ..
qed

definition can_close :: "task_state list option \<Rightarrow> request_task \<Rightarrow> bool" where
  "can_close allowed t \<longleftrightarrow> rt_slot_released_at t = None \<and> source_ok allowed (rt_state t)"

lemma release_to_terminal:
  assumes "tasks_ok st" "is_terminal s"
  shows "release_slot_to_terminal now k s allowed st =
    Inr (fst (update_tasks (\<lambda>t. rt_id t = k \<and> can_close allowed t) (terminal_values now s) st),
         case get_task st k of None \<Rightarrow> False | Some t \<Rightarrow> can_close allowed t)"
proof -
  have d: "distinct (map rt_id (st_tasks st))" using assms(1) by (simp add: tasks_ok_def)
  have "snd (update_tasks (\<lambda>t. rt_id t = k \<and> can_close allowed t) (terminal_values now s) st) =
      (case get_task st k of Some t \<Rightarrow> if can_close allowed t then 1 else 0 | None \<Rightarrow> 0)"
    by (rule update_by_id(1) [OF d]) (simp add: terminal_values_def)
  then show ?thesis
    using assms(2)
    by (simp add: release_slot_to_terminal_def can_close_def [abs_def] split_beta split: option.splits)
qed

lemma only_row:
  assumes "tasks_ok st" "get_task st k = Some t0"
  shows "map (\<lambda>t. if rt_id t = k \<and> c t then f t else t) (st_tasks st) =
    (if c t0 then map (\<lambda>t. if rt_id t = k then f t else t) (st_tasks st) else st_tasks st)"
proof -
  have "t = t0" if "t \<in> set (st_tasks st)" "rt_id t = k" for t
    using get_task_member [of st t] that assms by (simp add: tasks_ok_def)
  then show ?thesis by (cases "c t0") (auto intro!: map_update_none map_cong)
qed

lemma set_public_error_frame [simp]:
  "st_users (set_public_error k c st) = st_users st"
  "st_drafts (set_public_error k c st) = st_drafts st"
  by (simp_all add: set_public_error_def)

lemma set_public_error_tasks:
  "st_tasks (set_public_error k c st) =
     map (\<lambda>t. if rt_id t = k then t\<lparr>rt_public_error_code := Some c\<rparr> else t) (st_tasks st)"
  by (simp add: set_public_error_def update_tasks_tasks)

lemma terminal_values_id: "rt_id (terminal_values now s t) = rt_id t"
  by (simp add: terminal_values_def)

lemma terminal_values_released: "rt_slot_released_at (terminal_values now s t) = Some now"
  by (simp add: terminal_values_def bump_def)

text \<open>What \<open>finalize\<close> does when it wins, and when it does not.\<close>

lemma finalize_win:
  assumes "tasks_ok st" "is_terminal s" "get_task st (rt_id task) = Some t" "can_close allowed t"
  shows "\<exists>st'. finalize now task s allowed perr st = Inr (st', True) \<and>
    st_tasks st' = map (\<lambda>x. if rt_id x = rt_id task
       then with_error (public_code_of s perr) (terminal_values now s x) else x) (st_tasks st) \<and>
    st_users st' = st_users (release_slot now (rt_owner_user_id task) st) \<and> st_drafts st' = st_drafts st"
proof -
  let ?k = "rt_id task"
  let ?st1 = "fst (update_tasks (\<lambda>t. rt_id t = ?k \<and> can_close allowed t) (terminal_values now s) st)"
  have t1: "st_tasks ?st1 = map (\<lambda>t. if rt_id t = ?k then terminal_values now s t else t) (st_tasks st)"
    using only_row [OF assms(1,3), of "can_close allowed"] assms(4) by (simp add: update_tasks_tasks)
  have id: "rt_id (terminal_values now s x) = rt_id x" for x by (simp add: terminal_values_def)
  show ?thesis
    using assms(3,4)
    by (cases "public_code_of s perr")
      (simp_all add: finalize_def release_to_terminal [OF assms(1,2)] Let_def t1 set_public_error_tasks
        with_error_def id release_users comp_def cong: if_cong)
qed

lemma finalize_miss:
  assumes "tasks_ok st" "is_terminal s"
    "case get_task st (rt_id task) of None \<Rightarrow> True | Some t \<Rightarrow> \<not> can_close allowed t"
  shows "finalize now task s allowed perr st = Inr (st, False)"
proof -
  have "\<not> (rt_id t = rt_id task \<and> can_close allowed t)" if "t \<in> set (st_tasks st)" for t
    using get_task_member [of st t] that assms(1,3) by (auto simp: tasks_ok_def)
  then have "fst (update_tasks (\<lambda>t. rt_id t = rt_id task \<and> can_close allowed t) (terminal_values now s) st) = st"
    by (rule update_tasks_miss)
  with assms(3) show ?thesis
    by (simp add: finalize_def release_to_terminal [OF assms(1,2)] split: option.splits)
qed

lemma finalize_ok:
  assumes "gateway_ok st" "release_sources s allowed" "finalize now task s allowed perr st = Inr (st', won)"
    "\<And>t. get_task st (rt_id task) = Some t \<Longrightarrow> rt_owner_user_id t = rt_owner_user_id task"
  shows "gateway_ok st'" and "tasks_step st st'" and "st_drafts st' = st_drafts st"
    and "won \<longleftrightarrow> (case get_task st (rt_id task) of None \<Rightarrow> False | Some t \<Rightarrow> can_close allowed t)"
    and "won \<or> st' = st"
proof -
  have ok: "tasks_ok st" "ledger_ok st" and trm: "is_terminal s"
    using assms(1,2) by (simp_all add: gateway_ok_def release_sources_def)
  have "gateway_ok st' \<and> tasks_step st st' \<and> st_drafts st' = st_drafts st \<and>
    (won \<longleftrightarrow> (case get_task st (rt_id task) of None \<Rightarrow> False | Some t \<Rightarrow> can_close allowed t)) \<and> (won \<or> st' = st)"
  proof (cases "case get_task st (rt_id task) of None \<Rightarrow> False | Some t \<Rightarrow> can_close allowed t")
    case False
    then have "finalize now task s allowed perr st = Inr (st, False)"
      by (intro finalize_miss ok trm) (auto split: option.splits)
    with assms(1,3) False show ?thesis by simp
  next
    case True
    then obtain t where t: "get_task st (rt_id task) = Some t" "can_close allowed t"
      by (cases "get_task st (rt_id task)") auto
    let ?F = "\<lambda>x. with_error (public_code_of s perr) (terminal_values now s x)"
    obtain st2 where st2: "finalize now task s allowed perr st = Inr (st2, True)"
        "st_tasks st2 = map (\<lambda>x. if rt_id x = rt_id task then ?F x else x) (st_tasks st)"
        "st_users st2 = st_users (release_slot now (rt_owner_user_id task) st)" "st_drafts st2 = st_drafts st"
      using finalize_win [OF ok(1) trm t] by blast
    then have eq: "st' = st2" "won" using assms(3) by simp_all
    have rel: "rt_slot_released_at t = None" "source_ok allowed (rt_state t)"
      using t(2) by (simp_all add: can_close_def)
    have ts: "row_step t (terminal_values now s t) \<and> task_ok (terminal_values now s t)"
      by (rule terminal_step [OF get_task_ok [OF ok(1) t(1)] rel(1) assms(2) rel(2)])
    have "terminal_values now s t \<noteq> t"
      using rel(1) by (metis terminal_values_released option.distinct(1))
    with ts have F: "row_step t (?F t)" "task_ok (?F t)" using with_error_step by blast+
    have r: "rt_slot_released_at (?F t) \<noteq> None" by (simp add: terminal_values_released)
    have users: "st_users st2 = st_users (release_slot now (rt_owner_user_id t) st)"
      using st2(3) assms(4) [OF t(1)] by simp
    note c = close_row [OF ok t(1) rel(1) F r st2(2) users]
    show ?thesis using c eq True st2(4) by (simp add: gateway_ok_def)
  qed
  then show "gateway_ok st'" "tasks_step st st'" "st_drafts st' = st_drafts st"
    "won \<longleftrightarrow> (case get_task st (rt_id task) of None \<Rightarrow> False | Some t \<Rightarrow> can_close allowed t)" "won \<or> st' = st"
    by blast+
qed

lemma cancel_values_released: "rt_slot_released_at (cancel_values now r t) \<noteq> None"
  by simp

lemma cancel_win:
  assumes "tasks_ok st" "get_task st k = Some t" "rt_slot_released_at t = None"
  shows "\<exists>st'. cancel_caller_disconnected now k reason st = (st', True) \<and>
    st_tasks st' = map (\<lambda>x. if rt_id x = k then cancel_values now reason x else x) (st_tasks st) \<and>
    st_users st' = st_users (release_slot now (rt_owner_user_id t) st) \<and> st_drafts st' = st_drafts st"
proof -
  let ?c = "\<lambda>t. rt_state t \<notin> {COMPLETED, FAILED, TIMED_OUT, CANCELLED} \<and> rt_slot_released_at t = None"
  let ?u = "update_tasks (\<lambda>t. rt_id t = k \<and> ?c t) (cancel_values now reason) st"
  have d: "distinct (map rt_id (st_tasks st))" using assms(1) by (simp add: tasks_ok_def)
  have ct: "?c t"
    using get_task_ok [OF assms(1,2)] assms(3) by (auto simp: task_ok_def task_state_defs)
  have n: "snd ?u = 1"
    using update_by_id(1) [OF d, of "cancel_values now reason" k ?c] assms(2) ct by simp
  define st1 where "st1 = fst ?u"
  have g: "get_task st1 k = Some (cancel_values now reason t)"
    unfolding st1_def using update_by_id(2) [OF d, of "cancel_values now reason" k ?c k] assms(2) ct by simp
  have t1: "st_tasks st1 = map (\<lambda>x. if rt_id x = k then cancel_values now reason x else x) (st_tasks st)"
    unfolding st1_def using only_row [OF assms(1,2), of ?c "cancel_values now reason"] ct by (simp add: update_tasks_tasks)
  have r: "repo_cancel_caller_disconnected now k reason st = (st1, True)"
    unfolding st1_def using n by (simp add: repo_cancel_caller_disconnected_def split_beta)
  have "st_users st1 = st_users st" "st_drafts st1 = st_drafts st" by (simp_all add: st1_def)
  then show ?thesis
    by (simp add: cancel_caller_disconnected_def r g t1 release_users)
qed

lemma cancel_miss:
  assumes "tasks_ok st"
    "case get_task st k of None \<Rightarrow> True | Some t \<Rightarrow> rt_slot_released_at t \<noteq> None"
  shows "cancel_caller_disconnected now k reason st = (st, False)"
proof -
  let ?c = "\<lambda>t. rt_id t = k \<and> rt_state t \<notin> {COMPLETED, FAILED, TIMED_OUT, CANCELLED} \<and> rt_slot_released_at t = None"
  have none: "\<not> ?c t" if "t \<in> set (st_tasks st)" for t
    using get_task_member [of st t] that assms by (auto simp: tasks_ok_def)
  have "fst (update_tasks ?c (cancel_values now reason) st) = st"
    by (rule update_tasks_miss) (rule none)
  moreover have "snd (update_tasks ?c (cancel_values now reason) st) = 0"
    using none by (simp add: update_tasks_tasks rowcount_0_iff)
  ultimately have "repo_cancel_caller_disconnected now k reason st = (st, False)"
    by (simp add: repo_cancel_caller_disconnected_def split_beta)
  then show ?thesis by (simp add: cancel_caller_disconnected_def)
qed

lemma cancel_ok:
  assumes "gateway_ok st" "cancel_caller_disconnected now k reason st = (st', won)"
  shows "gateway_ok st' \<and> tasks_step st st' \<and> st_drafts st' = st_drafts st \<and> (won \<or> st' = st) \<and>
    (won \<longleftrightarrow> (case get_task st k of None \<Rightarrow> False | Some t \<Rightarrow> rt_slot_released_at t = None))"
proof (cases "case get_task st k of None \<Rightarrow> False | Some t \<Rightarrow> rt_slot_released_at t = None")
  case False
  then have "cancel_caller_disconnected now k reason st = (st, False)"
    using assms(1) by (intro cancel_miss) (auto simp: gateway_ok_def split: option.splits)
  with assms False show ?thesis by simp
next
  case True
  then obtain t where t: "get_task st k = Some t" "rt_slot_released_at t = None"
    by (cases "get_task st k") auto
  have ok: "tasks_ok st" "ledger_ok st" using assms(1) by (simp_all add: gateway_ok_def)
  obtain st2 where st2: "cancel_caller_disconnected now k reason st = (st2, True)"
      "st_tasks st2 = map (\<lambda>x. if rt_id x = k then cancel_values now reason x else x) (st_tasks st)"
      "st_users st2 = st_users (release_slot now (rt_owner_user_id t) st)" "st_drafts st2 = st_drafts st"
    using cancel_win [OF ok(1) t] by blast
  have F: "row_step t (cancel_values now reason t) \<and> task_ok (cancel_values now reason t)"
    by (rule cancel_step [OF get_task_ok [OF ok(1) t(1)] t(2)])
  note c = close_row [OF ok t F [THEN conjunct1] F [THEN conjunct2] cancel_values_released st2(2,3)]
  show ?thesis using c st2 assms(2) True by (simp add: gateway_ok_def)
qed



end
