(* ===== verification/Im_Tables.thy ===== *)
theory Im_Tables
  imports Inference
begin

text \<open>
  The tables of the messaging connections and their repository
  (\<open>app/repositories/models/connections.py\<close>, \<open>app/repositories/connections.py\<close>): connections, the outbox
  of task packages, and the receipts of inbound messages; and the laws of the outbox and of the receipts.
  The record \<open>im\<close> is the database with these tables, the connections whose connector is running in this
  process, and the calls that push a text or a file to a user (connection, user, text; connection, user, file name,
  content), the last first.
\<close>

section \<open>Rows\<close>

datatype connection_state = CONN_STOPPED | CONN_STARTING | CONN_ONLINE | CONN_AUTH_REQUIRED | CONN_ERROR

fun connection_state_value :: "connection_state \<Rightarrow> string" where
  "connection_state_value CONN_STOPPED = ''stopped''"
| "connection_state_value CONN_STARTING = ''starting''"
| "connection_state_value CONN_ONLINE = ''online''"
| "connection_state_value CONN_AUTH_REQUIRED = ''auth_required''"
| "connection_state_value CONN_ERROR = ''error''"

datatype outbox_state = OUTBOX_PENDING | OUTBOX_DELIVERED | OUTBOX_ACKED | OUTBOX_FAILED

record im_connection =
  ic_id :: int
  ic_owner_user_id :: int
  ic_name :: ustr
  ic_platform :: string
  ic_config_ciphertext :: ustr
  ic_config_key_version :: int
  ic_llm_summary_enabled :: bool
  ic_llm_config_id :: "int option"
  ic_desired_running :: bool
  ic_state :: connection_state
  ic_bound_external_user_id :: "ustr option"
  ic_binding_code_hash :: "ustr option"
  ic_binding_code_expires_at :: "instant option"
  ic_last_authenticated_at :: "instant option"
  ic_last_health_at :: "instant option"
  ic_last_error_code :: "ustr option"
  ic_last_error_message :: "ustr option"
  ic_retry_count :: int
  ic_next_retry_at :: "instant option"
  ic_created_at :: instant
  ic_updated_at :: instant

record connector_outbox =
  co_id :: int
  co_connection_id :: int
  co_task_id :: int
  co_payload_json :: ustr
  co_delivery_state :: outbox_state
  co_attempt_count :: int
  co_available_at :: instant
  co_acked_at :: "instant option"
  co_last_error_code :: "ustr option"
  co_updated_at :: instant

record inbound_receipt =
  ir_id :: int
  ir_connection_id :: int
  ir_external_message_id :: ustr
  ir_sender_fingerprint :: ustr
  ir_task_id :: "int option"
  ir_payload_hash :: ustr
  ir_result_code :: inbound_result
  ir_created_at :: instant

datatype sent_item = PushText int ustr ustr | PushFile int ustr ustr ustr

record im =
  im_db :: store
  im_connections :: "im_connection list"
  im_outbox :: "connector_outbox list"
  im_receipts :: "inbound_receipt list"
  im_running :: "int list"
  im_sent :: "sent_item list"

definition on_db :: "(store \<Rightarrow> store) \<Rightarrow> im \<Rightarrow> im" where
  "on_db f s = s\<lparr>im_db := f (im_db s)\<rparr>"

section \<open>Connections\<close>

definition get_connection :: "int \<Rightarrow> im \<Rightarrow> im_connection option" where
  "get_connection connection_id s = get_row ic_id connection_id (im_connections s)"

definition get_owned_connection :: "int \<Rightarrow> int \<Rightarrow> im \<Rightarrow> im_connection option" where
  "get_owned_connection connection_id owner s =
     (case get_connection connection_id s of
        None \<Rightarrow> None
      | Some row \<Rightarrow> if ic_owner_user_id row \<noteq> owner then None else Some row)"

definition get_by_owner_platform :: "int \<Rightarrow> string \<Rightarrow> im \<Rightarrow> im_connection option" where
  "get_by_owner_platform owner platform s =
     find (\<lambda>c. ic_owner_user_id c = owner \<and> ic_platform c = platform) (im_connections s)"

definition list_connections ::
  "nat \<Rightarrow> nat \<Rightarrow> int option \<Rightarrow> ustr option \<Rightarrow> string option \<Rightarrow> connection_state option \<Rightarrow> im \<Rightarrow> im_connection list \<times> nat" where
  "list_connections page page_size owner search platform state s =
     (let rows = filter (\<lambda>c.
            (case owner of None \<Rightarrow> True | Some w \<Rightarrow> ic_owner_user_id c = w) \<and>
            (case platform of None \<Rightarrow> True | Some p \<Rightarrow> p = [] \<or> ic_platform c = p) \<and>
            (case state of None \<Rightarrow> True | Some x \<Rightarrow> ic_state c = x) \<and>
            (case search of None \<Rightarrow> True | Some t \<Rightarrow> t = [] \<or> ilike_contains (strip t) (ic_name c)))
          (im_connections s)
      in (take page_size (drop ((page - 1) * page_size) (sort_key (\<lambda>c. (- ic_created_at c, - ic_id c)) rows)), length rows))"

definition list_desired_running :: "im \<Rightarrow> im_connection list" where
  "list_desired_running s = filter ic_desired_running (im_connections s)"

definition count_api_key_references :: "int \<Rightarrow> bool \<Rightarrow> im \<Rightarrow> nat \<times> ustr list" where
  "count_api_key_references connection_id enabled_only s =
     (let rows = filter (\<lambda>k. ak_im_connection_id k = Some connection_id \<and> (enabled_only \<longrightarrow> ak_is_enabled k)) (st_keys (im_db s))
      in (length rows, map ak_key_prefix (take 50 (sort_key ak_id rows))))"

definition put_connection :: "int \<Rightarrow> (im_connection \<Rightarrow> im_connection) \<Rightarrow> im \<Rightarrow> im" where
  "put_connection connection_id f s =
     s\<lparr>im_connections := fst (sql_update (\<lambda>c. ic_id c = connection_id) f (im_connections s))\<rparr>"

definition delete_connection_row :: "int \<Rightarrow> im \<Rightarrow> im" where
  "delete_connection_row connection_id s =
     s\<lparr>im_connections := filter (\<lambda>c. ic_id c \<noteq> connection_id) (im_connections s)\<rparr>"

definition delete_related_rows :: "int \<Rightarrow> im \<Rightarrow> im" where
  "delete_related_rows connection_id s =
     s\<lparr>im_outbox := filter (\<lambda>o'. co_connection_id o' \<noteq> connection_id) (im_outbox s),
       im_receipts := filter (\<lambda>r. ir_connection_id r \<noteq> connection_id) (im_receipts s)\<rparr>"

definition set_desired_running :: "instant \<Rightarrow> int \<Rightarrow> bool \<Rightarrow> im \<Rightarrow> im" where
  "set_desired_running now connection_id desired =
     put_connection connection_id (\<lambda>c. c\<lparr>ic_desired_running := desired, ic_updated_at := now\<rparr>)"

definition disable_if_desired :: "instant \<Rightarrow> int \<Rightarrow> instant \<Rightarrow> im \<Rightarrow> im \<times> bool" where
  "disable_if_desired now connection_id expected_updated_at s =
     (let (rows, n) = sql_update (\<lambda>c. ic_id c = connection_id \<and> ic_updated_at c = expected_updated_at)
            (\<lambda>c. c\<lparr>ic_desired_running := False, ic_updated_at := now\<rparr>) (im_connections s)
      in (s\<lparr>im_connections := rows\<rparr>, n = 1))"

text \<open>The state patch of the connection manager: only the columns it names are written.\<close>

record runtime_patch =
  rp_state :: "connection_state option"
  rp_error :: "(ustr \<times> ustr) option"
  rp_retry_count :: "int option"
  rp_next_retry_at :: "instant option option"
  rp_authenticated_at :: "instant option"

definition or_keep :: "'a option \<Rightarrow> 'a \<Rightarrow> 'a" where
  "or_keep new old = (case new of None \<Rightarrow> old | Some v \<Rightarrow> v)"

definition apply_runtime_patch :: "instant \<Rightarrow> int \<Rightarrow> runtime_patch \<Rightarrow> im \<Rightarrow> im" where
  "apply_runtime_patch now connection_id p =
     put_connection connection_id (\<lambda>c. c\<lparr>ic_state := or_keep (rp_state p) (ic_state c),
       ic_last_error_code := or_keep (map_option (Some \<circ> fst) (rp_error p)) (ic_last_error_code c),
       ic_last_error_message := or_keep (map_option (Some \<circ> snd) (rp_error p)) (ic_last_error_message c),
       ic_retry_count := or_keep (rp_retry_count p) (ic_retry_count c),
       ic_next_retry_at := or_keep (rp_next_retry_at p) (ic_next_retry_at c),
       ic_last_authenticated_at := or_keep (map_option Some (rp_authenticated_at p)) (ic_last_authenticated_at c),
       ic_last_health_at := or_keep (map_option Some (rp_authenticated_at p)) (ic_last_health_at c),
       ic_updated_at := now\<rparr>)"

definition set_binding_code :: "instant \<Rightarrow> int \<Rightarrow> ustr option \<Rightarrow> instant option \<Rightarrow> im \<Rightarrow> im" where
  "set_binding_code now connection_id code_hash expires_at =
     put_connection connection_id (\<lambda>c. c\<lparr>ic_binding_code_hash := code_hash, ic_binding_code_expires_at := expires_at,
       ic_updated_at := now\<rparr>)"

definition bind_external_user :: "instant \<Rightarrow> int \<Rightarrow> ustr \<Rightarrow> im \<Rightarrow> im" where
  "bind_external_user now connection_id external_user_id =
     put_connection connection_id (\<lambda>c. c\<lparr>ic_bound_external_user_id := Some external_user_id, ic_binding_code_hash := None,
       ic_binding_code_expires_at := None, ic_updated_at := now\<rparr>)"

section \<open>Outbox\<close>

definition is_package :: "int \<Rightarrow> int \<Rightarrow> connector_outbox \<Rightarrow> bool" where
  "is_package connection_id task_id o' \<longleftrightarrow> co_connection_id o' = connection_id \<and> co_task_id o' = task_id"

definition new_package :: "instant \<Rightarrow> int \<Rightarrow> int \<Rightarrow> ustr \<Rightarrow> im \<Rightarrow> connector_outbox" where
  "new_package now connection_id task_id payload s =
     \<lparr>co_id = fresh_id co_id (im_outbox s), co_connection_id = connection_id, co_task_id = task_id,
       co_payload_json = payload, co_delivery_state = OUTBOX_PENDING, co_attempt_count = 0, co_available_at = now,
       co_acked_at = None, co_last_error_code = None, co_updated_at = now\<rparr>"

definition enqueue_outbox :: "instant \<Rightarrow> int \<Rightarrow> int \<Rightarrow> ustr \<Rightarrow> im \<Rightarrow> im" where
  "enqueue_outbox now connection_id task_id payload s =
     (case find (is_package connection_id task_id) (im_outbox s) of
        Some row \<Rightarrow> s
      | None \<Rightarrow> s\<lparr>im_outbox := im_outbox s @ [new_package now connection_id task_id payload s]\<rparr>)"

definition update_outbox ::
  "(connector_outbox \<Rightarrow> bool) \<Rightarrow> (connector_outbox \<Rightarrow> connector_outbox) \<Rightarrow> im \<Rightarrow> im \<times> bool" where
  "update_outbox cond upd s =
     (let (rows, n) = sql_update cond upd (im_outbox s) in (s\<lparr>im_outbox := rows\<rparr>, n = 1))"

definition mark_outbox_delivered :: "instant \<Rightarrow> int \<Rightarrow> int \<Rightarrow> im \<Rightarrow> im \<times> bool" where
  "mark_outbox_delivered now connection_id task_id =
     update_outbox (\<lambda>o'. is_package connection_id task_id o' \<and> co_delivery_state o' = OUTBOX_PENDING)
       (\<lambda>o'. o'\<lparr>co_delivery_state := OUTBOX_DELIVERED, co_updated_at := now\<rparr>)"

definition mark_outbox_failed :: "instant \<Rightarrow> int \<Rightarrow> int \<Rightarrow> ustr \<Rightarrow> im \<Rightarrow> im \<times> bool" where
  "mark_outbox_failed now connection_id task_id error_code =
     update_outbox (\<lambda>o'. is_package connection_id task_id o' \<and> co_delivery_state o' = OUTBOX_PENDING)
       (\<lambda>o'. o'\<lparr>co_delivery_state := OUTBOX_PENDING, co_attempt_count := co_attempt_count o' + 1,
         co_last_error_code := Some (take 64 error_code), co_updated_at := now\<rparr>)"

definition unacked :: "connector_outbox \<Rightarrow> bool" where
  "unacked o' \<longleftrightarrow> co_delivery_state o' \<in> {OUTBOX_PENDING, OUTBOX_DELIVERED}"

text \<open>\<open>claim_outbox_batch\<close>: the rows after the cursor, oldest first; those that wait become delivered.\<close>

definition claim_outbox_batch :: "instant \<Rightarrow> int \<Rightarrow> int \<Rightarrow> nat \<Rightarrow> im \<Rightarrow> im \<times> connector_outbox list" where
  "claim_outbox_batch now connection_id after_cursor limit s =
     (let rows = take limit (sort_key co_id (filter (\<lambda>o'. co_connection_id o' = connection_id \<and>
            co_id o' > after_cursor \<and> unacked o') (im_outbox s)))
      in (fst (update_outbox (\<lambda>o'. co_connection_id o' = connection_id \<and> co_id o' > after_cursor \<and>
              co_delivery_state o' = OUTBOX_PENDING \<and> co_id o' \<in> set (map co_id rows))
            (\<lambda>o'. o'\<lparr>co_delivery_state := OUTBOX_DELIVERED, co_updated_at := now\<rparr>) s), rows))"

definition ack_outbox :: "instant \<Rightarrow> int \<Rightarrow> int \<Rightarrow> im \<Rightarrow> im \<times> bool" where
  "ack_outbox now connection_id task_id =
     update_outbox (\<lambda>o'. is_package connection_id task_id o' \<and> co_acked_at o' = None)
       (\<lambda>o'. o'\<lparr>co_delivery_state := OUTBOX_ACKED, co_acked_at := Some now, co_updated_at := now\<rparr>)"

definition count_pending_outbox :: "int \<Rightarrow> im \<Rightarrow> nat" where
  "count_pending_outbox connection_id s =
     rowcount (\<lambda>o'. co_connection_id o' = connection_id \<and> unacked o') (im_outbox s)"

section \<open>Receipts\<close>

definition is_receipt :: "int \<Rightarrow> ustr \<Rightarrow> inbound_receipt \<Rightarrow> bool" where
  "is_receipt connection_id external_message_id r \<longleftrightarrow>
     ir_connection_id r = connection_id \<and> ir_external_message_id r = external_message_id"

definition get_receipt :: "int \<Rightarrow> ustr \<Rightarrow> im \<Rightarrow> inbound_receipt option" where
  "get_receipt connection_id external_message_id s = find (is_receipt connection_id external_message_id) (im_receipts s)"

text \<open>\<open>record_receipt\<close>: nothing when the message is known.\<close>

definition record_receipt ::
  "instant \<Rightarrow> int \<Rightarrow> ustr \<Rightarrow> ustr \<Rightarrow> ustr \<Rightarrow> inbound_result \<Rightarrow> im \<Rightarrow> (im \<times> inbound_receipt) option" where
  "record_receipt now connection_id external_message_id sender_fingerprint payload_hash result_code s =
     (case get_receipt connection_id external_message_id s of
        Some r \<Rightarrow> None
      | None \<Rightarrow>
          (let row = \<lparr>ir_id = fresh_id ir_id (im_receipts s), ir_connection_id = connection_id,
                 ir_external_message_id = external_message_id, ir_sender_fingerprint = take 255 sender_fingerprint,
                 ir_task_id = None, ir_payload_hash = take 64 payload_hash, ir_result_code = result_code, ir_created_at = now\<rparr>
           in Some (s\<lparr>im_receipts := im_receipts s @ [row]\<rparr>, row)))"

definition put_receipt :: "inbound_receipt \<Rightarrow> (inbound_receipt \<Rightarrow> inbound_receipt) \<Rightarrow> im \<Rightarrow> im" where
  "put_receipt row f s = s\<lparr>im_receipts := fst (sql_update (\<lambda>r. ir_id r = ir_id row) f (im_receipts s))\<rparr>"

definition count_inbound_receipts :: "int \<Rightarrow> im \<Rightarrow> nat" where
  "count_inbound_receipts connection_id s = rowcount (\<lambda>r. ir_connection_id r = connection_id) (im_receipts s)"

definition count_inbound_receipts_since :: "int \<Rightarrow> instant \<Rightarrow> im \<Rightarrow> nat" where
  "count_inbound_receipts_since connection_id since s =
     rowcount (\<lambda>r. ir_connection_id r = connection_id \<and> ir_created_at r > since) (im_receipts s)"

end
