(* ===== verification/Cross_Messages.thy ===== *)
theory Cross_Messages
  imports Renderers
begin

text \<open>
  The history of a conversation converted for a model of another protocol
  (\<open>app/protocols/cross_messages.py\<close>). The intermediate Chat messages, dictionaries in the
  source, are the values of \<open>turn\<close>: \<open>Turn role content calls\<close> is the dictionary with \<open>role\<close>,
  \<open>content\<close> and, when there are any, \<open>tool_calls\<close>; \<open>Result id text\<close> is a message of the role
  \<open>tool\<close>. A refusal names the field; the log record it writes is left out.
\<close>

section \<open>Checks\<close>

definition unsupported :: "ustr \<Rightarrow> string \<Rightarrow> exn" where
  "unsupported field reason =
     err_text UNSUPPORTED_PARAMETER
       (field @ u '' cannot be forwarded across protocols: '' @ u reason @ u ''.'') 400 None"

fun check_fields :: "obj \<Rightarrow> string list \<Rightarrow> string \<Rightarrow> unit result" where
  "check_fields [] allowed label = Inr ()"
| "check_fields ((k, v) # d) allowed label =
     (if k \<notin> set (map u allowed) \<and> v \<noteq> JNull
      then Inl (unsupported (u label @ u ''.'' @ k) ''no declared equivalent'')
      else check_fields d allowed label)"

definition required_string :: "json \<Rightarrow> string \<Rightarrow> ustr result" where
  "required_string v label =
     (case v of
        JStr s \<Rightarrow> if blank s then Inl (unsupported (u label) ''must be a non-empty string'') else Inr s
      | _ \<Rightarrow> Inl (unsupported (u label) ''must be a non-empty string''))"

definition object_only :: "json \<Rightarrow> obj result" where
  "object_only v =
     (case v of JObj d \<Rightarrow> Inr d | _ \<Rightarrow> Inl (unsupported (u ''arguments'') ''must be a JSON object''))"

definition arguments_object :: "json \<Rightarrow> obj result" where
  "arguments_object v =
     (case v of
        JStr s \<Rightarrow>
          (case loads s of
             None \<Rightarrow> Inl (unsupported (u ''arguments'') ''must be valid JSON object'')
           | Some w \<Rightarrow> object_only w)
      | _ \<Rightarrow> object_only v)"

definition text_block_of :: "json \<Rightarrow> ustr result" where
  "text_block_of v =
     (case v of
        JObj block \<Rightarrow>
          bindr (in_set (oget block ''type'') [S ''text'', S ''input_text'', S ''output_text'']) (\<lambda>known.
          if \<not> known then Inl (unsupported (u ''content block'') ''only text has an equivalent'')
          else
            bindr (check_fields block [''type'', ''text'', ''annotations''] ''content'') (\<lambda>_.
            if truthy (oget block ''annotations'')
            then Inl (unsupported (u ''annotations'') ''provider annotations have no equivalent'')
            else
              (case oget block ''text'' of
                 JStr s \<Rightarrow> Inr s
               | _ \<Rightarrow> Inl (unsupported (u ''text'') ''must be a string''))))
      | _ \<Rightarrow> Inl (unsupported (u ''content block'') ''only text has an equivalent''))"

definition text_content :: "json \<Rightarrow> ustr result" where
  "text_content v =
     (case v of
        JStr s \<Rightarrow> Inr s
      | JList blocks \<Rightarrow> bindr (mapr text_block_of blocks) (\<lambda>parts. Inr (join [10] parts))
      | _ \<Rightarrow> Inl (unsupported (u ''content'') ''must be text or text blocks''))"

section \<open>Chat messages\<close>

text \<open>A call: \<open>id\<close>, and the function's name and its arguments as JSON text.\<close>

record turn_call =
  tc_id :: ustr
  tc_name :: ustr
  tc_arguments :: ustr

datatype turn = Turn string "ustr option" "turn_call list" | Result ustr ustr

definition cross_call :: "json \<Rightarrow> json \<Rightarrow> json \<Rightarrow> turn_call result" where
  "cross_call call_id name arguments =
     bindr (required_string call_id ''call_id'') (\<lambda>i.
     bindr (required_string name ''name'') (\<lambda>n.
     bindr (arguments_object arguments) (\<lambda>d.
     Inr \<lparr>tc_id = i, tc_name = n, tc_arguments = dumps (JObj d)\<rparr>)))"

definition completed :: "obj \<Rightarrow> string \<Rightarrow> unit result" where
  "completed item label =
     bindr (in_set (oget item ''status'') [JNull, S ''completed'']) (\<lambda>ok.
     raise_if (\<not> ok) (unsupported (u label) ''incomplete history''))"

definition call_turn :: "turn_call \<Rightarrow> turn" where
  "call_turn c = Turn ''assistant'' None [c]"

definition function_call_turn :: "obj \<Rightarrow> turn result" where
  "function_call_turn item =
     bindr (check_fields item [''type'', ''id'', ''call_id'', ''name'', ''arguments'', ''status''] ''function_call'') (\<lambda>_.
     bindr (completed item ''function_call.status'') (\<lambda>_.
     bindr (cross_call (oget item ''call_id'') (oget item ''name'') (oget item ''arguments'')) (\<lambda>c.
     Inr (call_turn c))))"

definition function_output_turn :: "obj \<Rightarrow> turn result" where
  "function_output_turn item =
     bindr (check_fields item [''type'', ''id'', ''call_id'', ''output'', ''status''] ''function_call_output'') (\<lambda>_.
     bindr (completed item ''function_call_output.status'') (\<lambda>_.
     bindr (required_string (oget item ''call_id'') ''call_id'') (\<lambda>i.
     bindr (text_content (oget item ''output'')) (\<lambda>t. Inr (Result i t)))))"

fun role_of :: "json \<Rightarrow> string option" where
  "role_of (JStr s) =
     find (\<lambda>r. u r = s) [''system'', ''developer'', ''user'', ''assistant'', ''tool'']"
| "role_of v = None"

definition checked_role :: "json \<Rightarrow> string result" where
  "checked_role v =
     (if \<not> hashable v then Inl (PyError TypeError)
      else
        (case role_of v of
           None \<Rightarrow> Inl (unsupported (u ''role'') ''unsupported message role'')
         | Some r \<Rightarrow> Inr r))"

text \<open>\<open>any(..)\<close> over the blocks of a message, which stops at the first tool block.\<close>

fun any_tool_block :: "json list \<Rightarrow> bool result" where
  "any_tool_block [] = Inr False"
| "any_tool_block (JObj block # bs) =
     bindr (in_set (oget block ''type'') [S ''tool_use'', S ''tool_result'']) (\<lambda>b.
     if b then Inr True else any_tool_block bs)"
| "any_tool_block (_ # bs) = any_tool_block bs"

definition has_tool_blocks :: "json \<Rightarrow> bool result" where
  "has_tool_blocks content = (case content of JList bs \<Rightarrow> any_tool_block bs | _ \<Rightarrow> Inr False)"

definition tool_use_turn :: "string \<Rightarrow> obj \<Rightarrow> turn result" where
  "tool_use_turn role block =
     (if role \<noteq> ''assistant'' then Inl (unsupported (u ''tool_use'') ''requires assistant role'')
      else
        bindr (check_fields block [''type'', ''id'', ''name'', ''input''] ''tool_use'') (\<lambda>_.
        bindr (cross_call (oget block ''id'') (oget block ''name'') (oget block ''input'')) (\<lambda>c.
        Inr (call_turn c))))"

definition tool_result_turn :: "string \<Rightarrow> obj \<Rightarrow> turn result" where
  "tool_result_turn role block =
     (if role \<noteq> ''user'' then Inl (unsupported (u ''tool_result'') ''requires user role'')
      else
        bindr (check_fields block [''type'', ''tool_use_id'', ''content'', ''is_error''] ''tool_result'') (\<lambda>_.
        bindr (in_none_false (oget block ''is_error'')) (\<lambda>fine.
        if \<not> fine then Inl (unsupported (u ''tool_result.is_error'') ''no equivalent error marker'')
        else
          bindr (required_string (oget block ''tool_use_id'') ''tool_use_id'') (\<lambda>i.
          bindr (text_content (if ohas block ''content'' then oget block ''content'' else S '''')) (\<lambda>t.
          Inr (Result i t))))))"

definition block_turn :: "string \<Rightarrow> json \<Rightarrow> turn result" where
  "block_turn role v =
     (case v of
        JObj block \<Rightarrow>
          if oget block ''type'' = S ''tool_use'' then tool_use_turn role block
          else if oget block ''type'' = S ''tool_result'' then tool_result_turn role block
          else bindr (text_content (JList [v])) (\<lambda>t. Inr (Turn role (Some t) []))
      | _ \<Rightarrow> Inl (unsupported (u ''content'') ''invalid block''))"

definition chat_history_call :: "json \<Rightarrow> turn_call result" where
  "chat_history_call v =
     (case v of
        JObj call \<Rightarrow>
          (case oget call ''function'' of
             JObj f \<Rightarrow>
               if oget call ''type'' \<noteq> S ''function''
               then Inl (unsupported (u ''tool_call'') ''only function calls convert'')
               else
                 bindr (check_fields call [''id'', ''type'', ''function''] ''tool_call'') (\<lambda>_.
                 bindr (check_fields f [''name'', ''arguments''] ''function'') (\<lambda>_.
                 cross_call (oget call ''id'') (oget f ''name'') (oget f ''arguments'')))
           | _ \<Rightarrow> Inl (unsupported (u ''tool_call'') ''only function calls convert''))
      | _ \<Rightarrow> Inl (unsupported (u ''tool_call'') ''only function calls convert''))"

definition plain_turn :: "string \<Rightarrow> obj \<Rightarrow> turn result" where
  "plain_turn role item =
     (let content = oget item ''content''; tool_calls = oget item ''tool_calls''
      in bindr (if content = JNull \<and> role = ''assistant'' \<and> truthy tool_calls then Inr None
                else bindr (text_content content) (\<lambda>t. Inr (Some t))) (\<lambda>text.
         bindr (if \<not> truthy tool_calls then Inr []
                else
                  (case tool_calls of
                     JList calls \<Rightarrow>
                       if role \<noteq> ''assistant''
                       then Inl (unsupported (u ''tool_calls'') ''requires assistant call array'')
                       else mapr chat_history_call calls
                   | _ \<Rightarrow> Inl (unsupported (u ''tool_calls'') ''requires assistant call array''))) (\<lambda>calls.
         Inr (Turn (if role = ''developer'' then ''system'' else role) text calls))))"

definition message_turns :: "obj \<Rightarrow> turn list result" where
  "message_turns item =
     bindr (check_fields item
       [''type'', ''id'', ''status'', ''role'', ''content'', ''tool_calls'', ''tool_call_id''] ''message'') (\<lambda>_.
     bindr (completed item ''message.status'') (\<lambda>_.
     bindr (checked_role (oget item ''role'')) (\<lambda>role.
     if role = ''tool'' then
       bindr (required_string (oget item ''tool_call_id'') ''tool_call_id'') (\<lambda>i.
       bindr (text_content (oget item ''content'')) (\<lambda>t. Inr [Result i t]))
     else
       bindr (has_tool_blocks (oget item ''content'')) (\<lambda>tools.
       if tools then
         (if truthy (oget item ''tool_calls'')
          then Inl (unsupported (u ''tool_calls'') ''mixed protocol tool representations'')
          else
            (case oget item ''content'' of
               JList blocks \<Rightarrow> mapr (block_turn role) blocks
             | _ \<Rightarrow> Inr []))
       else bindr (plain_turn role item) (\<lambda>t. Inr [t])))))"

definition item_turns :: "json \<Rightarrow> turn list result" where
  "item_turns v =
     (case v of
        JObj item \<Rightarrow>
          (let kind = oget item ''type''
           in if kind = S ''function_call'' then bindr (function_call_turn item) (\<lambda>t. Inr [t])
              else if kind = S ''function_call_output'' then bindr (function_output_turn item) (\<lambda>t. Inr [t])
              else
                bindr (in_set kind [JNull, S ''message'']) (\<lambda>known.
                if \<not> known then Inl (unsupported (u ''context.type'') ''no equivalent history item'')
                else message_turns item))
      | _ \<Rightarrow> Inl (unsupported (u ''context'') ''invalid item''))"

definition instruction_turns :: "obj \<Rightarrow> turn list result" where
  "instruction_turns normalized =
     bindr (case oget normalized ''instructions'' of
              JNull \<Rightarrow> Inr []
            | JStr s \<Rightarrow> Inr (if s = [] then [] else [Turn ''system'' (Some s) []])
            | _ \<Rightarrow> Inl (unsupported (u ''instructions'') ''must be a string'')) (\<lambda>ts.
     if truthy (oget normalized ''system_blocks'')
     then bindr (text_content (oget normalized ''system_blocks'')) (\<lambda>t. Inr (ts @ [Turn ''system'' (Some t) []]))
     else Inr ts)"

text \<open>Adjacent messages of the assistant become one.\<close>

definition some_text :: "ustr option \<Rightarrow> ustr list" where
  "some_text t = (case t of None \<Rightarrow> [] | Some s \<Rightarrow> if s = [] then [] else [s])"

fun absorb :: "turn \<Rightarrow> turn \<Rightarrow> turn option" where
  "absorb (Turn r c cs) (Turn r' c' cs') =
     (if r = ''assistant'' \<and> r' = ''assistant''
      then Some (Turn r (if truthy_text c' then Some (join [10] (some_text c @ some_text c')) else c) (cs @ cs'))
      else None)"
| "absorb _ _ = None"

fun merge_onto :: "turn list \<Rightarrow> turn \<Rightarrow> turn list" where
  "merge_onto merged message =
     (if merged = [] then [message]
      else
        (case absorb (last merged) message of
           None \<Rightarrow> merged @ [message]
         | Some t \<Rightarrow> butlast merged @ [t]))"

definition context_to_chat_messages :: "obj \<Rightarrow> turn list result" where
  "context_to_chat_messages normalized =
     bindr (instruction_turns normalized) (\<lambda>head.
     bindr (iterate (or_else (oget normalized ''context'') (JList []))) (\<lambda>items.
     bindr (mapr item_turns items) (\<lambda>tss.
     Inr (foldl merge_onto [] (head @ concat tss)))))"

definition call_obj :: "turn_call \<Rightarrow> obj" where
  "call_obj c = [(u ''name'', JStr (tc_name c)), (u ''arguments'', JStr (tc_arguments c))]"

fun turn_json :: "turn \<Rightarrow> json" where
  "turn_json (Turn role content calls) =
     JObj ([(u ''role'', S role), (u ''content'', json_opt content)] @
       (if calls = [] then []
        else [(u ''tool_calls'', JList (map (\<lambda>c. JObj [(u ''id'', JStr (tc_id c)), (u ''type'', S ''function''),
                (u ''function'', JObj (call_obj c))]) calls))]))"
| "turn_json (Result i t) =
     JObj [(u ''role'', S ''tool''), (u ''tool_call_id'', JStr i), (u ''content'', JStr t)]"

section \<open>To Responses\<close>

fun turn_items :: "turn \<Rightarrow> json list" where
  "turn_items (Result i t) =
     [JObj [(u ''type'', S ''function_call_output''), (u ''call_id'', JStr i), (u ''output'', JStr t)]]"
| "turn_items (Turn role content calls) =
     (case content of
        None \<Rightarrow> []
      | Some t \<Rightarrow> [JObj [(u ''type'', S ''message''), (u ''role'', S role), (u ''content'', JStr t)]]) @
     map (\<lambda>c. JObj ([(u ''type'', S ''function_call''), (u ''call_id'', JStr (tc_id c))] @ call_obj c)) calls"

definition messages_to_responses :: "turn list \<Rightarrow> json list" where
  "messages_to_responses ts = concat (map turn_items ts)"

section \<open>To Anthropic\<close>

definition use_block :: "turn_call \<Rightarrow> json result" where
  "use_block c =
     bindr (arguments_object (JStr (tc_arguments c))) (\<lambda>d.
     Inr (JObj [(u ''type'', S ''tool_use''), (u ''id'', JStr (tc_id c)), (u ''name'', JStr (tc_name c)),
       (u ''input'', JObj d)]))"

fun turn_blocks :: "turn \<Rightarrow> (string \<times> json list) result" where
  "turn_blocks (Result i t) =
     Inr (''user'', [JObj [(u ''type'', S ''tool_result''), (u ''tool_use_id'', JStr i), (u ''content'', JStr t)]])"
| "turn_blocks (Turn role content calls) =
     bindr (mapr use_block calls) (\<lambda>uses.
     Inr (role, map text_block (some_text content) @ uses))"

definition push_blocks :: "(string \<times> json list) list \<Rightarrow> string \<times> json list \<Rightarrow> (string \<times> json list) list" where
  "push_blocks result m =
     (if result \<noteq> [] \<and> fst (last result) = fst m
      then butlast result @ [(fst m, snd (last result) @ snd m)]
      else result @ [m])"

fun is_system :: "turn \<Rightarrow> bool" where
  "is_system (Turn role content calls) = (role = ''system'')"
| "is_system (Result i t) = False"

fun turn_text :: "turn \<Rightarrow> ustr" where
  "turn_text (Turn role content calls) = text_of_opt content"
| "turn_text (Result i t) = t"

fun to_anthropic_turns ::
  "turn list \<Rightarrow> (string \<times> json list) list \<Rightarrow> ustr list \<Rightarrow> ((string \<times> json list) list \<times> ustr list) result" where
  "to_anthropic_turns [] result system = Inr (result, system)"
| "to_anthropic_turns (t # ts) result system =
     (if is_system t then
        (if result \<noteq> []
         then Inl (unsupported (u ''system'') ''system instructions after dialogue cannot be promoted'')
         else to_anthropic_turns ts result (system @ [turn_text t]))
      else bindr (turn_blocks t) (\<lambda>m. to_anthropic_turns ts (push_blocks result m) system))"

text \<open>A message whose only block is a text carries the text itself.\<close>

definition anthropic_message :: "string \<times> json list \<Rightarrow> json" where
  "anthropic_message m =
     JObj [(u ''role'', S (fst m)),
       (u ''content'',
          (case snd m of
             [JObj b] \<Rightarrow> if oget b ''type'' = S ''text'' then oget b ''text'' else JList (snd m)
           | _ \<Rightarrow> JList (snd m)))]"

definition messages_to_anthropic :: "turn list \<Rightarrow> (json list \<times> ustr option) result" where
  "messages_to_anthropic ts =
     bindr (to_anthropic_turns ts [] []) (\<lambda>(result, system).
     Inr (map anthropic_message result, if system = [] then None else Some (join [10, 10] system)))"

section \<open>What a conversion keeps\<close>

definition blocks_of_message :: "json \<Rightarrow> json list" where
  "blocks_of_message m =
     (case oget (obj_of m) ''content'' of JStr t \<Rightarrow> [text_block t] | JList bs \<Rightarrow> bs | _ \<Rightarrow> [])"

definition turn_blocks_list :: "turn \<Rightarrow> json list" where
  "turn_blocks_list t = (case turn_blocks t of Inr m \<Rightarrow> snd m | Inl e \<Rightarrow> [])"

text \<open>A text block is a dictionary of exactly \<open>type\<close> and \<open>text\<close>; the other blocks have another type.\<close>

definition clean_block :: "json \<Rightarrow> bool" where
  "clean_block v \<longleftrightarrow> (\<exists>t. v = text_block t) \<or> oget (obj_of v) ''type'' \<noteq> S ''text''"

lemma turn_blocks_clean: "turn_blocks t = Inr m \<Longrightarrow> list_all clean_block (snd m)"
proof (cases t)
  case (Turn role content calls)
  assume "turn_blocks t = Inr m"
  then obtain uses where uses: "mapr use_block calls = Inr uses" "snd m = map text_block (some_text content) @ uses"
    using Turn by (auto simp: bindr_Inr_iff)
  have "clean_block v" if mem: "v \<in> set uses" for v
  proof -
    obtain c where "use_block c = Inr v" using mapr_member [OF uses(1) mem] by blast
    then have "oget (obj_of v) ''type'' = S ''tool_use''" by (auto simp: use_block_def bindr_Inr_iff)
    then show ?thesis by (simp add: clean_block_def)
  qed
  moreover have "clean_block (text_block t)" for t by (auto simp: clean_block_def)
  ultimately show ?thesis by (auto simp: uses(2) list_all_iff)
qed (auto simp: clean_block_def)

lemma blocks_of_anthropic_message:
  assumes "list_all clean_block (snd m)"
  shows "blocks_of_message (anthropic_message m) = snd m"
proof (cases "\<exists>b. snd m = [JObj b] \<and> oget b ''type'' = S ''text''")
  case True
  then obtain b where b: "snd m = [JObj b]" "oget b ''type'' = S ''text''" by blast
  then obtain t where "JObj b = text_block t" using assms by (auto simp: clean_block_def)
  then have "b = [(u ''type'', S ''text''), (u ''text'', JStr t)]" by (simp add: text_block_def)
  with b show ?thesis by (simp add: anthropic_message_def blocks_of_message_def text_block_def)
next
  case False
  then show ?thesis
    by (auto simp: anthropic_message_def blocks_of_message_def split: list.split json.split)
qed

definition alternating :: "(string \<times> json list) list \<Rightarrow> bool" where
  "alternating ms \<longleftrightarrow> (\<forall>i. Suc i < length ms \<longrightarrow> fst (ms ! i) \<noteq> fst (ms ! Suc i))"

lemma alternating_snoc:
  "alternating (ms @ [m]) \<longleftrightarrow> alternating ms \<and> (ms \<noteq> [] \<longrightarrow> fst (last ms) \<noteq> fst m)"
  unfolding alternating_def
proof (intro iffI conjI allI impI)
  assume a: "\<forall>i. Suc i < length (ms @ [m]) \<longrightarrow> fst ((ms @ [m]) ! i) \<noteq> fst ((ms @ [m]) ! Suc i)"
  { fix i assume "Suc i < length ms"
    with a [rule_format, of i] show "fst (ms ! i) \<noteq> fst (ms ! Suc i)" by (simp add: nth_append) }
  { assume "ms \<noteq> []"
    with a [rule_format, of "length ms - 1"] show "fst (last ms) \<noteq> fst m"
      by (simp add: nth_append last_conv_nth) }
next
  fix i assume h: "(\<forall>i. Suc i < length ms \<longrightarrow> fst (ms ! i) \<noteq> fst (ms ! Suc i)) \<and> (ms \<noteq> [] \<longrightarrow> fst (last ms) \<noteq> fst m)"
    "Suc i < length (ms @ [m])"
  show "fst ((ms @ [m]) ! i) \<noteq> fst ((ms @ [m]) ! Suc i)"
  proof (cases "Suc i < length ms")
    case True
    with h show ?thesis by (simp add: nth_append)
  next
    case False
    with h(2) have "i = length ms - 1" "ms \<noteq> []" by auto
    with h(1) show ?thesis by (simp add: nth_append last_conv_nth)
  qed
qed

lemma alternating_push:
  assumes "alternating ms"
  shows "alternating (push_blocks ms m)"
proof (cases "ms \<noteq> [] \<and> fst (last ms) = fst m")
  case True
  then have "alternating (butlast ms @ [last ms])" using assms by simp
  then have "alternating (butlast ms) \<and> (butlast ms \<noteq> [] \<longrightarrow> fst (last (butlast ms)) \<noteq> fst m)"
    using True by (simp only: alternating_snoc) simp
  with True show ?thesis by (simp add: push_blocks_def alternating_snoc)
next
  case False
  with assms show ?thesis by (auto simp: push_blocks_def alternating_snoc)
qed

lemma push_blocks_concat: "concat (map snd (push_blocks ms m)) = concat (map snd ms) @ snd m"
  by (cases ms rule: rev_cases) (auto simp: push_blocks_def)

lemma push_blocks_clean:
  "list_all (\<lambda>x. list_all clean_block (snd x)) ms \<Longrightarrow> list_all clean_block (snd m) \<Longrightarrow>
   list_all (\<lambda>x. list_all clean_block (snd x)) (push_blocks ms m)"
  by (cases ms rule: rev_cases) (auto simp: push_blocks_def)

text \<open>Once the dialogue began, no system turn follows.\<close>

lemma no_late_system:
  "to_anthropic_turns ts q sys = Inr z \<Longrightarrow> q \<noteq> [] \<Longrightarrow> list_all (\<lambda>t. \<not> is_system t) ts"
proof (induction ts q sys rule: to_anthropic_turns.induct)
  case (2 t ts q sys)
  show ?case
  proof (cases "is_system t")
    case True
    with "2.prems" show ?thesis by simp
  next
    case False
    then obtain m where m: "turn_blocks t = Inr m" "to_anthropic_turns ts (push_blocks q m) sys = Inr z"
      using "2.prems"(1) by (auto simp: bindr_Inr_iff)
    have "push_blocks q m \<noteq> []" by (simp add: push_blocks_def)
    with "2.IH"(2) [OF False m] False show ?thesis by simp
  qed
qed simp

definition anthropic_result :: "turn list \<Rightarrow> (string \<times> json list) list \<Rightarrow> ustr list \<Rightarrow>
    (string \<times> json list) list \<Rightarrow> ustr list \<Rightarrow> bool" where
  "anthropic_result ts ms sys ms' sys' \<longleftrightarrow>
     alternating ms' \<and> list_all (\<lambda>x. list_all clean_block (snd x)) ms' \<and>
     concat (map snd ms') = concat (map snd ms) @ concat (map turn_blocks_list (filter (\<lambda>t. \<not> is_system t) ts)) \<and>
     sys' = sys @ map turn_text (filter is_system ts) \<and>
     list_all (\<lambda>t. \<not> is_system t) (dropWhile is_system ts)"

lemma dropWhile_none: "list_all (\<lambda>t. \<not> P t) ts \<Longrightarrow> dropWhile P ts = ts"
  by (cases ts) auto

lemma to_anthropic_turns_ok:
  "to_anthropic_turns ts ms sys = Inr (ms', sys') \<Longrightarrow> alternating ms \<Longrightarrow>
    list_all (\<lambda>x. list_all clean_block (snd x)) ms \<Longrightarrow> anthropic_result ts ms sys ms' sys'"
proof (induction ts ms sys rule: to_anthropic_turns.induct)
  case (1 ms sys)
  then show ?case by (simp add: anthropic_result_def)
next
  case (2 t ts ms sys)
  show ?case
  proof (cases "is_system t")
    case True
    then have e: "ms = []" and r: "to_anthropic_turns ts ms (sys @ [turn_text t]) = Inr (ms', sys')"
      using "2.prems"(1) by (auto split: if_splits)
    have "\<not> ms \<noteq> []" using e by simp
    from "2.IH"(1) [OF True this r "2.prems"(2,3)] True show ?thesis by (simp add: anthropic_result_def)
  next
    case False
    then obtain m where m: "turn_blocks t = Inr m" and r: "to_anthropic_turns ts (push_blocks ms m) sys = Inr (ms', sys')"
      using "2.prems"(1) by (auto simp: bindr_Inr_iff)
    have a: "alternating (push_blocks ms m)" by (rule alternating_push [OF "2.prems"(2)])
    have c: "list_all (\<lambda>x. list_all clean_block (snd x)) (push_blocks ms m)"
      by (rule push_blocks_clean [OF "2.prems"(3) turn_blocks_clean [OF m]])
    have "push_blocks ms m \<noteq> []" by (simp add: push_blocks_def)
    then have late: "list_all (\<lambda>t. \<not> is_system t) ts" by (rule no_late_system [OF r])
    have bl: "turn_blocks_list t = snd m" by (simp add: turn_blocks_list_def m)
    from "2.IH"(2) [OF False m r a c] late False bl show ?thesis
      by (simp add: anthropic_result_def push_blocks_concat dropWhile_none)
  qed
qed

lemma role_of_message [simp]: "oget (obj_of (anthropic_message m)) ''role'' = S (fst m)"
  by (simp add: anthropic_message_def)


definition sample_turns :: "turn list" where
  "sample_turns = [Turn ''system'' (Some (u ''s'')) [], Turn ''user'' (Some (u ''q'')) [],
     Turn ''assistant'' None [\<lparr>tc_id = u ''1'', tc_name = u ''f'', tc_arguments = u ''[]''\<rparr>]]"


end
