(* ===== verification/Cross_History.thy ===== *)
theory Cross_History
  imports Cross_Messages
begin

text \<open>
  What holds of every history that \<open>context_to_chat_messages\<close> accepts, and the round trip of such
  a history through the items of a Responses request.
\<close>

section \<open>Well-formed turns\<close>

definition good_turn_call :: "turn_call \<Rightarrow> bool" where
  "good_turn_call c \<longleftrightarrow> \<not> blank (tc_id c) \<and> \<not> blank (tc_name c) \<and> (\<exists>d. tc_arguments c = dumps (JObj d))"

fun good_turn :: "turn \<Rightarrow> bool" where
  "good_turn (Turn role content calls) \<longleftrightarrow>
     role \<in> {''system'', ''user'', ''assistant''} \<and> list_all good_turn_call calls \<and>
     (calls \<noteq> [] \<longrightarrow> role = ''assistant'') \<and> (content = None \<longrightarrow> calls \<noteq> [])"
| "good_turn (Result i t) \<longleftrightarrow> \<not> blank i"

fun is_assistant :: "turn \<Rightarrow> bool" where
  "is_assistant (Turn role content calls) = (role = ''assistant'')"
| "is_assistant (Result i t) = False"

definition merged :: "turn list \<Rightarrow> bool" where
  "merged ts \<longleftrightarrow> successively (\<lambda>a b. \<not> (is_assistant a \<and> is_assistant b)) ts"

lemma required_string_Inr: "required_string v l = Inr s \<longleftrightarrow> v = JStr s \<and> \<not> blank s"
  by (auto simp: required_string_def split: json.splits)

lemma cross_call_good: "cross_call i n a = Inr c \<Longrightarrow> good_turn_call c"
  by (auto simp: cross_call_def bindr_Inr_iff required_string_Inr good_turn_call_def)

lemma call_turn_good: "good_turn_call c \<Longrightarrow> good_turn (call_turn c)"
  by (simp add: call_turn_def)

lemma checked_role_cases:
  "checked_role v = Inr r \<Longrightarrow> r \<in> {''system'', ''developer'', ''user'', ''assistant'', ''tool''}"
proof -
  assume "checked_role v = Inr r"
  then have "role_of v = Some r" by (simp add: checked_role_def split: if_splits option.splits)
  then obtain s where "find (\<lambda>r. u r = s) [''system'', ''developer'', ''user'', ''assistant'', ''tool''] = Some r"
    by (cases v) auto
  from find_SomeD [OF this] show ?thesis by simp
qed

lemma function_call_good: "function_call_turn item = Inr t \<Longrightarrow> good_turn t"
  by (auto simp: function_call_turn_def bindr_Inr_iff intro!: call_turn_good cross_call_good)

lemma function_output_good: "function_output_turn item = Inr t \<Longrightarrow> good_turn t"
  by (auto simp: function_output_turn_def bindr_Inr_iff required_string_Inr)

lemma block_turn_good:
  assumes "block_turn role v = Inr t" "role \<in> {''system'', ''user'', ''assistant''}"
  shows "good_turn t"
proof (cases v)
  case (JObj block)
  show ?thesis
  proof (cases "oget block ''type'' = S ''tool_use''")
    case True
    with assms JObj show ?thesis
      by (auto simp: block_turn_def tool_use_turn_def bindr_Inr_iff intro!: call_turn_good cross_call_good split: if_splits)
  next
    case False
    with assms JObj show ?thesis
      by (auto simp: block_turn_def tool_result_turn_def bindr_Inr_iff required_string_Inr split: if_splits)
  qed
qed (use assms in \<open>auto simp: block_turn_def\<close>)

lemma history_call_good: "chat_history_call v = Inr c \<Longrightarrow> good_turn_call c"
  by (auto simp: chat_history_call_def bindr_Inr_iff intro: cross_call_good split: json.splits if_splits)

lemma plain_turn_good:
  assumes "plain_turn role item = Inr t" "role \<in> {''system'', ''developer'', ''user'', ''assistant''}"
  shows "good_turn t"
proof -
  define tc where "tc = oget item ''tool_calls''"
  obtain body calls where t: "t = Turn (if role = ''developer'' then ''system'' else role) body calls"
    and body: "body = None \<Longrightarrow> role = ''assistant'' \<and> truthy tc"
    and calls: "(if \<not> truthy tc then Inr [] else
        (case tc of JList cs \<Rightarrow> if role \<noteq> ''assistant''
             then Inl (unsupported (u ''tool_calls'') ''requires assistant call array'') else mapr chat_history_call cs
         | _ \<Rightarrow> Inl (unsupported (u ''tool_calls'') ''requires assistant call array''))) = Inr calls"
    using assms(1) unfolding plain_turn_def Let_def tc_def [symmetric]
    by (auto simp: bindr_Inr_iff split: if_splits)
  show ?thesis
  proof (cases "truthy tc")
    case False
    with calls body t assms(2) show ?thesis by auto
  next
    case True
    then obtain cs where cs: "tc = JList cs" "role = ''assistant''" "mapr chat_history_call cs = Inr calls"
      using calls by (cases tc) (auto split: if_splits)
    have "calls \<noteq> []" using True cs mapr_length [OF cs(3)] by auto
    moreover have "list_all good_turn_call calls"
      using mapr_member [OF cs(3)] history_call_good by (auto simp: list_all_iff)
    ultimately show ?thesis using t cs(2) by simp
  qed
qed

lemma any_tool_block_member:
  "any_tool_block bs = Inr True \<Longrightarrow>
   \<exists>b. JObj b \<in> set bs \<and> (oget b ''type'' = S ''tool_use'' \<or> oget b ''type'' = S ''tool_result'')"
  by (induction bs rule: any_tool_block.induct) (auto simp: bindr_Inr_iff in_set_def split: if_splits)

text \<open>A message with tool blocks comes from the user or the assistant.\<close>

lemma tool_blocks_role:
  assumes "any_tool_block bs = Inr True" "mapr (block_turn role) bs = Inr ts"
  shows "role \<in> {''user'', ''assistant''}"
proof -
  obtain b where b: "JObj b \<in> set bs" "oget b ''type'' = S ''tool_use'' \<or> oget b ''type'' = S ''tool_result''"
    using any_tool_block_member [OF assms(1)] by blast
  have "\<exists>t. block_turn role (JObj b) = Inr t"
    using assms(2) b(1) by (induction bs arbitrary: ts) (auto simp: bindr_Inr_iff)
  with b(2) show ?thesis
    by (auto simp: block_turn_def tool_use_turn_def tool_result_turn_def split: if_splits)
qed

lemma message_turns_good:
  assumes "message_turns item = Inr ts"
  shows "list_all good_turn ts"
proof -
  obtain role where r: "checked_role (oget item ''role'') = Inr role"
    and k: "(if role = ''tool'' then
       bindr (required_string (oget item ''tool_call_id'') ''tool_call_id'') (\<lambda>i.
       bindr (text_content (oget item ''content'')) (\<lambda>t. Inr [Result i t]))
     else
       bindr (has_tool_blocks (oget item ''content'')) (\<lambda>tools.
       if tools then
         (if truthy (oget item ''tool_calls'')
          then Inl (unsupported (u ''tool_calls'') ''mixed protocol tool representations'')
          else (case oget item ''content'' of JList blocks \<Rightarrow> mapr (block_turn role) blocks | _ \<Rightarrow> Inr []))
       else bindr (plain_turn role item) (\<lambda>t. Inr [t]))) = Inr ts"
    using assms unfolding message_turns_def by (auto simp only: bindr_Inr_iff)
  have roles: "role \<in> {''system'', ''developer'', ''user'', ''assistant'', ''tool''}" by (rule checked_role_cases [OF r])
  show ?thesis
  proof (cases "role = ''tool''")
    case True
    with k show ?thesis by (auto simp: bindr_Inr_iff required_string_Inr)
  next
    case False
    then obtain tools where tb: "has_tool_blocks (oget item ''content'') = Inr tools" and tools: "(if tools then
         (if truthy (oget item ''tool_calls'')
          then Inl (unsupported (u ''tool_calls'') ''mixed protocol tool representations'')
          else (case oget item ''content'' of JList blocks \<Rightarrow> mapr (block_turn role) blocks | _ \<Rightarrow> Inr []))
       else bindr (plain_turn role item) (\<lambda>t. Inr [t])) = Inr ts"
      using k by (auto simp: bindr_Inr_iff)
    show ?thesis
    proof (cases tools)
      case False
      with tools \<open>role \<noteq> ''tool''\<close> roles plain_turn_good show ?thesis by (auto simp: bindr_Inr_iff)
    next
      case True
      then have any: "has_tool_blocks (oget item ''content'') = Inr True" using k \<open>role \<noteq> ''tool''\<close> tb by simp
      then obtain bs where bs: "oget item ''content'' = JList bs" "any_tool_block bs = Inr True"
        by (cases "oget item ''content''") (auto simp: has_tool_blocks_def)
      have m: "mapr (block_turn role) bs = Inr ts" using tools True bs(1) by (simp split: if_splits)
      have "role \<in> {''system'', ''user'', ''assistant''}" using tool_blocks_role [OF bs(2) m] by blast
      then have "good_turn t" if "t \<in> set ts" for t
        using mapr_member [OF m that] block_turn_good by blast
      then show ?thesis by (simp add: list_all_iff)
    qed
  qed
qed

lemma item_turns_good: "item_turns v = Inr ts \<Longrightarrow> list_all good_turn ts"
  by (auto simp: item_turns_def Let_def bindr_Inr_iff function_call_good function_output_good message_turns_good
      split: json.splits if_splits)

lemma instruction_turns_good: "instruction_turns n = Inr ts \<Longrightarrow> list_all good_turn ts"
  by (auto simp: instruction_turns_def bindr_Inr_iff split: json.splits if_splits)

lemma absorb_good:
  assumes "absorb a b = Some t" "good_turn a" "good_turn b"
  shows "good_turn t \<and> is_assistant a \<and> is_assistant b \<and> is_assistant t"
proof -
  obtain r c cs r' c' cs' where ab: "a = Turn r c cs" "b = Turn r' c' cs'"
    using assms(1) by (cases a; cases b) auto
  then show ?thesis using assms by (auto split: if_splits)
qed

lemma absorb_None: "absorb a b = None \<longleftrightarrow> \<not> (is_assistant a \<and> is_assistant b)"
  by (cases a; cases b) auto

lemma merged_snoc: "merged (ts @ [t]) \<longleftrightarrow> merged ts \<and> (ts \<noteq> [] \<longrightarrow> \<not> (is_assistant (last ts) \<and> is_assistant t))"
  by (auto simp: merged_def successively_append_iff)

lemma merge_onto_good:
  assumes "list_all good_turn ts" "merged ts" "good_turn t"
  shows "list_all good_turn (merge_onto ts t) \<and> merged (merge_onto ts t)"
proof (cases ts rule: rev_cases)
  case Nil
  then show ?thesis using assms by (simp add: merged_def)
next
  case (snoc ys y)
  show ?thesis
  proof (cases "absorb y t")
    case None
    then have "merge_onto ts t = ts @ [t]" using snoc by simp
    moreover have "\<not> (is_assistant y \<and> is_assistant t)" using None absorb_None by blast
    then have "merged (ts @ [t])" unfolding merged_snoc using snoc assms(2) by simp
    ultimately show ?thesis using assms(1,3) by (simp del: merge_onto.simps)
  next
    case (Some z)
    then have "merge_onto ts t = ys @ [z]" using snoc by simp
    moreover have "good_turn z \<and> is_assistant y \<and> is_assistant z" using absorb_good [OF Some] snoc assms by simp
    ultimately show ?thesis using snoc assms by (simp add: merged_snoc del: merge_onto.simps)
  qed
qed

lemma merge_all_good:
  "list_all good_turn ts \<Longrightarrow> list_all good_turn acc \<Longrightarrow> merged acc \<Longrightarrow>
     list_all good_turn (foldl merge_onto acc ts) \<and> merged (foldl merge_onto acc ts)"
  by (induction ts arbitrary: acc) (simp_all add: merge_onto_good del: merge_onto.simps)

lemma context_turns_good:
  assumes "context_to_chat_messages n = Inr ts"
  shows "list_all good_turn ts \<and> merged ts"
proof -
  obtain head items tss where h: "instruction_turns n = Inr head" "mapr item_turns items = Inr tss"
      "ts = foldl merge_onto [] (head @ concat tss)"
    using assms by (auto simp: context_to_chat_messages_def bindr_Inr_iff)
  have "list_all good_turn (concat tss)"
    using mapr_member [OF h(2)] item_turns_good by (fastforce simp: list_all_iff)
  then have "list_all good_turn (head @ concat tss)" using instruction_turns_good [OF h(1)] by simp
  then show ?thesis unfolding h(3) by (rule merge_all_good) (simp_all add: merged_def)
qed

section \<open>Through the items of a Responses request\<close>

text \<open>What one turn becomes when its items are read again, before adjacent ones are merged.\<close>

fun split_turn :: "turn \<Rightarrow> turn list" where
  "split_turn (Turn role content calls) =
     (case content of None \<Rightarrow> [] | Some t \<Rightarrow> [Turn role (Some t) []]) @ map call_turn calls"
| "split_turn (Result i t) = [Result i t]"

definition stable_call :: "turn_call \<Rightarrow> bool" where
  "stable_call c \<longleftrightarrow> (\<exists>d. wf_json (JObj d) \<and> tc_arguments c = dumps (JObj d))"

fun turn_calls :: "turn \<Rightarrow> turn_call list" where
  "turn_calls (Turn role content calls) = calls"
| "turn_calls (Result i t) = []"

lemma check_fields_all: "\<forall>(k, v) \<in> set d. k \<in> set (map u allowed) \<Longrightarrow> check_fields d allowed l = Inr ()"
  by (induction d) auto

lemma read_call:
  assumes "good_turn_call c" "stable_call c"
  shows "item_turns (JObj ([(u ''type'', S ''function_call''), (u ''call_id'', JStr (tc_id c))] @ call_obj c)) =
    Inr [call_turn c]"
proof -
  obtain d where d: "wf_json (JObj d)" "tc_arguments c = dumps (JObj d)" using assms(2) by (auto simp: stable_call_def)
  have "cross_call (JStr (tc_id c)) (JStr (tc_name c)) (JStr (tc_arguments c)) = Inr c"
    using assms(1) loads_dumps [OF d(1)]
    by (simp add: cross_call_def required_string_def good_turn_call_def arguments_object_def object_only_def flip: d(2))
  then show ?thesis
    by (simp add: item_turns_def function_call_turn_def call_obj_def check_fields_all completed_def)
qed

lemma read_message:
  assumes "role \<in> {''system'', ''user'', ''assistant''}"
  shows "item_turns (JObj [(u ''type'', S ''message''), (u ''role'', S role), (u ''content'', JStr t)]) =
    Inr [Turn role (Some t) []]"
proof -
  have "checked_role (S role) = Inr role" "role \<noteq> ''tool''" "role \<noteq> ''developer''" using assms by (auto simp: checked_role_def)
  then show ?thesis
    by (simp add: item_turns_def message_turns_def completed_def has_tool_blocks_def plain_turn_def text_content_def)
qed

lemma read_result:
  "\<not> blank i \<Longrightarrow> item_turns (JObj [(u ''type'', S ''function_call_output''), (u ''call_id'', JStr i), (u ''output'', JStr t)]) =
    Inr [Result i t]"
  by (simp add: item_turns_def function_output_turn_def completed_def required_string_def text_content_def)

lemma concat_map_singleton: "concat (map (\<lambda>x. [x]) xs) = xs"
  by (induction xs) simp_all

lemma read_turn:
  assumes "good_turn t" "list_all stable_call (turn_calls t)"
  shows "mapr item_turns (turn_items t) = Inr (map (\<lambda>x. [x]) (split_turn t))"
proof (cases t)
  case (Result i x)
  then show ?thesis using assms by (simp add: read_result)
next
  case (Turn role content calls)
  have "mapr item_turns (map (\<lambda>c. JObj ([(u ''type'', S ''function_call''), (u ''call_id'', JStr (tc_id c))] @ call_obj c)) calls) =
      Inr (map (\<lambda>c. [call_turn c]) calls)"
    unfolding mapr_map using assms Turn by (intro mapr_all read_call) (auto simp: list_all_iff)
  then show ?thesis using assms Turn
    by (cases content) (simp_all add: mapr_append read_message comp_def)
qed

lemma read_turns:
  "list_all good_turn ts \<Longrightarrow> list_all (\<lambda>t. list_all stable_call (turn_calls t)) ts \<Longrightarrow>
   \<exists>tss. mapr item_turns (messages_to_responses ts) = Inr tss \<and> concat tss = concat (map split_turn ts)"
proof (induction ts)
  case Nil
  then show ?case by (simp add: messages_to_responses_def)
next
  case (Cons t ts)
  then obtain tss where "mapr item_turns (messages_to_responses ts) = Inr tss" "concat tss = concat (map split_turn ts)"
    by auto
  moreover have "mapr item_turns (turn_items t) = Inr (map (\<lambda>x. [x]) (split_turn t))"
    using Cons.prems by (intro read_turn) simp_all
  ultimately show ?case by (simp add: messages_to_responses_def mapr_append concat_map_singleton)
qed

text \<open>Merging puts the pieces of one turn together again.\<close>

lemma merge_calls: "foldl merge_onto (acc @ [Turn ''assistant'' c cs]) (map call_turn ds) = acc @ [Turn ''assistant'' c (cs @ ds)]"
  by (induction ds arbitrary: cs) (simp_all add: call_turn_def truthy_text_def)

lemma merge_split:
  assumes "good_turn t" "acc \<noteq> [] \<longrightarrow> \<not> (is_assistant (last acc) \<and> is_assistant t)"
  shows "foldl merge_onto acc (split_turn t) = acc @ [t]"
proof -
  have first: "merge_onto acc x = acc @ [x]" if "is_assistant x = is_assistant t" for x
    using assms(2) that by (cases acc rule: rev_cases) (simp_all add: absorb_None split: option.split)
  show ?thesis
  proof (cases t)
    case (Result i x)
    then show ?thesis using first [of t] by simp
  next
    case (Turn role content calls)
    show ?thesis
    proof (cases content)
      case (Some x)
      have f: "merge_onto acc (Turn role (Some x) []) = acc @ [Turn role (Some x) []]" using first Turn by simp
      show ?thesis
      proof (cases "calls = []")
        case True
        then show ?thesis using Turn Some f by simp
      next
        case False
        then have "role = ''assistant''" using assms(1) Turn by simp
        then show ?thesis using Turn Some f merge_calls [of acc "Some x" "[]" calls] by simp
      qed
    next
      case None
      then obtain d ds where ds: "calls = d # ds" "role = ''assistant''" using assms(1) Turn by (cases calls) auto
      then have "merge_onto acc (call_turn d) = acc @ [call_turn d]" using first Turn by (simp add: call_turn_def)
      then show ?thesis using Turn None ds merge_calls [of acc None "[d]" ds] by (simp add: call_turn_def)
    qed
  qed
qed

lemma merge_all_split:
  "list_all good_turn ts \<Longrightarrow> merged (acc @ ts) \<Longrightarrow> foldl merge_onto acc (concat (map split_turn ts)) = acc @ ts"
proof (induction ts arbitrary: acc)
  case (Cons t ts)
  have "merged ((acc @ [t]) @ ts)" using Cons.prems(2) by simp
  moreover have "acc \<noteq> [] \<longrightarrow> \<not> (is_assistant (last acc) \<and> is_assistant t)"
    using Cons.prems(2) by (auto simp: merged_def successively_append_iff)
  ultimately show ?case using Cons merge_split [of t acc] by (simp del: merge_onto.simps)
qed simp

text \<open>
  C28. A history converted for a Responses model is the same conversation: reading the items of
  the converted request again gives exactly the turns it was made from, with every text, call
  and result in its place; so forwarding through several gateways changes nothing.
\<close>

theorem responses_history_roundtrip:
  assumes "context_to_chat_messages normalized = Inr ts" "list_all (\<lambda>t. list_all stable_call (turn_calls t)) ts"
  shows "context_to_chat_messages [(u ''context'', JList (messages_to_responses ts))] = Inr ts"
proof -
  note g = context_turns_good [OF assms(1)]
  obtain tss where tss: "mapr item_turns (messages_to_responses ts) = Inr tss" "concat tss = concat (map split_turn ts)"
    using read_turns [OF g [THEN conjunct1] assms(2)] by blast
  have it: "iterate (or_else (JList xs) (JList [])) = Inr xs" for xs
    by (cases xs) (simp_all add: or_else_def iterate_def)
  have "foldl merge_onto [] (concat (map split_turn ts)) = ts" using merge_all_split [of ts "[]"] g by simp
  then show ?thesis
    by (simp add: context_to_chat_messages_def instruction_turns_def it tss)
qed

theorem responses_history_roundtrip_witness:
  "context_to_chat_messages [(u ''context'', JList (messages_to_responses
     [Turn ''user'' (Some (u ''q'')) [], Turn ''assistant'' None [\<lparr>tc_id = u ''1'', tc_name = u ''f'', tc_arguments = dumps (JObj [])\<rparr>]]))] =
   Inr [Turn ''user'' (Some (u ''q'')) [], Turn ''assistant'' None [\<lparr>tc_id = u ''1'', tc_name = u ''f'', tc_arguments = dumps (JObj [])\<rparr>]]"
proof -
  let ?c = "\<lparr>tc_id = u ''1'', tc_name = u ''f'', tc_arguments = dumps (JObj [])\<rparr>"
  let ?n = "[(u ''context'', JList [JObj [(u ''role'', S ''user''), (u ''content'', S ''q'')],
     JObj [(u ''type'', S ''function_call''), (u ''call_id'', S ''1''), (u ''name'', S ''f''), (u ''arguments'', JObj [])]])]"
  have nb: "\<not> blank (u ''1'')" "\<not> blank (u ''f'')"
    by (simp_all add: blank_def strip_def rstrip_def lstrip_def py_space_def u_def)
  have "context_to_chat_messages ?n = Inr [Turn ''user'' (Some (u ''q'')) [], Turn ''assistant'' None [?c]]"
    by (simp add: context_to_chat_messages_def instruction_turns_def or_else_def iterate_def item_turns_def
        message_turns_def completed_def checked_role_def has_tool_blocks_def plain_turn_def text_content_def
        function_call_turn_def cross_call_def required_string_def nb arguments_object_def object_only_def call_turn_def)
  moreover have "stable_call ?c" by (auto simp: stable_call_def intro!: exI [of _ "[]"])
  ultimately show ?thesis using responses_history_roundtrip by simp
qed

end
