(* ===== verification/Cross_Requests.thy ===== *)
theory Cross_Requests
  imports Cross_History Caller_Tools "HOL-Library.List_Lexorder"
begin

text \<open>
  A normalized request converted into the body of a request to a model of another protocol:
  tools, tool choice and parallel calls (\<open>app/protocols/cross_tools.py\<close>), sampling, stop
  sequences, output limit, user identifier and output format, and the three entry points
  (\<open>app/protocols/cross.py\<close>). The options of a normalized request are the dictionary its
  constructor built. The log record of a conversion is left out.
\<close>

section \<open>Tools\<close>

definition tool_function :: "json \<Rightarrow> obj result" where
  "tool_function v =
     (case v of
        JObj tool \<Rightarrow>
          if oget tool ''type'' = S ''function'' then
            (case oget tool ''function'' of
               JObj f \<Rightarrow>
                 bindr (check_fields tool [''type'', ''function''] ''tool'') (\<lambda>_.
                 bindr (check_fields f [''name'', ''description'', ''parameters'', ''strict''] ''function'') (\<lambda>_. Inr f))
             | _ \<Rightarrow>
                 bindr (check_fields tool [''type'', ''name'', ''description'', ''parameters'', ''strict''] ''tool'') (\<lambda>_.
                 Inr (odel tool ''type'')))
          else if ohas tool ''input_schema'' then
            bindr (in_set (oget tool ''type'') [JNull, S ''custom'']) (\<lambda>custom.
            if \<not> custom then Inl (unsupported (u ''tools'') ''managed/non-function tools have no equivalent'')
            else
              bindr (check_fields tool [''type'', ''name'', ''description'', ''input_schema''] ''tool'') (\<lambda>_.
              Inr ([(u ''name'', oget tool ''name''), (u ''parameters'', oget tool ''input_schema'')] @
                   (if oget tool ''description'' \<noteq> JNull then [(u ''description'', oget tool ''description'')] else []))))
          else Inl (unsupported (u ''tools'') ''managed/non-function tools have no equivalent'')
      | _ \<Rightarrow> Inl (unsupported (u ''tools'') ''invalid definition''))"

definition checked_function :: "json \<Rightarrow> obj result" where
  "checked_function v =
     bindr (tool_function v) (\<lambda>f.
     bindr (required_string (oget f ''name'') ''tool.name'') (\<lambda>_.
     if ohas f ''parameters'' \<and> \<not> is_obj (oget f ''parameters'')
     then Inl (unsupported (u ''tool.parameters'') ''must be a schema object'')
     else if oget f ''strict'' \<noteq> JNull \<and> \<not> is_bool (oget f ''strict'')
     then Inl (unsupported (u ''tool.strict'') ''must be boolean'')
     else Inr f))"

text \<open>\<open>tools_to_chat\<close>, as the list of the functions of the converted tools.\<close>

definition tools_to_chat :: "obj \<Rightarrow> obj list option result" where
  "tools_to_chat normalized =
     (case oget normalized ''tools'' of
        JNull \<Rightarrow> Inr None
      | JList tools \<Rightarrow> bindr (mapr checked_function tools) (\<lambda>fs. Inr (Some fs))
      | _ \<Rightarrow> Inl (unsupported (u ''tools'') ''must be an array''))"

definition chat_tool_json :: "obj \<Rightarrow> json" where
  "chat_tool_json f = JObj [(u ''type'', S ''function''), (u ''function'', JObj f)]"

definition anthropic_tool_json :: "obj \<Rightarrow> json result" where
  "anthropic_tool_json f =
     (if oget f ''strict'' = JBool True
      then Inl (unsupported (u ''tool.strict'') ''strict enforcement has no declared equivalent'')
      else
        Inr (JObj ([(u ''name'', oget f ''name''),
          (u ''input_schema'', if ohas f ''parameters'' then oget f ''parameters''
                              else JObj [(u ''type'', S ''object'')])] @
          (if oget f ''description'' \<noteq> JNull then [(u ''description'', oget f ''description'')] else []))))"

definition tools_to_anthropic :: "obj \<Rightarrow> json list result" where
  "tools_to_anthropic normalized =
     bindr (tools_to_chat normalized) (\<lambda>fs.
     mapr anthropic_tool_json (case fs of None \<Rightarrow> [] | Some fs \<Rightarrow> fs))"

section \<open>Tool choice\<close>

datatype choice = NoChoice | Word string | Named ustr

definition word_choice :: "json \<Rightarrow> choice result" where
  "word_choice v =
     (if v = S ''auto'' then Inr (Word ''auto'') else if v = S ''none'' then Inr (Word ''none'')
      else if v = S ''required'' then Inr (Word ''required'')
      else Inl (unsupported (u ''tool_choice'') ''no equivalent value''))"

definition object_choice :: "obj \<Rightarrow> choice result" where
  "object_choice choice =
     bindr (check_fields choice [''type'', ''name'', ''function'', ''disable_parallel_tool_use''] ''tool_choice'') (\<lambda>_.
     let kind = oget choice ''type''
     in bindr (in_set kind [S ''auto'', S ''none'', S ''any'']) (\<lambda>plain.
        if plain then
          (if oget choice ''name'' \<noteq> JNull \<or> oget choice ''function'' \<noteq> JNull
           then Inl (unsupported (u ''tool_choice'') ''unexpected named tool'')
           else word_choice (if kind = S ''any'' then S ''required'' else kind))
        else if kind = S ''function'' \<or> kind = S ''tool'' then
          bindr (case oget choice ''function'' of
                   JObj f \<Rightarrow> bindr (check_fields f [''name''] ''tool_choice.function'') (\<lambda>_. Inr (oget f ''name''))
                 | _ \<Rightarrow> Inr (oget choice ''name'')) (\<lambda>name.
          bindr (required_string name ''tool_choice.name'') (\<lambda>s. Inr (Named s)))
        else Inl (unsupported (u ''tool_choice'') ''no equivalent value'')))"

definition tool_choice_to_chat :: "obj \<Rightarrow> choice result" where
  "tool_choice_to_chat normalized =
     (case oget normalized ''tool_choice'' of
        JNull \<Rightarrow> Inr NoChoice
      | JStr s \<Rightarrow> word_choice (JStr s)
      | JObj d \<Rightarrow> object_choice d
      | _ \<Rightarrow> Inl (unsupported (u ''tool_choice'') ''must be a string or object''))"

fun chat_choice_json :: "choice \<Rightarrow> json" where
  "chat_choice_json NoChoice = JNull"
| "chat_choice_json (Word w) = S w"
| "chat_choice_json (Named s) = JObj [(u ''type'', S ''function''), (u ''function'', JObj [(u ''name'', JStr s)])]"

fun responses_choice_json :: "choice \<Rightarrow> json" where
  "responses_choice_json (Named s) = JObj [(u ''type'', S ''function''), (u ''name'', JStr s)]"
| "responses_choice_json c = chat_choice_json c"

text \<open>\<open>tool_choice_to_anthropic\<close>; \<open>None\<close> when there is no choice.\<close>

fun anthropic_choice_obj :: "choice \<Rightarrow> obj option" where
  "anthropic_choice_obj NoChoice = None"
| "anthropic_choice_obj (Word w) = Some [(u ''type'', S (if w = ''required'' then ''any'' else w))]"
| "anthropic_choice_obj (Named s) = Some [(u ''type'', S ''tool''), (u ''name'', JStr s)]"

definition options_of :: "obj \<Rightarrow> obj" where
  "options_of normalized = obj_of (or_else (oget normalized ''options'') (JObj []))"

definition parallel_allowed :: "obj \<Rightarrow> bool option result" where
  "parallel_allowed normalized =
     bindr (case oget (options_of normalized) ''parallel_tool_calls'' of
              JNull \<Rightarrow> Inr None | JBool b \<Rightarrow> Inr (Some b)
            | _ \<Rightarrow> Inl (unsupported (u ''parallel_tool_calls'') ''must be boolean'')) (\<lambda>value.
     (case oget normalized ''tool_choice'' of
        JObj choice \<Rightarrow>
          (case oget choice ''disable_parallel_tool_use'' of
             JNull \<Rightarrow> Inr value
           | JBool disabled \<Rightarrow>
               if value = Some disabled
               then Inl (unsupported (u ''parallel_tool_calls'') ''conflicting parallel controls'')
               else Inr (Some (\<not> disabled))
           | _ \<Rightarrow> Inl (unsupported (u ''disable_parallel_tool_use'') ''must be boolean''))
      | _ \<Rightarrow> Inr value))"

section \<open>Sampling, stop sequences, limits\<close>

definition sample_param :: "obj \<Rightarrow> string \<Rightarrow> int \<Rightarrow> obj result" where
  "sample_param options key limit =
     (let v = oget options key
      in if v = JNull then Inr []
         else if \<not> is_number v then Inl (unsupported (u key) ''must be numeric'')
         else if \<not> number_in v limit then Inl (unsupported (u key) ''outside target protocol range'')
         else Inr [(u key, v)])"

definition sample_params :: "obj \<Rightarrow> int \<Rightarrow> obj result" where
  "sample_params normalized max_temperature =
     bindr (sample_param (options_of normalized) ''temperature'' max_temperature) (\<lambda>a.
     bindr (sample_param (options_of normalized) ''top_p'' 1) (\<lambda>b. Inr (a @ b)))"

definition stop_array :: "json \<Rightarrow> json result" where
  "stop_array v = (if is_list v then Inr v else Inl (unsupported (u ''stop_sequences'') ''must be array''))"

definition stop_to_chat :: "obj \<Rightarrow> json result" where
  "stop_to_chat normalized =
     (let options = options_of normalized
      in if oget options ''stop'' \<noteq> JNull then Inr (oget options ''stop'')
         else if oget options ''stop_sequences'' \<noteq> JNull then stop_array (oget options ''stop_sequences'')
         else Inr JNull)"

definition stop_to_anthropic :: "obj \<Rightarrow> json result" where
  "stop_to_anthropic normalized =
     (let options = options_of normalized
      in if oget options ''stop_sequences'' \<noteq> JNull then stop_array (oget options ''stop_sequences'')
         else
           (case oget options ''stop'' of
              JNull \<Rightarrow> Inr JNull
            | JStr s \<Rightarrow> Inr (JList [JStr s])
            | JList xs \<Rightarrow> Inr (JList xs)
            | _ \<Rightarrow> Inl (unsupported (u ''stop'') ''must be string or array'')))"

definition limit_keys :: "string list" where
  "limit_keys = [''max_completion_tokens'', ''max_tokens'', ''max_output_tokens'']"

text \<open>The limit at the top level comes from the Anthropic constructor, which only stores an \<open>int\<close>.\<close>

definition output_limit :: "obj \<Rightarrow> int option result" where
  "output_limit normalized =
     (let options = options_of normalized;
          present = filter (\<lambda>k. oget options k \<noteq> JNull) limit_keys;
          top = oget normalized ''max_tokens'';
          extra = (if top \<noteq> JNull \<and> ''max_tokens'' \<notin> set present then 1 else 0)
      in if length present + extra > 1
         then Inl (unsupported (u ''output limit fields '' @ join (u '', '') (map u present))
                ''conflicting output limit fields in one request'')
         else
           (case present of
              k # ks \<Rightarrow>
                (case oget options k of
                   JInt n \<Rightarrow> if n \<le> 0 then Inl (unsupported (u k) ''must be a positive integer'') else Inr (Some n)
                 | _ \<Rightarrow> Inl (unsupported (u k) ''must be a positive integer''))
            | [] \<Rightarrow>
                (case top of
                   JNull \<Rightarrow> Inr None | JInt n \<Rightarrow> Inr (Some n) | _ \<Rightarrow> Inl (PyError TypeError))))"

section \<open>The user's identifier\<close>

definition metadata_user :: "json \<Rightarrow> json list result" where
  "metadata_user metadata =
     (case metadata of
        JNull \<Rightarrow> Inr []
      | JObj d \<Rightarrow>
          (let extra = filter (\<lambda>k. k \<noteq> u ''user_id'') (okeys d)
           in if extra \<noteq> []
              then Inl (unsupported (u ''metadata key '' @ [39] @ Min (set extra) @ [39])
                     ''only metadata.user_id has a cross-protocol equivalent'')
              else Inr (if oget d ''user_id'' \<noteq> JNull then [oget d ''user_id''] else []))
      | _ \<Rightarrow> Inl (unsupported (u ''metadata'') ''must be an object''))"

definition metadata_to_chat :: "obj \<Rightarrow> json option result" where
  "metadata_to_chat normalized =
     (let options = options_of normalized;
          given = filter (\<lambda>v. v \<noteq> JNull) [oget options ''user'', oget options ''safety_identifier'']
      in bindr (metadata_user (oget options ''metadata'')) (\<lambda>more.
         (case given @ more of
            [] \<Rightarrow> Inr None
          | i # is \<Rightarrow>
              if \<not> list_all is_str (i # is) \<or> list_ex (\<lambda>j. j \<noteq> i) is
              then Inl (unsupported (u ''user'') ''invalid or conflicting user identifiers'')
              else Inr (Some i))))"

section \<open>Fields without an equivalent\<close>

definition check_stream_options :: "json \<Rightarrow> unit result" where
  "check_stream_options v =
     (case v of
        JObj d \<Rightarrow>
          bindr (check_fields d [''include_usage''] ''stream_options'') (\<lambda>_.
          raise_if (oget d ''include_usage'' \<noteq> JNull \<and> \<not> is_bool (oget d ''include_usage''))
            (unsupported (u ''include_usage'') ''must be boolean''))
      | _ \<Rightarrow> Inl (unsupported (u ''stream_options'') ''must be an object''))"

fun reject_extras :: "obj \<Rightarrow> string list \<Rightarrow> unit result" where
  "reject_extras [] allow = Inr ()"
| "reject_extras ((k, v) # d) allow =
     (if k = u ''stream_options'' \<and> v \<noteq> JNull
      then bindr (check_stream_options v) (\<lambda>_. reject_extras d allow)
      else if k \<notin> set (map u allow) \<and> v \<noteq> JNull
      then Inl (unsupported k ''no declared cross-protocol equivalent'')
      else reject_extras d allow)"

definition chat_format_of :: "obj \<Rightarrow> json result" where
  "chat_format_of options =
     (let chat = oget options ''response_format''; text = oget options ''text''
      in if chat \<noteq> JNull \<and> text \<noteq> JNull then Inl (unsupported (u ''output format'') ''conflicting formats'')
         else
           (case text of
              JNull \<Rightarrow> Inr chat
            | JObj d \<Rightarrow>
                bindr (check_fields d [''format''] ''text'') (\<lambda>_.
                (case oget d ''format'' of
                   JNull \<Rightarrow> Inr JNull
                 | JObj value \<Rightarrow>
                     if oget value ''type'' = S ''json_schema'' then
                       bindr (check_fields value [''type'', ''name'', ''description'', ''schema'', ''strict''] ''text.format'') (\<lambda>_.
                       Inr (JObj [(u ''type'', S ''json_schema''), (u ''json_schema'', JObj (odel value ''type''))]))
                     else Inr (JObj value)
                 | _ \<Rightarrow> Inl (unsupported (u ''text.format'') ''must be an object'')))
            | _ \<Rightarrow> Inl (unsupported (u ''text'') ''must be an object'')))"

definition responses_format_of :: "obj \<Rightarrow> obj result" where
  "responses_format_of chat =
     (let kind = oget chat ''type''
      in bindr (in_set kind [S ''text'', S ''json_object'']) (\<lambda>simple.
         if simple then bindr (check_fields chat [''type''] ''response_format'') (\<lambda>_. Inr chat)
         else if kind = S ''json_schema'' then
           bindr (check_fields chat [''type'', ''json_schema''] ''response_format'') (\<lambda>_.
           (case oget chat ''json_schema'' of
              JObj schema \<Rightarrow>
                bindr (check_fields schema [''name'', ''description'', ''schema'', ''strict''] ''json_schema'') (\<lambda>_.
                (case oget schema ''name'' of
                   JStr n \<Rightarrow>
                     if n = [] \<or> \<not> is_obj (oget schema ''schema'')
                     then Inl (unsupported (u ''json_schema'') ''name and schema are required'')
                     else Inr (oupdate [(u ''type'', kind)] schema)
                 | _ \<Rightarrow> Inl (unsupported (u ''json_schema'') ''name and schema are required'')))
            | _ \<Rightarrow> Inl (unsupported (u ''json_schema'') ''must be an object'')))
         else Inl (unsupported (u ''response_format'') ''unsupported format'')))"

definition output_format :: "obj \<Rightarrow> bool \<Rightarrow> obj result" where
  "output_format normalized responses =
     bindr (chat_format_of (options_of normalized)) (\<lambda>v.
     (case v of
        JNull \<Rightarrow> Inr []
      | JObj chat \<Rightarrow>
          bindr (responses_format_of chat) (\<lambda>format.
          Inr (if responses then [(u ''text'', JObj [(u ''format'', JObj format)])]
               else [(u ''response_format'', JObj chat)]))
      | _ \<Rightarrow> Inl (unsupported (u ''response_format'') ''must be an object'')))"

section \<open>The three bodies\<close>

definition chat_allowed :: "string list" where
  "chat_allowed = [''safety_identifier'', ''text'', ''response_format'', ''temperature'', ''top_p'', ''stop'',
     ''stop_sequences'', ''max_tokens'', ''max_completion_tokens'', ''max_output_tokens'', ''user'', ''metadata'',
     ''parallel_tool_calls'']"

definition anthropic_rejected :: "string list" where
  "anthropic_rejected = [''reasoning'', ''thinking'', ''response_format'', ''text'', ''service_tier'']"

definition anthropic_allowed :: "string list" where
  "anthropic_allowed = [''safety_identifier'', ''temperature'', ''top_p'', ''stop'', ''stop_sequences'',
     ''max_tokens'', ''max_completion_tokens'', ''max_output_tokens'', ''user'', ''metadata'',
     ''parallel_tool_calls''] @ anthropic_rejected"

definition responses_allowed :: "string list" where
  "responses_allowed = [''safety_identifier'', ''temperature'', ''top_p'', ''max_output_tokens'', ''user'', ''metadata'',
     ''parallel_tool_calls'', ''reasoning'', ''max_tokens'', ''max_completion_tokens'', ''response_format'', ''text'']"

text \<open>\<open>if v is not None: body[k] = v\<close>.\<close>

definition field :: "string \<Rightarrow> json \<Rightarrow> obj" where
  "field k v = (if v = JNull then [] else [(u k, v)])"

definition opt_json :: "('a \<Rightarrow> json) \<Rightarrow> 'a option \<Rightarrow> json" where
  "opt_json f t = (case t of None \<Rightarrow> JNull | Some x \<Rightarrow> f x)"

definition tools_field :: "(obj \<Rightarrow> json) \<Rightarrow> obj list option \<Rightarrow> obj" where
  "tools_field f fs =
     (case fs of None \<Rightarrow> [] | Some gs \<Rightarrow> if gs = [] then [] else [(u ''tools'', JList (map f gs))])"

definition to_chat_request :: "obj \<Rightarrow> ustr \<Rightarrow> obj result" where
  "to_chat_request normalized real_model =
     bindr (reject_extras (options_of normalized) chat_allowed) (\<lambda>_.
     bindr (context_to_chat_messages normalized) (\<lambda>ts.
     bindr (tools_to_chat normalized) (\<lambda>tools.
     bindr (tool_choice_to_chat normalized) (\<lambda>choice.
     bindr (parallel_allowed normalized) (\<lambda>parallel.
     bindr (sample_params normalized 2) (\<lambda>sampling.
     bindr (stop_to_chat normalized) (\<lambda>stop.
     bindr (output_limit normalized) (\<lambda>limit.
     bindr (metadata_to_chat normalized) (\<lambda>user.
     bindr (output_format normalized False) (\<lambda>format.
     Inr ([(u ''model'', JStr real_model), (u ''messages'', JList (map turn_json ts))] @
       tools_field chat_tool_json tools @ field ''tool_choice'' (chat_choice_json choice) @
       field ''parallel_tool_calls'' (opt_json JBool parallel) @ sampling @ field ''stop'' stop @
       field ''max_tokens'' (opt_json JInt limit) @ field ''user'' (opt_json id user) @ format)))))))))))"

definition reject_none_of :: "obj \<Rightarrow> string list \<Rightarrow> unit result" where
  "reject_none_of options ks =
     (case find (\<lambda>k. oget options k \<noteq> JNull) ks of
        None \<Rightarrow> Inr () | Some k \<Rightarrow> Inl (unsupported (u k) ''no cross-protocol equivalent''))"

definition anthropic_choice_field :: "choice \<Rightarrow> bool option \<Rightarrow> obj" where
  "anthropic_choice_field choice parallel =
     (let chosen = anthropic_choice_obj choice
      in if parallel = Some False
         then [(u ''tool_choice'', JObj ((case chosen of None \<Rightarrow> [(u ''type'', S ''auto'')] | Some d \<Rightarrow> d) @
                [(u ''disable_parallel_tool_use'', JBool True)]))]
         else (case chosen of None \<Rightarrow> [] | Some d \<Rightarrow> [(u ''tool_choice'', JObj d)]))"

definition to_anthropic_request :: "obj \<Rightarrow> ustr \<Rightarrow> obj result" where
  "to_anthropic_request normalized real_model =
     bindr (reject_extras (options_of normalized) anthropic_allowed) (\<lambda>_.
     bindr (reject_none_of (options_of normalized) anthropic_rejected) (\<lambda>_.
     bindr (context_to_chat_messages normalized) (\<lambda>ts.
     bindr (messages_to_anthropic ts) (\<lambda>(messages, system).
     bindr (output_limit normalized) (\<lambda>limit.
     bindr (tools_to_anthropic normalized) (\<lambda>tools.
     bindr (tool_choice_to_chat normalized) (\<lambda>choice.
     bindr (parallel_allowed normalized) (\<lambda>parallel.
     bindr (sample_params normalized 1) (\<lambda>sampling.
     bindr (stop_to_anthropic normalized) (\<lambda>stop.
     bindr (metadata_to_chat normalized) (\<lambda>user.
     Inr ([(u ''model'', JStr real_model),
         (u ''max_tokens'', JInt (case limit of None \<Rightarrow> 1024 | Some n \<Rightarrow> if n = 0 then 1024 else n)),
         (u ''messages'', JList messages)] @
       field ''system'' (opt_json JStr system) @ (if tools = [] then [] else [(u ''tools'', JList tools)]) @
       anthropic_choice_field choice parallel @ sampling @ field ''stop_sequences'' stop @
       field ''metadata'' (opt_json (\<lambda>i. JObj [(u ''user_id'', i)]) user)))))))))))))"

definition to_responses_request :: "obj \<Rightarrow> ustr \<Rightarrow> obj result" where
  "to_responses_request normalized real_model =
     bindr (reject_extras (options_of normalized) responses_allowed) (\<lambda>_.
     bindr (raise_if (oget (options_of normalized) ''reasoning'' \<noteq> JNull)
              (unsupported (u ''reasoning'') ''thinking is controlled by the LLM configuration'')) (\<lambda>_.
     bindr (context_to_chat_messages normalized) (\<lambda>ts.
     bindr (tools_to_chat normalized) (\<lambda>tools.
     bindr (tool_choice_to_chat normalized) (\<lambda>choice.
     bindr (parallel_allowed normalized) (\<lambda>parallel.
     bindr (metadata_to_chat normalized) (\<lambda>user.
     bindr (output_format normalized True) (\<lambda>format.
     bindr (sample_params normalized 2) (\<lambda>sampling.
     bindr (output_limit normalized) (\<lambda>limit.
     Inr ([(u ''model'', JStr real_model), (u ''input'', JList (messages_to_responses ts))] @
       (if oget normalized ''store'' = JBool False then [(u ''store'', JBool False)] else []) @
       tools_field (\<lambda>f. JObj (oupdate [(u ''type'', S ''function'')] f)) tools @
       field ''tool_choice'' (responses_choice_json choice) @
       field ''parallel_tool_calls'' (opt_json JBool parallel) @ field ''user'' (opt_json id user) @ format @
       sampling @ field ''max_output_tokens'' (opt_json JInt limit))))))))))))"

end
