(* ===== verification/Llm_Requests.thy ===== *)
theory Llm_Requests
  imports Cross_Requests Models Task_Repo
begin

text \<open>
  The body of a request to a model: \<open>app/services/llm_draft_service.py\<close> up to its service class,
  and \<open>build_upstream_request\<close> with the identity instruction of
  \<open>app/services/llm_forward_service.py\<close>. The decimal columns of a configuration hold
  hundredths. The caller's own body is the raw text of the task; where the protocols differ, the
  normalized request is converted (\<open>Cross_Requests\<close>).
\<close>

section \<open>Model configurations\<close>

datatype llm_protocol = LLM_CHAT | LLM_RESPONSES | LLM_ANTHROPIC

datatype thinking_mode = MODEL_DEFAULT | ENABLED | DISABLED

datatype thinking_level = MINIMAL | LOW | MEDIUM | HIGH | XHIGH | MAX_LEVEL

fun thinking_level_value :: "thinking_level \<Rightarrow> string" where
  "thinking_level_value MINIMAL = ''minimal''"
| "thinking_level_value LOW = ''low''"
| "thinking_level_value MEDIUM = ''medium''"
| "thinking_level_value HIGH = ''high''"
| "thinking_level_value XHIGH = ''xhigh''"
| "thinking_level_value MAX_LEVEL = ''max''"

fun thinking_budget :: "thinking_level \<Rightarrow> int" where
  "thinking_budget MINIMAL = 2048"
| "thinking_budget LOW = 4096"
| "thinking_budget MEDIUM = 8192"
| "thinking_budget HIGH = 16384"
| "thinking_budget XHIGH = 32768"
| "thinking_budget MAX_LEVEL = 65536"

record llm_config =
  lc_id :: int
  lc_owner_user_id :: int
  lc_protocol :: llm_protocol
  lc_base_url :: ustr
  lc_real_model :: ustr
  lc_secret_ciphertext :: ustr
  lc_is_enabled :: bool
  lc_default_temperature :: "int option"
  lc_default_top_p :: "int option"
  lc_default_top_k :: "int option"
  lc_max_output_tokens :: "int option"
  lc_supports_image_input :: bool
  lc_thinking_mode :: thinking_mode
  lc_thinking_level :: "thinking_level option"
  lc_extra_body :: obj

fun inference_to_llm :: "inference_protocol \<Rightarrow> llm_protocol option" where
  "inference_to_llm OPENAI_CHAT = Some LLM_CHAT"
| "inference_to_llm OPENAI_RESPONSES = Some LLM_RESPONSES"
| "inference_to_llm ANTHROPIC_MESSAGES = Some LLM_ANTHROPIC"
| "inference_to_llm TYPE_SAFE_SYSTEMONE = None"

definition LLM_DEFAULT_MAX_TOKENS :: int where "LLM_DEFAULT_MAX_TOKENS = 1024"

section \<open>The defaults of a configuration\<close>

text \<open>\<open>setdefault\<close>.\<close>

definition odefault :: "ustr \<Rightarrow> json \<Rightarrow> obj \<Rightarrow> obj" where
  "odefault k v d = (if map_of d k = None then d @ [(k, v)] else d)"

definition odefaults :: "obj \<Rightarrow> obj \<Rightarrow> obj" where
  "odefaults defaults d = fold (\<lambda>(k, v). odefault k v) defaults d"

definition default_opt :: "string \<Rightarrow> json option \<Rightarrow> obj \<Rightarrow> obj" where
  "default_opt k v d = (case v of None \<Rightarrow> d | Some x \<Rightarrow> odefault (u k) x d)"

text \<open>\<open>float\<close> of a decimal with two places.\<close>

definition hundredths :: "int \<Rightarrow> json" where
  "hundredths n =
     (let m = nat (abs n); neg = (n < 0)
      in JFloat (if m mod 100 = 0 then Dec neg (m div 100) 0
                 else if m mod 10 = 0 then Dec neg (m div 10) (-1) else Dec neg m (-2)))"

definition default_limit :: "llm_config \<Rightarrow> obj \<Rightarrow> obj" where
  "default_limit cfg body =
     (case lc_max_output_tokens cfg of
        None \<Rightarrow> body
      | Some n \<Rightarrow>
          (case lc_protocol cfg of
             LLM_RESPONSES \<Rightarrow> odefault (u ''max_output_tokens'') (JInt n) body
           | LLM_ANTHROPIC \<Rightarrow> odefault (u ''max_tokens'') (JInt n) body
           | LLM_CHAT \<Rightarrow>
               if \<not> ohas body ''max_tokens'' \<and> \<not> ohas body ''max_completion_tokens''
               then body @ [(u ''max_completion_tokens'', JInt n)] else body))"

definition default_thinking :: "llm_config \<Rightarrow> obj \<Rightarrow> obj" where
  "default_thinking cfg body =
     (case (lc_thinking_mode cfg, lc_thinking_level cfg) of
        (ENABLED, Some level) \<Rightarrow>
          (case lc_protocol cfg of
             LLM_RESPONSES \<Rightarrow> odefault (u ''reasoning'') (JObj [(u ''effort'', S (thinking_level_value level))]) body
           | LLM_CHAT \<Rightarrow> odefault (u ''reasoning_effort'') (S (thinking_level_value level)) body
           | LLM_ANTHROPIC \<Rightarrow>
               odefault (u ''thinking'')
                 (JObj [(u ''type'', S ''enabled''), (u ''budget_tokens'', JInt (thinking_budget level))]) body)
      | _ \<Rightarrow> body)"

definition apply_config :: "llm_config \<Rightarrow> obj \<Rightarrow> obj" where
  "apply_config cfg body =
     (let body1 = odefaults (lc_extra_body cfg) body;
          body2 = default_opt ''temperature'' (map_option hundredths (lc_default_temperature cfg)) body1;
          body3 = default_opt ''top_p'' (map_option hundredths (lc_default_top_p cfg)) body2;
          body4 = (if lc_protocol cfg = LLM_ANTHROPIC
                   then default_opt ''top_k'' (map_option JInt (lc_default_top_k cfg)) body3 else body3)
      in default_thinking cfg (default_limit cfg body4))"

section \<open>Attachments, the caller's system text, the context\<close>

definition media_types :: "string list" where
  "media_types = [''image'', ''image_url'', ''input_image'', ''input_audio'', ''audio'', ''file'', ''input_file'', ''document'']"

definition is_media :: "json \<Rightarrow> bool" where
  "is_media part = (case part of JObj d \<Rightarrow> oget d ''type'' \<in> set (map S media_types) | _ \<Rightarrow> False)"

definition content_has_media :: "json \<Rightarrow> bool" where
  "content_has_media content = (case content of JList parts \<Rightarrow> list_ex is_media parts | _ \<Rightarrow> False)"

definition normalized_has_media :: "obj \<Rightarrow> bool" where
  "normalized_has_media normalized =
     (case oget normalized ''context'' of
        JList items \<Rightarrow> list_ex (\<lambda>item. case item of JObj d \<Rightarrow> content_has_media (oget d ''content'') | _ \<Rightarrow> False) items
      | _ \<Rightarrow> False)"

definition strip_media_from_content :: "json \<Rightarrow> json" where
  "strip_media_from_content content = (case content of JList parts \<Rightarrow> JList (filter (\<lambda>p. \<not> is_media p) parts) | v \<Rightarrow> v)"

definition strip_media_item :: "json \<Rightarrow> json" where
  "strip_media_item item =
     (case item of JObj d \<Rightarrow> JObj (oset d ''content'' (strip_media_from_content (oget d ''content''))) | v \<Rightarrow> v)"

definition strip_media_from_normalized :: "obj \<Rightarrow> obj" where
  "strip_media_from_normalized normalized =
     (case oget normalized ''context'' of
        JList items \<Rightarrow> oset normalized ''context'' (JList (map strip_media_item items))
      | _ \<Rightarrow> normalized)"

definition is_system_item :: "json \<Rightarrow> bool" where
  "is_system_item item = (case item of JObj d \<Rightarrow> oget d ''role'' \<in> {S ''system'', S ''developer''} | _ \<Rightarrow> False)"

definition drop_caller_system :: "obj \<Rightarrow> bool \<Rightarrow> obj" where
  "drop_caller_system normalized chat =
     (let prepared = oset (oset normalized ''instructions'' JNull) ''system_blocks'' JNull
      in if \<not> chat then prepared
         else
           (case oget normalized ''context'' of
              JList items \<Rightarrow>
                (let kept = JList (filter (\<lambda>item. \<not> is_system_item item) items)
                 in oset (oset prepared ''context'' kept) ''messages'' kept)
            | _ \<Rightarrow> prepared))"

definition filter_context :: "obj \<Rightarrow> int list option \<Rightarrow> obj result" where
  "filter_context normalized excluded =
     (case excluded of
        None \<Rightarrow> Inr normalized
      | Some indices \<Rightarrow>
          (case oget normalized ''context'' of
             JList items \<Rightarrow>
               (let invalid = filter (\<lambda>i. i < 0 \<or> int (length items) \<le> i) indices
                in if indices = [] then Inr normalized
                   else if invalid \<noteq> []
                   then Inl (err_text VALIDATION_FAILED (u ''context index out of range: '' @ py_str (JList (map JInt invalid))) 400 None)
                   else Inr (oset normalized ''context''
                     (JList (map snd (filter (\<lambda>p. int (fst p) \<notin> set indices) (enumerate 0 items))))))
           | _ \<Rightarrow> Inr normalized))"

section \<open>Instructions of the gateway\<close>

text \<open>The templates, by code point: reasoning only, a reply from a seed, and the guidance of the user.\<close>

definition REASONING_ONLY_INSTRUCTION :: ustr where
  "REASONING_ONLY_INSTRUCTION =
     [35831, 21482, 36755, 20986, 20320, 23545, 29992, 25143, 35831, 27714, 30340, 35814, 32454,
      36880, 27493, 25512, 29702, 36807, 31243, 65292, 19981, 35201, 36755, 20986, 26368, 32456,
      31572, 22797, 12289, 24635, 32467, 25110, 32467, 35770, 27573, 12290]"

definition REPLY_FROM_SEED_TEMPLATE :: ustr where
  "REPLY_FROM_SEED_TEMPLATE =
     [20197, 19979, 24605, 32771, 36807, 31243, 24050, 30001, 20154, 24037, 30830, 35748, 65292,
      35831, 20005, 26684, 22522, 20110, 23427, 30452, 25509, 36755, 20986, 26368, 32456, 31572,
      22797, 65292, 19981, 35201, 20877, 36755, 20986, 39069, 22806, 30340, 25512, 29702, 36807,
      31243, 12290, 10, 10]"

definition GENERATION_INSTRUCTION_TEMPLATE :: ustr where
  "GENERATION_INSTRUCTION_TEMPLATE =
     [20197, 19979, 26159, 22238, 22797, 32773, 23545, 26412, 27425, 29983, 25104, 30340, 24341,
      23548, 35201, 27714, 65288, 20248, 20808, 32423, 20302, 20110, 21327, 35758, 12289, 83, 99,
      104, 101, 109, 97, 32, 19982, 29983, 25104, 27169, 24335, 32422, 26463, 65289, 65292, 35831,
      22312, 31526, 21512, 19978, 36848, 32422, 26463, 30340, 21069, 25552, 19979, 36981, 24490,
      65306, 10, 10]"

abbreviation blank_line :: ustr where
  "blank_line \<equiv> [10, 10]"

definition inject_mode_instruction :: "obj \<Rightarrow> llm_protocol \<Rightarrow> ustr \<Rightarrow> obj result" where
  "inject_mode_instruction body protocol instruction =
     (case protocol of
        LLM_CHAT \<Rightarrow>
          (let body1 = odefault (u ''messages'') (JList []) body
           in case oget body1 ''messages'' of
                JList messages \<Rightarrow> Inr (oset body1 ''messages''
                  (JList (JObj [(u ''role'', S ''system''), (u ''content'', JStr instruction)] # messages)))
              | _ \<Rightarrow> Inl (PyError AttributeError))
      | LLM_RESPONSES \<Rightarrow>
          Inr (oset body ''instructions'' (JStr
            (case oget body ''instructions'' of
               JStr existing \<Rightarrow> if strip existing \<noteq> [] then instruction @ blank_line @ existing else instruction
             | _ \<Rightarrow> instruction)))
      | LLM_ANTHROPIC \<Rightarrow>
          Inr (oset body ''system''
            (case oget body ''system'' of
               JList blocks \<Rightarrow> JList (JObj [(u ''type'', S ''text''), (u ''text'', JStr instruction)] # blocks)
             | JStr system \<Rightarrow>
                 JStr (if strip system \<noteq> [] then instruction @ blank_line @ system else instruction)
             | _ \<Rightarrow> JStr instruction)))"

definition IDENTITY_FALLBACK :: ustr where
  "IDENTITY_FALLBACK =
     u ''You are a helpful assistant. Respond naturally and concisely in the language the user uses.''"

text \<open>The description of the fake model; \<open>None\<close> when there is no model or no description.\<close>

definition identity_system_message :: "ustr option \<Rightarrow> ustr \<Rightarrow> ustr" where
  "identity_system_message description model_id =
     (let words = strip (case description of None \<Rightarrow> [] | Some s \<Rightarrow> s)
      in 91 # model_id @ u ''] '' @ (if words \<noteq> [] then words else IDENTITY_FALLBACK))"

definition text_part :: "ustr \<Rightarrow> json" where
  "text_part t = JObj [(u ''type'', S ''text''), (u ''text'', JStr t)]"

definition merged_identity :: "obj \<Rightarrow> ustr \<Rightarrow> obj" where
  "merged_identity message identity =
     oset message ''content''
       (case oget message ''content'' of
          JList parts \<Rightarrow> JList (parts @ [text_part identity])
        | v \<Rightarrow> JStr (py_str (or_else v (S '''')) @ blank_line @ identity))"

text \<open>The first message with the role \<open>system\<close> merged; \<open>None\<close> when there is none.\<close>

fun merge_first_system :: "ustr \<Rightarrow> json list \<Rightarrow> json list option result" where
  "merge_first_system identity [] = Inr None"
| "merge_first_system identity (v # ms) =
     (case v of
        JObj m \<Rightarrow>
          (if oget m ''role'' = S ''system'' then Inr (Some (JObj (merged_identity m identity) # ms))
           else bindr (merge_first_system identity ms) (\<lambda>r. Inr (map_option (\<lambda>ms'. JObj m # ms') r)))
      | _ \<Rightarrow> Inl (PyError AttributeError))"

definition inject_identity_chat :: "obj \<Rightarrow> ustr \<Rightarrow> obj result" where
  "inject_identity_chat body identity =
     bindr (iterate (or_else (oget body ''messages'') (JList []))) (\<lambda>messages.
     bindr (merge_first_system identity messages) (\<lambda>merged.
     Inr (oset body ''messages'' (JList
       (case merged of
          Some ms \<Rightarrow> ms
        | None \<Rightarrow> JObj [(u ''role'', S ''system''), (u ''content'', JStr identity)] # messages)))))"

definition inject_identity_responses :: "obj \<Rightarrow> ustr \<Rightarrow> obj" where
  "inject_identity_responses body identity =
     oset body ''instructions'' (JStr
       (case oget body ''instructions'' of
          JStr existing \<Rightarrow> if existing \<noteq> [] then existing @ blank_line @ identity else identity
        | _ \<Rightarrow> identity))"

definition inject_identity_anthropic :: "obj \<Rightarrow> ustr \<Rightarrow> obj" where
  "inject_identity_anthropic body identity =
     (case oget body ''system'' of
        JNull \<Rightarrow> oset body ''system'' (JStr identity)
      | JStr system \<Rightarrow> oset body ''system'' (JStr (system @ blank_line @ identity))
      | JList blocks \<Rightarrow> oset body ''system'' (JList (blocks @ [text_part identity]))
      | _ \<Rightarrow> body)"

section \<open>Bodies from the normalized request\<close>

definition options_without_tools :: "obj \<Rightarrow> obj result" where
  "options_without_tools normalized =
     (case or_else (oget normalized ''options'') (JObj []) of
        JObj options \<Rightarrow> Inr (without [''tools'', ''tool_choice''] options)
      | _ \<Rightarrow> Inl (PyError AttributeError))"

definition add_truthy :: "obj \<Rightarrow> string \<Rightarrow> obj \<Rightarrow> obj" where
  "add_truthy normalized k body =
     (if truthy (oget normalized k) then oset body k (oget normalized k) else body)"

definition filled_text :: "json \<Rightarrow> bool" where
  "filled_text v = (case v of JStr s \<Rightarrow> strip s \<noteq> [] | _ \<Rightarrow> False)"

text \<open>\<open>role not in {..}\<close>: a role that is a list or a dictionary raises.\<close>

definition item_with_role :: "string list \<Rightarrow> json \<Rightarrow> obj list result" where
  "item_with_role roles item =
     (case item of
        JObj d \<Rightarrow> bindr (in_set (oget d ''role'') (map S roles)) (\<lambda>b. Inr (if b then [d] else []))
      | _ \<Rightarrow> Inr [])"

definition items_with_role :: "string list \<Rightarrow> json list \<Rightarrow> obj list result" where
  "items_with_role roles items = bindr (mapr (item_with_role roles) items) (\<lambda>dss. Inr (concat dss))"

text \<open>An assistant message with tool calls and without content gets the content \<open>null\<close>.\<close>

definition chat_history_message :: "obj \<Rightarrow> obj" where
  "chat_history_message d =
     (if oget d ''role'' = S ''assistant'' \<and> is_list (oget d ''tool_calls'') \<and> oget d ''content'' = JNull
      then oset d ''content'' JNull else d)"

definition build_chat_request :: "ustr \<Rightarrow> obj \<Rightarrow> llm_config \<Rightarrow> obj result" where
  "build_chat_request real_model normalized cfg =
     bindr (iterate (or_else (oget normalized ''context'') (JList []))) (\<lambda>items.
     bindr (items_with_role [''user'', ''assistant'', ''system'', ''developer'', ''tool''] items) (\<lambda>ms.
     let instructions = oget normalized ''instructions'';
         system = (if filled_text instructions
                   then [JObj [(u ''role'', S ''system''), (u ''content'', instructions)]] else []);
         body = [(u ''model'', JStr real_model),
           (u ''messages'', JList (system @ map (JObj \<circ> chat_history_message) ms))]
     in bindr (options_without_tools normalized) (\<lambda>options.
        Inr (apply_config cfg (odefaults options
          (add_truthy normalized ''tool_choice'' (add_truthy normalized ''tools'' body)))))))"

definition build_anthropic_request :: "ustr \<Rightarrow> obj \<Rightarrow> int \<Rightarrow> llm_config \<Rightarrow> obj result" where
  "build_anthropic_request real_model normalized max_tokens cfg =
     bindr (iterate (or_else (oget normalized ''context'') (JList []))) (\<lambda>items.
     bindr (items_with_role [''user'', ''assistant''] items) (\<lambda>ms.
     let instructions = oget normalized ''instructions''; blocks = oget normalized ''system_blocks'';
         system = (if filled_text instructions then [(u ''system'', instructions)]
                   else if is_list blocks \<and> truthy blocks then [(u ''system'', blocks)] else []);
         body = [(u ''model'', JStr real_model), (u ''max_tokens'', JInt max_tokens),
           (u ''messages'', JList (map JObj ms))] @ system;
         body1 = add_truthy normalized ''tools'' body;
         body2 = (if oget normalized ''tool_choice'' \<noteq> JNull
                  then oset body1 ''tool_choice'' (oget normalized ''tool_choice'') else body1)
     in bindr (options_without_tools normalized) (\<lambda>options. Inr (apply_config cfg (odefaults options body2)))))"

text \<open>\<open>reasoning\<close>: whether the mode asks for the reasoning only.\<close>

definition prepare_rebuild :: "obj \<Rightarrow> bool \<Rightarrow> obj result" where
  "prepare_rebuild normalized reasoning =
     (if \<not> reasoning then Inr normalized
      else bindr (options_without_tools normalized) (\<lambda>options.
        Inr (oset (oset (oset normalized ''tools'' JNull) ''tool_choice'' JNull) ''options'' (JObj options))))"

definition build_responses_request :: "ustr \<Rightarrow> obj \<Rightarrow> bool \<Rightarrow> llm_config \<Rightarrow> obj result" where
  "build_responses_request real_model normalized reasoning cfg =
     bindr (prepare_rebuild normalized reasoning) (\<lambda>prepared.
     let body = [(u ''model'', JStr real_model), (u ''input'', or_else (oget prepared ''context'') (JList []))] @
           (if oget prepared ''store'' = JBool False then [(u ''store'', JBool False)] else []) @
           (if filled_text (oget prepared ''instructions'') then [(u ''instructions'', oget prepared ''instructions'')] else [])
     in bindr (options_without_tools prepared) (\<lambda>options.
        Inr (apply_config cfg (odefaults options
          (add_truthy prepared ''tool_choice'' (add_truthy prepared ''tools'' body))))))"

text \<open>
  \<open>int(normalized.get("max_tokens") or LLM_DEFAULT_MAX_TOKENS)\<close>. The normalized request of an
  Anthropic body holds the integer that \<open>parse_anthropic\<close> checked; of the other values only
  \<open>True\<close> counts as a number here.
\<close>

definition request_max_tokens :: "obj \<Rightarrow> int result" where
  "request_max_tokens normalized =
     (case or_else (oget normalized ''max_tokens'') (JInt LLM_DEFAULT_MAX_TOKENS) of
        JInt n \<Rightarrow> Inr n
      | JBool b \<Rightarrow> Inr 1
      | _ \<Rightarrow> Inl (PyError ValueError))"

section \<open>build_upstream_request\<close>

definition raw_object :: "request_task \<Rightarrow> obj option" where
  "raw_object task = (case loads (rt_raw_payload_json task) of Some (JObj d) \<Rightarrow> Some d | _ \<Rightarrow> None)"

text \<open>
  The caller's body for a model of the same protocol: the alias of the gateway is replaced, and a
  reference to a response of the gateway by the conversation it stands for.
\<close>

definition expanded_raw :: "llm_config \<Rightarrow> obj \<Rightarrow> obj \<Rightarrow> obj result" where
  "expanded_raw cfg normalized raw =
     (if lc_protocol cfg \<noteq> LLM_RESPONSES then Inr raw
      else if oget raw ''previous_response_id'' = JNull then Inr (odel raw ''previous_response_id'')
      else if ohas normalized ''context''
      then Inr (oset (odel raw ''previous_response_id'') ''input'' (oget normalized ''context''))
      else Inl (PyError KeyError))"

definition native_body :: "llm_config \<Rightarrow> obj \<Rightarrow> obj \<Rightarrow> obj result" where
  "native_body cfg normalized raw =
     bindr (expanded_raw cfg normalized raw) (\<lambda>body.
     Inr (apply_config cfg (oset body ''model'' (JStr (lc_real_model cfg)))))"

definition converted_body :: "request_task \<Rightarrow> llm_config \<Rightarrow> obj \<Rightarrow> obj result" where
  "converted_body task cfg normalized =
     (case lc_protocol cfg of
        LLM_CHAT \<Rightarrow> bindr (to_chat_request normalized (lc_real_model cfg)) (\<lambda>b. Inr (apply_config cfg b))
      | LLM_RESPONSES \<Rightarrow> bindr (to_responses_request normalized (lc_real_model cfg)) (\<lambda>b. Inr (apply_config cfg b))
      | LLM_ANTHROPIC \<Rightarrow>
          if inference_to_llm (rt_protocol task) = Some LLM_ANTHROPIC then
            bindr (request_max_tokens normalized) (\<lambda>n. build_anthropic_request (lc_real_model cfg) normalized n cfg)
          else bindr (to_anthropic_request normalized (lc_real_model cfg)) (\<lambda>b. Inr (apply_config cfg b)))"

definition inject_identity :: "llm_protocol \<Rightarrow> obj \<Rightarrow> ustr \<Rightarrow> obj result" where
  "inject_identity protocol body identity =
     (case protocol of
        LLM_CHAT \<Rightarrow> inject_identity_chat body identity
      | LLM_RESPONSES \<Rightarrow> Inr (inject_identity_responses body identity)
      | LLM_ANTHROPIC \<Rightarrow> Inr (inject_identity_anthropic body identity))"

definition build_upstream_request :: "request_task \<Rightarrow> llm_config \<Rightarrow> ustr option \<Rightarrow> obj \<Rightarrow> obj result" where
  "build_upstream_request task cfg description normalized =
     (let identity = identity_system_message description (rt_requested_model task);
          same = (inference_to_llm (rt_protocol task) = Some (lc_protocol cfg));
          raw = (if same then raw_object task else None)
      in bindr (case raw of Some d \<Rightarrow> native_body cfg normalized d | None \<Rightarrow> converted_body task cfg normalized) (\<lambda>body.
         inject_identity (lc_protocol cfg) body identity))"

end
