(* ===== verification/Upstream_Reply.thy ===== *)
theory Upstream_Reply
  imports Renderers
begin

text \<open>
  The replies of an upstream model read back as a draft (\<open>app/protocols/upstream_reply.py\<close>), and
  the theorem that ties them to the renderers: a gateway that forwards to another gateway
  receives the very draft the other one rendered.
\<close>

definition up_invalid :: exn where
  "up_invalid = err UPSTREAM_ERROR ''the upstream response has an invalid structure'' 502"

definition good_text :: "json \<Rightarrow> bool" where
  "good_text v = (case v of JStr s \<Rightarrow> \<not> blank s | _ \<Rightarrow> False)"

definition str_or_nil :: "json \<Rightarrow> ustr" where
  "str_or_nil v = (case v of JStr s \<Rightarrow> s | _ \<Rightarrow> [])"

definition decoded_arguments :: "json \<Rightarrow> json option" where
  "decoded_arguments v = (case v of JStr s \<Rightarrow> loads s | _ \<Rightarrow> Some v)"

definition up_tool :: "json \<Rightarrow> json \<Rightarrow> json \<Rightarrow> reply_tool_call result" where
  "up_tool call_id name arguments =
     (if \<not> good_text call_id \<or> \<not> good_text name then Inl up_invalid
      else
        (case decoded_arguments arguments of
           Some (JObj d) \<Rightarrow> Inr \<lparr>rtc_id = str_or_nil call_id, rtc_name = str_or_nil name, rtc_arguments = d\<rparr>
         | _ \<Rightarrow> Inl up_invalid))"

definition up_text :: "json \<Rightarrow> ustr result" where
  "up_text v = (case v of JNull \<Rightarrow> Inr [] | JStr s \<Rightarrow> Inr s | _ \<Rightarrow> Inl up_invalid)"

definition text_or_none :: "ustr \<Rightarrow> ustr option" where
  "text_or_none s = (if s = [] then None else Some s)"

section \<open>Chat Completions\<close>

definition chat_call :: "json \<Rightarrow> reply_tool_call result" where
  "chat_call v =
     (case v of
        JObj call \<Rightarrow>
          (case oget call ''function'' of
             JObj f \<Rightarrow>
               if oget call ''type'' \<noteq> S ''function'' then Inl up_invalid
               else up_tool (oget call ''id'') (oget f ''name'') (oget f ''arguments'')
           | _ \<Rightarrow> Inl up_invalid)
      | _ \<Rightarrow> Inl up_invalid)"

definition chat_choice :: "json \<Rightarrow> obj result" where
  "chat_choice choices =
     (case choices of
        JList (JObj c # cs) \<Rightarrow> (case oget c ''message'' of JObj m \<Rightarrow> Inr m | _ \<Rightarrow> Inl up_invalid)
      | _ \<Rightarrow> Inl up_invalid)"

definition list_or_empty :: "json \<Rightarrow> json list result" where
  "list_or_empty v = (case or_else v (JList []) of JList xs \<Rightarrow> Inr xs | _ \<Rightarrow> Inl up_invalid)"

definition parse_chat_response :: "obj \<Rightarrow> reply_draft result" where
  "parse_chat_response payload =
     (if truthy (oget payload ''error'') then Inl up_invalid
      else
        bindr (chat_choice (oget payload ''choices'')) (\<lambda>message.
        bindr (list_or_empty (oget message ''tool_calls'')) (\<lambda>calls.
        bindr (mapr chat_call calls) (\<lambda>tools.
        bindr (up_text (oget message ''reasoning_content'')) (\<lambda>reasoning.
        bindr (up_text (oget message ''content'')) (\<lambda>content.
        Inr \<lparr>rd_reasoning = text_or_none reasoning, rd_tool_calls = tools,
          rd_final_text = text_or_none content\<rparr>))))))"

section \<open>Responses\<close>

text \<open>What one item adds to the texts, the reasoning and the calls.\<close>

datatype piece = Text ustr | Reasoning ustr | Call reply_tool_call

definition none_or_completed :: "json \<Rightarrow> bool result" where
  "none_or_completed v = in_set v [JNull, S ''completed'']"

definition responses_part :: "bool \<Rightarrow> json \<Rightarrow> piece result" where
  "responses_part is_message v =
     (case v of
        JObj part \<Rightarrow>
          (let ty = oget part ''type''
           in if is_message \<and> ty = S ''output_text'' then
                bindr (up_text (oget part ''text'')) (\<lambda>s. Inr (Text s))
              else if is_message \<and> ty = S ''refusal'' then
                bindr (up_text (oget part ''refusal'')) (\<lambda>s. Inr (Text s))
              else if \<not> is_message \<and> ty = S ''summary_text'' then
                bindr (up_text (oget part ''text'')) (\<lambda>s. Inr (Reasoning s))
              else Inl up_invalid)
      | _ \<Rightarrow> Inl up_invalid)"

definition responses_item :: "json \<Rightarrow> piece list result" where
  "responses_item v =
     (case v of
        JObj item \<Rightarrow>
          (let kind = oget item ''type''
           in if kind = S ''function_call'' then
                bindr (none_or_completed (oget item ''status'')) (\<lambda>ok.
                  if \<not> ok then Inl up_invalid
                  else bindr (up_tool (oget item ''call_id'') (oget item ''name'') (oget item ''arguments''))
                         (\<lambda>c. Inr [Call c]))
              else
                bindr (in_set kind [S ''message'', S ''reasoning'']) (\<lambda>known.
                  if \<not> known then Inl up_invalid
                  else
                    (let is_message = (kind = S ''message'')
                     in bindr (list_or_empty (oget item (if is_message then ''content'' else ''summary''))) (\<lambda>parts.
                        mapr (responses_part is_message) parts))))
      | _ \<Rightarrow> Inl up_invalid)"

fun texts_of :: "piece list \<Rightarrow> ustr list" where
  "texts_of [] = []"
| "texts_of (Text s # ps) = s # texts_of ps"
| "texts_of (_ # ps) = texts_of ps"

fun reasonings_of :: "piece list \<Rightarrow> ustr list" where
  "reasonings_of [] = []"
| "reasonings_of (Reasoning s # ps) = s # reasonings_of ps"
| "reasonings_of (_ # ps) = reasonings_of ps"

fun calls_of :: "piece list \<Rightarrow> reply_tool_call list" where
  "calls_of [] = []"
| "calls_of (Call c # ps) = c # calls_of ps"
| "calls_of (_ # ps) = calls_of ps"

definition draft_of_pieces :: "ustr \<Rightarrow> piece list \<Rightarrow> reply_draft" where
  "draft_of_pieces sep ps =
     \<lparr>rd_reasoning = text_or_none (join sep (reasonings_of ps)), rd_tool_calls = calls_of ps,
       rd_final_text = text_or_none (join sep (texts_of ps))\<rparr>"

definition parse_responses_response :: "obj \<Rightarrow> reply_draft result" where
  "parse_responses_response payload =
     (if truthy (oget payload ''error'') then Inl up_invalid
      else
        bindr (none_or_completed (oget payload ''status'')) (\<lambda>ok.
          if \<not> ok then Inl up_invalid
          else
            (case oget payload ''output'' of
               JList items \<Rightarrow>
                 bindr (mapr responses_item items) (\<lambda>ps. Inr (draft_of_pieces [] (concat ps)))
             | _ \<Rightarrow> Inl up_invalid)))"

section \<open>Anthropic Messages\<close>

definition anthropic_block :: "json \<Rightarrow> piece list result" where
  "anthropic_block v =
     (case v of
        JObj block \<Rightarrow>
          (let kind = oget block ''type''
           in if kind = S ''text'' then bindr (up_text (oget block ''text'')) (\<lambda>s. Inr [Text s])
              else if kind = S ''thinking'' then
                bindr (up_text (oget block ''thinking'')) (\<lambda>s. Inr [Reasoning s])
              else if kind = S ''tool_use'' then
                bindr (up_tool (oget block ''id'') (oget block ''name'') (oget block ''input'')) (\<lambda>c. Inr [Call c])
              else if kind \<noteq> S ''redacted_thinking'' then Inl up_invalid
              else Inr [])
      | _ \<Rightarrow> Inl up_invalid)"

definition parse_anthropic_response :: "obj \<Rightarrow> reply_draft result" where
  "parse_anthropic_response payload =
     (case oget payload ''content'' of
        JList content \<Rightarrow>
          if truthy (oget payload ''error'') then Inl up_invalid
          else bindr (mapr anthropic_block content) (\<lambda>ps. Inr (draft_of_pieces [10] (concat ps)))
      | _ \<Rightarrow> Inl up_invalid)"

section \<open>Reading back what was rendered\<close>

text \<open>A reply whose calls are addressable, with no empty text in place of none.\<close>

definition good_call :: "reply_tool_call \<Rightarrow> bool" where
  "good_call c \<longleftrightarrow> \<not> blank (rtc_id c) \<and> \<not> blank (rtc_name c) \<and> wf_json (JObj (rtc_arguments c))"

definition canonical :: "reply_draft \<Rightarrow> bool" where
  "canonical d \<longleftrightarrow> list_all good_call (rd_tool_calls d) \<and> rd_reasoning d \<noteq> Some [] \<and> rd_final_text d \<noteq> Some []"

lemma up_tool_good:
  "good_call c \<Longrightarrow> up_tool (JStr (rtc_id c)) (JStr (rtc_name c)) (JStr (dumps (JObj (rtc_arguments c)))) = Inr c"
  "good_call c \<Longrightarrow> up_tool (JStr (rtc_id c)) (JStr (rtc_name c)) (JObj (rtc_arguments c)) = Inr c"
  by (simp_all add: up_tool_def good_text_def str_or_nil_def decoded_arguments_def good_call_def loads_dumps)

lemma id_or_good: "good_call c \<Longrightarrow> id_or (rtc_id c) p t = rtc_id c"
  by (auto simp: id_or_def good_call_def)

lemma text_or_none_of [simp]: "t \<noteq> Some [] \<Longrightarrow> text_or_none (text_of_opt t) = t"
  by (cases t) (simp_all add: text_or_none_def text_of_opt_def)

lemma enumerate_calls:
  assumes "list_all good_call cs" "\<And>n c. good_call c \<Longrightarrow> f (n, c) = Inr (g c)"
  shows "mapr f (enumerate k cs) = Inr (map g cs)"
  using assms(1) by (induction cs arbitrary: k) (auto simp: assms(2))

lemma up_text_opt: "up_text (json_opt t) = Inr (text_of_opt t)"
  by (cases t) (simp_all add: up_text_def json_opt_def text_of_opt_def)

lemma chat_reads_back:
  assumes "canonical d"
  shows "parse_chat_response (chat_render_response rnd cid created model d usage) = Inr d"
proof -
  have calls: "mapr chat_call (map (chat_tool_call rnd) (enumerate 0 (rd_tool_calls d))) = Inr (rd_tool_calls d)"
    using enumerate_calls [of "rd_tool_calls d" "\<lambda>p. chat_call (chat_tool_call rnd p)" id 0] assms
    by (simp add: mapr_map chat_call_def chat_tool_call_def id_or_good up_tool_good canonical_def)
  let ?m = "chat_message rnd d"
  have m: "oget ?m ''content'' = json_opt (rd_final_text d)"
    "list_or_empty (oget ?m ''tool_calls'') = Inr (map (chat_tool_call rnd) (enumerate 0 (rd_tool_calls d)))"
    "up_text (oget ?m ''reasoning_content'') = Inr (text_of_opt (rd_reasoning d))"
    by (auto simp: chat_message_def Let_def list_or_empty_def or_else_def up_text_opt
        truthy_text_def text_of_opt_def up_text_def json_opt_def split: option.splits)
  have "chat_choice (oget (chat_render_response rnd cid created model d usage) ''choices'') = Inr ?m"
    "oget (chat_render_response rnd cid created model d usage) ''error'' = JNull"
    by (simp_all add: chat_render_response_def chat_choice_def)
  then show ?thesis using assms
    by (simp add: parse_chat_response_def m calls up_text_opt canonical_def)
qed

lemma pieces_append [simp]:
  "texts_of (ps @ qs) = texts_of ps @ texts_of qs"
  "reasonings_of (ps @ qs) = reasonings_of ps @ reasonings_of qs"
  "calls_of (ps @ qs) = calls_of ps @ calls_of qs"
  by (induction ps rule: texts_of.induct) simp_all

lemma pieces_calls [simp]:
  "texts_of (map Call cs) = []" "reasonings_of (map Call cs) = []" "calls_of (map Call cs) = cs"
  by (induction cs) simp_all

lemma concat_singletons: "concat (map (\<lambda>x. [f x]) xs) = map f xs"
  by (induction xs) simp_all

lemma list_or_empty_list [simp]: "list_or_empty (JList xs) = Inr xs"
  by (cases xs) (simp_all add: list_or_empty_def or_else_def)

lemma responses_read:
  "good_call c \<Longrightarrow> responses_item (call_item c) = Inr [Call c]"
  "responses_item (message_item i t) = Inr [Text t]"
  "responses_item (reasoning_item r) = Inr [Reasoning r]"
  by (simp_all add: responses_item_def call_item_def message_item_def reasoning_item_def none_or_completed_def
      up_tool_good responses_part_def up_text_def in_set_def Let_def)

definition pieces_of :: "reply_draft \<Rightarrow> piece list list" where
  "pieces_of d = (case rd_reasoning d of None \<Rightarrow> [] | Some r \<Rightarrow> [[Reasoning r]]) @
     map (\<lambda>c. [Call c]) (rd_tool_calls d) @ (case rd_final_text d of None \<Rightarrow> [] | Some t \<Rightarrow> [[Text t]])"

lemma draft_of_pieces_of:
  "canonical d \<Longrightarrow> draft_of_pieces sep (concat (pieces_of d)) = d"
  by (cases d) (auto simp: pieces_of_def draft_of_pieces_def concat_singletons canonical_def text_or_none_def
      split: option.splits)

lemma responses_reads_back:
  assumes "canonical d"
  shows "parse_responses_response (responses_render_response model rid created d usage) = Inr d"
proof -
  have calls: "mapr responses_item (map call_item (rd_tool_calls d)) = Inr (map (\<lambda>c. [Call c]) (rd_tool_calls d))"
    unfolding mapr_map using assms by (intro mapr_all) (auto simp: canonical_def list_all_iff responses_read)
  have items: "mapr responses_item (reply_output_items d) = Inr (pieces_of d)"
    using assms by (cases "rd_reasoning d"; cases "rd_final_text d")
      (simp_all add: reply_output_items_def pieces_of_def mapr_append calls responses_read truthy_text_def canonical_def)
  let ?p = "responses_render_response model rid created d usage"
  have "oget ?p ''error'' = JNull" "oget ?p ''status'' = S ''completed''"
    "oget ?p ''output'' = JList (reply_output_items d)"
    by (simp_all add: responses_render_response_def response_object_def)
  then show ?thesis
    using draft_of_pieces_of [OF assms, of "[]"]
    by (simp add: parse_responses_response_def none_or_completed_def items)
qed

lemma anthropic_read:
  "good_call c \<Longrightarrow> anthropic_block (tool_use_block rnd (n, c)) = Inr [Call c]"
  "anthropic_block (text_block t) = Inr [Text t]"
  by (simp_all add: anthropic_block_def tool_use_block_def text_block_def up_text_def id_or_good up_tool_good Let_def)

lemma enumerate_simps [simp]: "enumerate k xs = [] \<longleftrightarrow> xs = []"
  by (cases xs) simp_all

lemma enumerate_snd: "p \<in> set (enumerate k xs) \<Longrightarrow> snd p \<in> set xs"
  by (induction xs arbitrary: k) auto

lemma anthropic_reads_back:
  assumes "canonical d"
  shows "parse_anthropic_response (anthropic_render_response rnd mid model d usage) = Inr (d\<lparr>rd_reasoning := None\<rparr>)"
proof -
  have calls: "mapr anthropic_block (map (tool_use_block rnd) (enumerate 0 (rd_tool_calls d))) =
      Inr (map (\<lambda>c. [Call c]) (rd_tool_calls d))"
    unfolding mapr_map using assms by (intro enumerate_calls) (auto simp: canonical_def anthropic_read)
  let ?p = "anthropic_render_response rnd mid model d usage"
  let ?e = "if \<not> truthy_text (rd_final_text d) \<and> rd_tool_calls d = [] then [[Text []]] else []"
  have b: "mapr anthropic_block (content_blocks rnd d) =
      Inr (map (\<lambda>c. [Call c]) (rd_tool_calls d) @ (case rd_final_text d of None \<Rightarrow> [] | Some t \<Rightarrow> [[Text t]]) @ ?e)"
    using assms by (cases "rd_final_text d")
      (auto simp: content_blocks_def Let_def mapr_append calls anthropic_read truthy_text_def canonical_def)
  have "oget ?p ''error'' = JNull" "oget ?p ''content'' = JList (content_blocks rnd d)"
    by (simp_all add: anthropic_render_response_def)
  moreover have "draft_of_pieces [10] (concat (map (\<lambda>c. [Call c]) (rd_tool_calls d) @
      (case rd_final_text d of None \<Rightarrow> [] | Some t \<Rightarrow> [[Text t]]) @ ?e)) = d\<lparr>rd_reasoning := None\<rparr>"
    using assms by (cases d; cases "rd_final_text d")
      (auto simp: draft_of_pieces_def concat_singletons canonical_def text_or_none_def truthy_text_def)
  ultimately show ?thesis by (simp add: parse_anthropic_response_def b)
qed

text \<open>The rendered bodies survive the wire.\<close>

lemma wf_items_iff: "wf_items xs \<longleftrightarrow> (\<forall>x \<in> set xs. wf_json x)"
  by (induction xs) auto

lemma wf_pairs_append [simp]: "wf_pairs (d @ e) \<longleftrightarrow> wf_pairs d \<and> wf_pairs e"
  by (induction d) auto

lemma wf_pairs_get: "wf_pairs d \<Longrightarrow> wf_json (oget d k)"
  by (induction d) (auto simp: oget_def)

lemma small_ints [simp]: "int_ok 0"
  by (simp add: int_ok_def nat_digits.simps)

lemma wf_rendered:
  assumes "wf_json (JObj usage)" "int_ok created"
  shows "wf_json (JObj (chat_render_response rnd cid created model d usage))"
    and "wf_json (JObj (responses_render_response model rid created d usage))"
    and "canonical d \<Longrightarrow> wf_json (JObj (anthropic_render_response rnd mid model d usage))"
proof -
  have z: "wf_json (JObj (zero_usage ks))" if "distinct ks" for ks
    using that by (induction ks) (auto simp: zero_usage_def)
  have "wf_json (json_opt t)" for t by (cases t) (simp_all add: json_opt_def)
  moreover have "wf_items (map (chat_tool_call rnd) ps)" for ps
    by (auto simp: wf_items_iff chat_tool_call_def)
  ultimately have "wf_json (JObj (chat_message rnd d))" by (simp add: chat_message_def Let_def)
  then show "wf_json (JObj (chat_render_response rnd cid created model d usage))"
    using assms z [of "[''prompt_tokens'', ''completion_tokens'', ''total_tokens'']"]
    by (simp add: chat_render_response_def)
  have "wf_items (reply_output_items d)"
    by (auto simp: reply_output_items_def wf_items_iff message_item_def reasoning_item_def call_item_def)
  then show "wf_json (JObj (responses_render_response model rid created d usage))"
    using assms z [of "[''input_tokens'', ''output_tokens'', ''total_tokens'']"]
    by (simp add: responses_render_response_def response_object_def responses_usage_def)
  assume "canonical d"
  have "wf_json (tool_use_block rnd p)" if "p \<in> set (enumerate 0 (rd_tool_calls d))" for p
    using enumerate_snd [OF that] \<open>canonical d\<close> by (simp add: tool_use_block_def canonical_def good_call_def list_all_iff)
  then have "wf_items (content_blocks rnd d)"
    by (auto simp: content_blocks_def Let_def wf_items_iff text_block_def)
  moreover have "wf_json (usage_or_0 usage k)" for k using assms(1) wf_pairs_get by (simp add: usage_or_0_def)
  ultimately show "wf_json (JObj (anthropic_render_response rnd mid model d usage))"
    by (simp add: anthropic_render_response_def)
qed

text \<open>
  C20. Gateways compose. The body a gateway answers with, sent over the wire and read by a gateway
  that forwarded to it, gives back the reply: text, reasoning and every tool call with its id,
  name and arguments, in each protocol, except that the Anthropic renderer leaves the
  reasoning out.
\<close>

theorem gateways_compose:
  assumes "canonical d" "wf_json (JObj usage)" "int_ok created"
  shows "bindr (decode_object l (dumps (JObj (chat_render_response rnd cid created model d usage))))
      parse_chat_response = Inr d \<and>
    bindr (decode_object l (dumps (JObj (responses_render_response model rid created d usage))))
      parse_responses_response = Inr d \<and>
    bindr (decode_object l (dumps (JObj (anthropic_render_response rnd mid model d usage))))
      parse_anthropic_response = Inr (d\<lparr>rd_reasoning := None\<rparr>)"
proof -
  have wire: "decode_object l (dumps (JObj x)) = Inr x" if "wf_json (JObj x)" for x
    using loads_dumps [OF that] by (simp add: decode_object_def)
  note w = wf_rendered [OF assms(2,3)]
  show ?thesis
    using wire [OF w(1), of rnd cid model d] wire [OF w(2), of model rid d] wire [OF w(3), OF assms(1), of rnd mid model]
      chat_reads_back [OF assms(1)] responses_reads_back [OF assms(1)] anthropic_reads_back [OF assms(1)]
    by simp
qed

lemma sample_call_canonical: "canonical sample_call_draft"
  by (simp add: canonical_def sample_call_draft_def good_call_def int_ok_def nat_digits.simps
      blank_def strip_def rstrip_def lstrip_def py_space_def u_def)

theorem gateways_compose_witness:
  "bindr (decode_object ''body'' (dumps (JObj (chat_render_response (\<lambda>n. []) (u ''c'') 0 (u ''m'') sample_call_draft []))))
     parse_chat_response = Inr sample_call_draft"
  using gateways_compose [OF sample_call_canonical, of "[]" 0] by simp

lemma up_errors:
  "up_tool i n a = Inl e \<Longrightarrow> e = up_invalid" "up_text v = Inl e \<Longrightarrow> e = up_invalid"
  "list_or_empty v = Inl e \<Longrightarrow> e = up_invalid" "chat_choice v = Inl e \<Longrightarrow> e = up_invalid"
  by (auto simp: up_tool_def up_text_def list_or_empty_def chat_choice_def
      split: json.splits option.splits if_splits list.splits)

lemma chat_call_error: "chat_call v = Inl e \<Longrightarrow> e = up_invalid"
  by (auto simp: chat_call_def up_errors split: json.splits if_splits)

lemma responses_part_error: "responses_part b v = Inl e \<Longrightarrow> e = up_invalid"
  by (auto simp: responses_part_def Let_def bindr_Inl_iff up_errors split: json.splits if_splits)

lemma in_set_Inl: "in_set v vs = Inl e \<Longrightarrow> e = PyError TypeError"
  by (simp add: in_set_def split: if_splits)

lemma responses_item_error: "responses_item v = Inl e \<Longrightarrow> e \<in> {up_invalid, PyError TypeError}"
  by (auto simp: responses_item_def Let_def bindr_Inl_iff none_or_completed_def up_errors
      dest!: in_set_Inl mapr_Inl responses_part_error up_errors split: json.splits if_splits)

lemma anthropic_block_error: "anthropic_block v = Inl e \<Longrightarrow> e = up_invalid"
  by (auto simp: anthropic_block_def Let_def bindr_Inl_iff up_errors split: json.splits if_splits)



end
