(* ===== verification/Sse_Stream.thy ===== *)
theory Sse_Stream
  imports Upstream_Reply "HOL-Library.List_Lexorder"
begin

text \<open>
  The streams of an upstream model (\<open>app/services/llm_upstream.py\<close>, with the history of
  \<open>AnthropicStreamHistory\<close> in \<open>app/protocols/assistant.py\<close>): bytes in chunks, lines, events,
  increments, and the summary they add up to. The body of a response is a list of chunks, each
  with the seconds since the reader started; httpx is not modelled. A generator of the source is
  a consumer here, which gets one event at a time and may stop, so that whatever follows the end
  mark is not read. The status code that the increments carry into the log is left out.

  Python's dictionary keys identify 0, 0.0 and \<open>False\<close>: \<open>dict_key\<close> normalizes them. \<open>sorted\<close>
  is modelled for keys that are all integers or all strings; a mixture with floats counts as a
  \<open>TypeError\<close>. Adding two numbers where the protocols have texts counts as one too, and so does
  a list in place of the usage counts.
\<close>

section \<open>UTF-8\<close>

definition scalar :: "nat \<Rightarrow> bool" where
  "scalar c \<longleftrightarrow> c < 55296 \<or> (57344 \<le> c \<and> c < 1114112)"

definition utf8_char :: "nat \<Rightarrow> nat list" where
  "utf8_char c =
     (if c < 128 then [c]
      else if c < 2048 then [192 + c div 64, 128 + c mod 64]
      else if c < 65536 then [224 + c div 4096, 128 + c div 64 mod 64, 128 + c mod 64]
      else [240 + c div 262144, 128 + c div 4096 mod 64, 128 + c div 64 mod 64, 128 + c mod 64])"

definition utf8 :: "ustr \<Rightarrow> nat list" where
  "utf8 s = concat (map utf8_char s)"

definition cont :: "nat \<Rightarrow> bool" where
  "cont b \<longleftrightarrow> 128 \<le> b \<and> b < 192"

text \<open>The second byte that may follow a first byte of three or four.\<close>

definition second_ok :: "nat \<Rightarrow> nat \<Rightarrow> bool" where
  "second_ok a b \<longleftrightarrow> cont b \<and> (a = 224 \<longrightarrow> 160 \<le> b) \<and> (a = 237 \<longrightarrow> b < 160) \<and>
     (a = 240 \<longrightarrow> 144 \<le> b) \<and> (a = 244 \<longrightarrow> b < 144)"

text \<open>\<open>decode("utf-8", errors="replace")\<close>: the longest start of a character becomes one U+FFFD.\<close>

fun utf8_decode :: "nat list \<Rightarrow> ustr" where
  "utf8_decode [] = []"
| "utf8_decode (a # bs) =
     (if a < 128 then a # utf8_decode bs
      else if a < 194 \<or> 245 \<le> a then 65533 # utf8_decode bs
      else
        (case bs of
           [] \<Rightarrow> [65533]
         | b # bs2 \<Rightarrow>
             (if a < 224 then
                (if cont b then ((a - 192) * 64 + (b - 128)) # utf8_decode bs2 else 65533 # utf8_decode bs)
              else if \<not> second_ok a b then 65533 # utf8_decode bs
              else
                (case bs2 of
                   [] \<Rightarrow> [65533]
                 | c # bs3 \<Rightarrow>
                     (if \<not> cont c then 65533 # utf8_decode bs2
                      else if a < 240
                      then ((a - 224) * 4096 + (b - 128) * 64 + (c - 128)) # utf8_decode bs3
                      else
                        (case bs3 of
                           [] \<Rightarrow> [65533]
                         | d # bs4 \<Rightarrow>
                             (if \<not> cont d then 65533 # utf8_decode bs3
                              else ((a - 240) * 262144 + (b - 128) * 4096 + (c - 128) * 64 + (d - 128)) #
                                   utf8_decode bs4)))))))"

lemma utf8_simps [simp]: "utf8 [] = []" "utf8 (c # s) = utf8_char c @ utf8 s" "utf8 (s @ t) = utf8 s @ utf8 t"
  by (simp_all add: utf8_def)

lemma split_64: "(c :: nat) = c div 4096 * 4096 + c div 64 mod 64 * 64 + c mod 64"
proof -
  have "c div 64 div 64 = c div 4096" by (simp add: div_mult2_eq [symmetric])
  then have "c div 64 = c div 4096 * 64 + c div 64 mod 64" using div_mult_mod_eq [of "c div 64" 64] by simp
  then have "c div 64 * 64 = c div 4096 * 4096 + c div 64 mod 64 * 64" by linarith
  then show ?thesis using div_mult_mod_eq [of c 64] by linarith
qed

lemma utf8_decode_char: "scalar c \<Longrightarrow> utf8_decode (utf8_char c @ bs) = c # utf8_decode bs"
proof -
  assume c: "scalar c"
  consider "c < 128" | "128 \<le> c" "c < 2048" | "2048 \<le> c" "c < 65536" | "65536 \<le> c" by linarith
  then show ?thesis
  proof cases
    case 1
    then show ?thesis by (simp add: utf8_char_def)
  next
    case 2
    then have "c div 64 < 32" "2 \<le> c div 64" by auto
    then show ?thesis using 2 by (simp add: utf8_char_def cont_def mult.commute)
  next
    case 3
    define a b d where "a = c div 4096" "b = c div 64 mod 64" "d = c mod 64"
    have s: "c = a * 4096 + b * 64 + d" unfolding a_b_d_def by (rule split_64)
    have "a < 16" "b < 64" "d < 64" using 3 by (auto simp: a_b_d_def)
    moreover have "a = 0 \<Longrightarrow> 32 \<le> b" "a = 13 \<Longrightarrow> b < 32" using 3 c s \<open>b < 64\<close> \<open>d < 64\<close> by (auto simp: scalar_def)
    moreover have "utf8_char c = [224 + a, 128 + b, 128 + d]" using 3 by (simp add: utf8_char_def a_b_d_def)
    ultimately have "utf8_char c = [224 + a, 128 + b, 128 + d]" "second_ok (224 + a) (128 + b)" "cont (128 + d)" "a < 16"
      by (auto simp: second_ok_def cont_def)
    then show ?thesis by (simp add: s [symmetric])
  next
    case 4
    define a b d e where "a = c div 262144" "b = c div 4096 mod 64" "d = c div 64 mod 64" "e = c mod 64"
    have "c div 4096 div 64 = a" by (simp add: a_b_d_e_def div_mult2_eq [symmetric])
    then have "c div 4096 = a * 64 + b" using div_mult_mod_eq [of "c div 4096" 64] by (simp add: a_b_d_e_def)
    then have s: "c = a * 262144 + b * 4096 + d * 64 + e" using split_64 [of c] by (simp add: a_b_d_e_def)
    have lt: "b < 64" "d < 64" "e < 64" by (auto simp: a_b_d_e_def)
    have a: "a < 5" using c 4 by (auto simp: a_b_d_e_def scalar_def)
    have "a = 0 \<Longrightarrow> 16 \<le> b" "a = 4 \<Longrightarrow> b < 16" using 4 c s lt by (auto simp: scalar_def)
    moreover have "utf8_char c = [240 + a, 128 + b, 128 + d, 128 + e]" using 4 by (simp add: utf8_char_def a_b_d_e_def)
    ultimately have "utf8_char c = [240 + a, 128 + b, 128 + d, 128 + e]" "second_ok (240 + a) (128 + b)"
        "cont (128 + d)" "cont (128 + e)"
      using a lt by (auto simp: second_ok_def cont_def)
    then show ?thesis using a by (simp add: s [symmetric])
  qed
qed

lemma utf8_decode_encode [simp]: "list_all scalar s \<Longrightarrow> utf8_decode (utf8 s) = s"
  by (induction s) (simp_all add: utf8_decode_char del: utf8_decode.simps(2))

lemma utf8_char_ascii: "b \<in> set (utf8_char c) \<Longrightarrow> b < 128 \<Longrightarrow> b = c"
  by (auto simp: utf8_char_def split: if_splits)

section \<open>Errors\<close>

definition upstream_status :: "int \<Rightarrow> exn" where
  "upstream_status status = err_text UPSTREAM_ERROR (u ''the upstream model returned '' @ int_str status) 502 None"

definition upstream_timeout :: exn where
  "upstream_timeout = err REQUEST_TIMEOUT ''the upstream model timed out'' 504"

definition upstream_network :: exn where
  "upstream_network = err UPSTREAM_ERROR ''network error of the upstream model'' 502"

definition bad_json :: exn where
  "bad_json = err UPSTREAM_ERROR ''the response of the upstream model is not JSON'' 502"

definition incomplete_stream :: exn where
  "incomplete_stream = err UPSTREAM_ERROR ''the stream of the upstream model did not complete'' 502"

definition too_large :: "string \<Rightarrow> exn" where
  "too_large what = err UPSTREAM_ERROR (''the response of the upstream model is too large: '' @ what) 502"

definition parse_tool_arguments :: "json \<Rightarrow> obj result" where
  "parse_tool_arguments v =
     (case (case v of JStr s \<Rightarrow> loads s | _ \<Rightarrow> Some v) of
        Some (JObj d) \<Rightarrow> Inr d
      | _ \<Rightarrow> Inl bad_json)"

section \<open>Lines and events\<close>

definition MAX_STREAM_BYTES :: nat where "MAX_STREAM_BYTES = 16 * 1024 * 1024"
definition MAX_STREAM_SECONDS :: nat where "MAX_STREAM_SECONDS = 600"
definition MAX_LINE_BYTES :: nat where "MAX_LINE_BYTES = 1024 * 1024"

text \<open>An event: its name and its data; no data for \<open>[DONE]\<close>.\<close>

type_synonym sse_event = "ustr \<times> obj option"

record sse_reader =
  sr_pending :: "nat list"
  sr_skip_lf :: bool
  sr_name :: ustr
  sr_data :: "ustr list"

definition reader0 :: sse_reader where
  "reader0 = \<lparr>sr_pending = [], sr_skip_lf = False, sr_name = [], sr_data = []\<rparr>"

definition decode_sse_event :: "ustr \<Rightarrow> ustr list \<Rightarrow> sse_event result" where
  "decode_sse_event name data =
     (let raw = join [10] data
      in if strip raw = u ''[DONE]'' then Inr (name, None)
         else (case loads raw of Some (JObj d) \<Rightarrow> Inr (name, Some d) | _ \<Rightarrow> Inl bad_json))"

definition remove_space :: "ustr \<Rightarrow> ustr" where
  "remove_space s = (if startswith s [32] then tl s else s)"

definition sse_line :: "sse_reader \<Rightarrow> ustr \<Rightarrow> (sse_reader \<times> sse_event option) result" where
  "sse_line r line =
     (if line = [] then
        (if sr_data r \<noteq> [] then
           bindr (decode_sse_event (sr_name r) (sr_data r)) (\<lambda>e. Inr (r\<lparr>sr_name := [], sr_data := []\<rparr>, Some e))
         else Inr (r\<lparr>sr_name := [], sr_data := []\<rparr>, None))
      else if startswith line (u ''event:'') then Inr (r\<lparr>sr_name := strip (drop 6 line)\<rparr>, None)
      else if startswith line (u ''data:'') then Inr (r\<lparr>sr_data := sr_data r @ [remove_space (drop 5 line)]\<rparr>, None)
      else Inr (r, None))"

definition sse_byte :: "sse_reader \<Rightarrow> nat \<Rightarrow> (sse_reader \<times> sse_event option) result" where
  "sse_byte r b =
     (if sr_skip_lf r \<and> b = 10 then Inr (r\<lparr>sr_skip_lf := False\<rparr>, None)
      else if b = 10 \<or> b = 13 then
        sse_line (r\<lparr>sr_skip_lf := (b = 13), sr_pending := []\<rparr>) (utf8_decode (sr_pending r))
      else if length (sr_pending r) + 1 > MAX_LINE_BYTES then Inl (too_large ''line'')
      else Inr (r\<lparr>sr_skip_lf := False, sr_pending := sr_pending r @ [b]\<rparr>, None))"

text \<open>What a consumer does with an event: it reads on, or it is done.\<close>

datatype 's flow = More 's | Stop 's

type_synonym 's consumer = "'s \<Rightarrow> sse_event \<Rightarrow> 's flow result"

fun read_bytes :: "'s consumer \<Rightarrow> sse_reader \<Rightarrow> 's \<Rightarrow> nat list \<Rightarrow> (sse_reader \<times> 's flow) result" where
  "read_bytes f r s [] = Inr (r, More s)"
| "read_bytes f r s (b # bs) =
     bindr (sse_byte r b) (\<lambda>(r', e).
     (case e of
        None \<Rightarrow> read_bytes f r' s bs
      | Some ev \<Rightarrow>
          bindr (f s ev) (\<lambda>flow.
          (case flow of Stop s' \<Rightarrow> Inr (r', Stop s') | More s' \<Rightarrow> read_bytes f r' s' bs))))"

definition read_end :: "'s consumer \<Rightarrow> sse_reader \<Rightarrow> 's \<Rightarrow> 's flow result" where
  "read_end f r s =
     bindr (if sr_pending r = [] then Inr (r, None) else sse_line r (utf8_decode (sr_pending r))) (\<lambda>(r', e).
     if sr_data r' \<noteq> [] then bindr (decode_sse_event (sr_name r') (sr_data r')) (f s) else Inr (More s))"

fun read_chunks :: "'s consumer \<Rightarrow> nat \<Rightarrow> sse_reader \<Rightarrow> 's \<Rightarrow> (nat list \<times> nat) list \<Rightarrow> 's flow result" where
  "read_chunks f n r s [] = read_end f r s"
| "read_chunks f n r s ((c, t) # cs) =
     (if n + length c > MAX_STREAM_BYTES then Inl (too_large ''stream'')
      else if t > MAX_STREAM_SECONDS then Inl upstream_timeout
      else
        bindr (read_bytes f r s c) (\<lambda>(r', flow).
        (case flow of Stop s' \<Rightarrow> Inr (Stop s') | More s' \<Rightarrow> read_chunks f (n + length c) r' s' cs)))"

definition completed_stream :: "'s flow result \<Rightarrow> 's result" where
  "completed_stream m = bindr m (\<lambda>flow. case flow of Stop s \<Rightarrow> Inr s | More s \<Rightarrow> Inl incomplete_stream)"

section \<open>Increments\<close>

text \<open>An increment; no call is the empty dictionary, which is as false as \<open>None\<close>.\<close>

record chunk =
  ck_text :: json
  ck_reasoning :: json
  ck_tool_call :: obj
  ck_native :: "obj option"

definition text_chunk :: "json \<Rightarrow> json \<Rightarrow> chunk" where
  "text_chunk t r = \<lparr>ck_text = t, ck_reasoning = r, ck_tool_call = [], ck_native = None\<rparr>"

definition call_chunk :: "obj \<Rightarrow> chunk" where
  "call_chunk d = \<lparr>ck_text = S '''', ck_reasoning = S '''', ck_tool_call = d, ck_native = None\<rparr>"

definition native_chunk :: "obj \<Rightarrow> chunk" where
  "native_chunk d = \<lparr>ck_text = S '''', ck_reasoning = S '''', ck_tool_call = [], ck_native = Some d\<rparr>"

text \<open>\<open>v.get(k)\<close>, \<open>d.get(k, default)\<close> and \<open>v[0]\<close>.\<close>

definition attr_get :: "json \<Rightarrow> string \<Rightarrow> json result" where
  "attr_get v k = (case v of JObj d \<Rightarrow> Inr (oget d k) | _ \<Rightarrow> Inl (PyError AttributeError))"

definition get_default :: "obj \<Rightarrow> string \<Rightarrow> json \<Rightarrow> json" where
  "get_default d k v = (if ohas d k then oget d k else v)"

definition first_item :: "json \<Rightarrow> json result" where
  "first_item v =
     (case v of JList (x # xs) \<Rightarrow> Inr x | JStr (c # s) \<Rightarrow> Inr (JStr [c]) | JObj d \<Rightarrow> Inl (PyError KeyError)
      | _ \<Rightarrow> Inl (PyError TypeError))"

subsection \<open>Chat Completions\<close>

definition chat_delta_call :: "json \<Rightarrow> chunk result" where
  "chat_delta_call v =
     (case v of
        JObj call \<Rightarrow>
          (let fn = or_else (oget call ''function'') (JObj [])
           in bindr (attr_get fn ''arguments'') (\<lambda>arguments.
              bindr (attr_get fn ''name'') (\<lambda>name.
              Inr (call_chunk
                ([(u ''index'', get_default call ''index'' (JInt 0)),
                  (u ''arguments_delta'', or_else arguments (S ''''))] @
                 (if truthy (oget call ''id'') then [(u ''id'', oget call ''id'')] else []) @
                 (if truthy name then [(u ''name'', name)] else []))))))
      | _ \<Rightarrow> Inl bad_json)"

definition parse_chat_delta :: "obj \<Rightarrow> chunk list result" where
  "parse_chat_delta payload =
     (let choices = or_else (oget payload ''choices'') (JList [])
      in if \<not> truthy choices then Inr []
         else
           bindr (first_item choices) (\<lambda>choice.
           bindr (attr_get choice ''delta'') (\<lambda>d.
           let delta = or_else d (JObj [])
           in bindr (attr_get delta ''content'') (\<lambda>text.
              bindr (attr_get delta ''reasoning_content'') (\<lambda>reasoning.
              bindr (attr_get delta ''tool_calls'') (\<lambda>calls.
              bindr (case calls of JList cs \<Rightarrow> mapr chat_delta_call cs | _ \<Rightarrow> Inr []) (\<lambda>tools.
              Inr ((if truthy text \<or> truthy reasoning
                    then [text_chunk (or_else text (S '''')) (or_else reasoning (S ''''))] else []) @ tools))))))))"

definition chat_consumer :: "chunk list consumer" where
  "chat_consumer chunks ev =
     (case snd ev of
        None \<Rightarrow> Inr (Stop chunks)
      | Some payload \<Rightarrow>
          if ohas payload ''error'' \<or> oget payload ''type'' = S ''error'' then Inl incomplete_stream
          else bindr (parse_chat_delta payload) (\<lambda>cs. Inr (More (chunks @ cs))))"

definition stream_chat_completions :: "(nat list \<times> nat) list \<Rightarrow> chunk list result" where
  "stream_chat_completions body = completed_stream (read_chunks chat_consumer 0 reader0 [] body)"

subsection \<open>Responses\<close>

definition parse_responses_event :: "obj \<Rightarrow> chunk option result" where
  "parse_responses_event payload =
     (let event_type = or_else (oget payload ''type'') (S '''')
      in if event_type = S ''error'' \<or> event_type = S ''response.failed'' \<or> event_type = S ''response.incomplete'' \<or>
            ohas payload ''error''
         then Inl incomplete_stream
         else if event_type = S ''response.output_text.delta''
         then Inr (Some (text_chunk (or_else (oget payload ''delta'') (S '''')) (S '''')))
         else if event_type = S ''response.reasoning_summary_text.delta'' \<or> event_type = S ''response.reasoning.delta''
         then Inr (Some (text_chunk (S '''') (or_else (oget payload ''delta'') (S ''''))))
         else if event_type = S ''response.output_item.done'' then
           (case or_else (oget payload ''item'') (JObj []) of
              JObj item \<Rightarrow>
                if oget item ''type'' = S ''function_call'' then
                  bindr (parse_tool_arguments (oget item ''arguments'')) (\<lambda>arguments.
                  Inr (Some (call_chunk [(u ''id'', get_default item ''call_id'' (S '''')),
                    (u ''name'', get_default item ''name'' (S '''')), (u ''arguments'', JObj arguments)])))
                else Inr None
            | _ \<Rightarrow> Inl (PyError AttributeError))
         else Inr None)"

definition responses_consumer :: "chunk list consumer" where
  "responses_consumer chunks ev =
     (case snd ev of
        None \<Rightarrow> Inl incomplete_stream
      | Some payload \<Rightarrow>
          if oget payload ''type'' = S ''response.completed'' then
            (case or_else (oget payload ''response'') (JObj []) of
               JObj response \<Rightarrow>
                 if oget response ''status'' \<noteq> S ''completed'' then Inl incomplete_stream
                 else Inr (Stop (chunks @ [native_chunk response]))
             | _ \<Rightarrow> Inl (PyError AttributeError))
          else bindr (parse_responses_event payload) (\<lambda>c. Inr (More (chunks @ (case c of None \<Rightarrow> [] | Some x \<Rightarrow> [x])))))"

definition stream_responses :: "(nat list \<times> nat) list \<Rightarrow> chunk list result" where
  "stream_responses body = completed_stream (read_chunks responses_consumer 0 reader0 [] body)"

subsection \<open>Anthropic Messages\<close>

fun norm_key :: "json \<Rightarrow> json" where
  "norm_key (JBool b) = JInt (if b then 1 else 0)"
| "norm_key (JFloat (Dec neg m e)) =
     (if m = 0 then JInt 0
      else if 0 \<le> e then JInt ((if neg then -1 else 1) * int m * 10 ^ nat e)
      else JFloat (Dec neg m e))"
| "norm_key v = v"

definition dict_key :: "json \<Rightarrow> json result" where
  "dict_key v = (if hashable v then Inr (norm_key v) else Inl (PyError TypeError))"

fun kput :: "(json \<times> 'a) list \<Rightarrow> json \<Rightarrow> 'a \<Rightarrow> (json \<times> 'a) list" where
  "kput [] k v = [(k, v)]"
| "kput ((j, w) # d) k v = (if j = k then (k, v) # d else (j, w) # kput d k v)"

definition kdel :: "(json \<times> 'a) list \<Rightarrow> json \<Rightarrow> (json \<times> 'a) list" where
  "kdel d k = filter (\<lambda>(j, v). j \<noteq> k) d"

definition py_add :: "json \<Rightarrow> json \<Rightarrow> json result" where
  "py_add a b =
     (case (a, b) of
        (JStr s, JStr t) \<Rightarrow> Inr (JStr (s @ t))
      | (JList xs, JList ys) \<Rightarrow> Inr (JList (xs @ ys))
      | _ \<Rightarrow> Inl (PyError TypeError))"

record tool_buffer =
  tb_id :: json
  tb_name :: json
  tb_json :: ustr
  tb_initial :: json

text \<open>
  \<open>_parse_anthropic_event\<close>. The initial input is kept as a value: the source writes it with
  \<open>json.dumps\<close> and reads it back at the end of the block.
\<close>

definition anthropic_delta :: "json \<Rightarrow> json \<Rightarrow> (json \<times> tool_buffer) list \<Rightarrow> ((json \<times> tool_buffer) list \<times> chunk option) result" where
  "anthropic_delta index d buffers =
     (case or_else d (JObj []) of
        JObj delta \<Rightarrow>
          if oget delta ''type'' = S ''text_delta''
          then Inr (buffers, Some (text_chunk (get_default delta ''text'' (S '''')) (S '''')))
          else if oget delta ''type'' = S ''thinking_delta''
          then Inr (buffers, Some (text_chunk (S '''') (get_default delta ''thinking'' (S ''''))))
          else if oget delta ''type'' = S ''input_json_delta'' then
            bindr (dict_key index) (\<lambda>k.
            (case map_of buffers k of
               None \<Rightarrow> Inl incomplete_stream
             | Some buf \<Rightarrow>
                 (case get_default delta ''partial_json'' (S '''') of
                    JStr s \<Rightarrow> Inr (kput buffers k (buf\<lparr>tb_json := tb_json buf @ s\<rparr>), None)
                  | _ \<Rightarrow> Inl (PyError TypeError))))
          else Inr (buffers, None)
      | _ \<Rightarrow> Inl (PyError AttributeError))"

definition anthropic_block_start :: "json \<Rightarrow> json \<Rightarrow> (json \<times> tool_buffer) list \<Rightarrow> ((json \<times> tool_buffer) list \<times> chunk option) result" where
  "anthropic_block_start index b buffers =
     (case or_else b (JObj []) of
        JObj block \<Rightarrow>
          if oget block ''type'' = S ''tool_use'' then
            bindr (dict_key index) (\<lambda>k.
            Inr (kput buffers k \<lparr>tb_id = get_default block ''id'' (S ''''), tb_name = get_default block ''name'' (S ''''),
                   tb_json = [], tb_initial = get_default block ''input'' (JObj [])\<rparr>, None))
          else Inr (buffers, None)
      | _ \<Rightarrow> Inl (PyError AttributeError))"

definition anthropic_block_stop :: "json \<Rightarrow> (json \<times> tool_buffer) list \<Rightarrow> ((json \<times> tool_buffer) list \<times> chunk option) result" where
  "anthropic_block_stop index buffers =
     bindr (dict_key index) (\<lambda>k.
     (case map_of buffers k of
        None \<Rightarrow> Inr (buffers, None)
      | Some buf \<Rightarrow>
          bindr (if tb_json buf \<noteq> [] then parse_tool_arguments (JStr (tb_json buf))
                 else (case tb_initial buf of JObj d \<Rightarrow> Inr d | _ \<Rightarrow> Inl bad_json)) (\<lambda>arguments.
          Inr (kdel buffers k, Some (call_chunk
            [(u ''id'', tb_id buf), (u ''name'', tb_name buf), (u ''arguments'', JObj arguments)])))))"

definition event_kind :: "ustr \<Rightarrow> obj \<Rightarrow> json" where
  "event_kind event payload = or_else (oget payload ''type'') (JStr event)"

definition parse_anthropic_event ::
  "ustr \<Rightarrow> obj \<Rightarrow> (json \<times> tool_buffer) list \<Rightarrow> ((json \<times> tool_buffer) list \<times> chunk option) result" where
  "parse_anthropic_event event payload buffers =
     (let etype = event_kind event payload; index = get_default payload ''index'' (JInt 0)
      in if etype = S ''error'' \<or> ohas payload ''error'' then Inl incomplete_stream
         else if etype = S ''content_block_delta'' then anthropic_delta index (oget payload ''delta'') buffers
         else if etype = S ''content_block_start'' then anthropic_block_start index (oget payload ''content_block'') buffers
         else if etype = S ''content_block_stop'' then anthropic_block_stop index buffers
         else Inr (buffers, None))"

text \<open>\<open>AnthropicStreamHistory\<close>.\<close>

record stream_history =
  sh_blocks :: "(json \<times> obj) list"
  sh_arguments :: "(json \<times> ustr) list"
  sh_usage :: obj

definition history0 :: stream_history where
  "history0 = \<lparr>sh_blocks = [], sh_arguments = [], sh_usage = []\<rparr>"

definition update_usage :: "json \<Rightarrow> stream_history \<Rightarrow> stream_history result" where
  "update_usage v h =
     (if \<not> truthy v then Inr h
      else
        (case v of
           JObj d \<Rightarrow> Inr (h\<lparr>sh_usage := oupdate (sh_usage h) d\<rparr>)
         | JStr s \<Rightarrow> Inl (PyError ValueError)
         | _ \<Rightarrow> Inl (PyError TypeError)))"

definition history_field :: "json \<Rightarrow> string option result" where
  "history_field ty =
     (if \<not> hashable ty then Inl (PyError TypeError)
      else Inr (if ty = S ''text_delta'' then Some ''text'' else if ty = S ''thinking_delta'' then Some ''thinking''
                else if ty = S ''signature_delta'' then Some ''signature'' else None))"

definition history_delta :: "json \<Rightarrow> json \<Rightarrow> stream_history \<Rightarrow> stream_history result" where
  "history_delta index d h =
     bindr (dict_key index) (\<lambda>k.
     (let block = (case map_of (sh_blocks h) k of None \<Rightarrow> [] | Some b \<Rightarrow> b)
      in case or_else d (JObj []) of
           JObj delta \<Rightarrow>
             bindr (history_field (oget delta ''type'')) (\<lambda>field.
             (case field of
                Some f \<Rightarrow>
                  bindr (py_add (get_default block f (S '''')) (get_default delta f (S ''''))) (\<lambda>v.
                  Inr (h\<lparr>sh_blocks := kput (sh_blocks h) k (oset block f v)\<rparr>))
              | None \<Rightarrow>
                  (let h' = h\<lparr>sh_blocks := kput (sh_blocks h) k block\<rparr>
                   in if oget delta ''type'' = S ''input_json_delta'' then
                        (case get_default delta ''partial_json'' (S '''') of
                           JStr s \<Rightarrow> Inr (h'\<lparr>sh_arguments := kput (sh_arguments h) k
                             ((case map_of (sh_arguments h) k of None \<Rightarrow> [] | Some a \<Rightarrow> a) @ s)\<rparr>)
                         | _ \<Rightarrow> Inl (PyError TypeError))
                      else Inr h')))
         | _ \<Rightarrow> Inl (PyError AttributeError)))"

definition streamed_arguments :: "ustr \<Rightarrow> obj result" where
  "streamed_arguments raw =
     (case loads raw of
        None \<Rightarrow> Inl (err UPSTREAM_ERROR ''the tool arguments of the upstream model are not JSON'' 502)
      | Some (JObj d) \<Rightarrow> Inr d
      | Some _ \<Rightarrow> Inl (err UPSTREAM_ERROR ''the tool arguments of the upstream model are not a JSON object'' 502))"

definition history_stop :: "json \<Rightarrow> stream_history \<Rightarrow> stream_history result" where
  "history_stop index h =
     bindr (dict_key index) (\<lambda>k.
     (case map_of (sh_arguments h) k of
        None \<Rightarrow> Inr h
      | Some raw \<Rightarrow>
          bindr (streamed_arguments raw) (\<lambda>d.
          (case map_of (sh_blocks h) k of
             None \<Rightarrow> Inl (PyError KeyError)
           | Some block \<Rightarrow> Inr (h\<lparr>sh_arguments := kdel (sh_arguments h) k,
               sh_blocks := kput (sh_blocks h) k (oset block ''input'' (JObj d))\<rparr>)))))"

definition history_consume :: "ustr \<Rightarrow> obj \<Rightarrow> stream_history \<Rightarrow> stream_history result" where
  "history_consume event payload h =
     (let kind = event_kind event payload; index = get_default payload ''index'' (JInt 0)
      in if kind = S ''message_start'' then
           bindr (attr_get (or_else (oget payload ''message'') (JObj [])) ''usage'') (\<lambda>v. update_usage v h)
         else if kind = S ''message_delta'' then update_usage (oget payload ''usage'') h
         else if kind = S ''content_block_start'' then
           bindr (dict_key index) (\<lambda>k.
           Inr (h\<lparr>sh_blocks := kput (sh_blocks h) k (obj_of (or_else (oget payload ''content_block'') (JObj [])))\<rparr>))
         else if kind = S ''content_block_delta'' then history_delta index (oget payload ''delta'') h
         else if kind = S ''content_block_stop'' then history_stop index h
         else Inr h)"

fun int_key :: "json \<Rightarrow> int" where "int_key (JInt i) = i" | "int_key v = 0"

definition sorted_keys :: "json list \<Rightarrow> json list result" where
  "sorted_keys ks =
     (if length ks \<le> 1 then Inr ks
      else if list_all is_int ks then Inr (sort_key int_key ks)
      else if list_all is_str ks then Inr (map JStr (sort (map str_of ks)))
      else Inl (PyError TypeError))"

definition history_response :: "stream_history \<Rightarrow> obj result" where
  "history_response h =
     bindr (sorted_keys (map fst (sh_blocks h))) (\<lambda>ks.
     Inr [(u ''content'', JList (map (\<lambda>k. JObj (the (map_of (sh_blocks h) k))) ks)), (u ''usage'', JObj (sh_usage h))])"

record anthropic_reader =
  ar_chunks :: "chunk list"
  ar_buffers :: "(json \<times> tool_buffer) list"
  ar_history :: stream_history

definition anthropic_consumer :: "anthropic_reader consumer" where
  "anthropic_consumer a ev =
     (case ev of
        (event, None) \<Rightarrow> Inl incomplete_stream
      | (event, Some payload) \<Rightarrow>
          if event_kind event payload = S ''message_stop'' then
            (if ar_buffers a \<noteq> [] then Inl incomplete_stream
             else bindr (history_response (ar_history a)) (\<lambda>d. Inr (Stop (a\<lparr>ar_chunks := ar_chunks a @ [native_chunk d]\<rparr>))))
          else
            bindr (parse_anthropic_event event payload (ar_buffers a)) (\<lambda>(buffers, c).
            bindr (history_consume event payload (ar_history a)) (\<lambda>h.
            Inr (More \<lparr>ar_chunks = ar_chunks a @ (case c of None \<Rightarrow> [] | Some x \<Rightarrow> [x]),
              ar_buffers = buffers, ar_history = h\<rparr>))))"

definition stream_anthropic_messages :: "(nat list \<times> nat) list \<Rightarrow> chunk list result" where
  "stream_anthropic_messages body =
     bindr (completed_stream (read_chunks anthropic_consumer 0 reader0
       \<lparr>ar_chunks = [], ar_buffers = [], ar_history = history0\<rparr> body)) (\<lambda>a. Inr (ar_chunks a))"

section \<open>Summing up\<close>

text \<open>
  What \<open>arguments_raw\<close> can be. Its pieces are added with \<open>+\<close>; only a text or a dictionary can
  become the arguments of a call, and dictionaries do not add.
\<close>

datatype raw_arguments = RawText ustr | RawDict obj | RawList | RawNumber

definition raw_of :: "json \<Rightarrow> raw_arguments" where
  "raw_of v = (case v of JStr s \<Rightarrow> RawText s | JObj d \<Rightarrow> RawDict d | JList xs \<Rightarrow> RawList | _ \<Rightarrow> RawNumber)"

fun raw_add :: "raw_arguments \<Rightarrow> raw_arguments \<Rightarrow> raw_arguments result" where
  "raw_add (RawText s) (RawText t) = Inr (RawText (s @ t))"
| "raw_add RawList RawList = Inr RawList"
| "raw_add RawNumber RawNumber = Inr RawNumber"
| "raw_add _ _ = Inl (PyError TypeError)"

datatype stream_call = Whole json json obj | Partial json json raw_arguments

record collected =
  co_text :: ustr
  co_reasoning :: ustr
  co_calls :: "stream_call list"
  co_index :: "(json \<times> nat) list"
  co_head :: raw_arguments
  co_native :: "obj option"

definition collected0 :: collected where
  "collected0 = \<lparr>co_text = [], co_reasoning = [], co_calls = [], co_index = [], co_head = RawText [], co_native = None\<rparr>"

definition add_text :: "ustr \<Rightarrow> json \<Rightarrow> ustr result" where
  "add_text s v = (if \<not> truthy v then Inr s else case v of JStr t \<Rightarrow> Inr (s @ t) | _ \<Rightarrow> Inl (PyError TypeError))"

definition add_partial :: "stream_call \<Rightarrow> raw_arguments \<Rightarrow> stream_call result" where
  "add_partial c delta =
     (case c of
        Partial i n raw \<Rightarrow> bindr (raw_add raw delta) (\<lambda>r. Inr (Partial i n r))
      | Whole i n d \<Rightarrow> bindr (raw_add (RawText []) delta) (\<lambda>r. Inr c))"

text \<open>The position that an increment of the arguments goes to; \<open>None\<close> when no call is open.\<close>

definition delta_position :: "collected \<Rightarrow> json \<Rightarrow> nat option result" where
  "delta_position t index =
     bindr (dict_key index) (\<lambda>k.
     Inr (case map_of (co_index t) k of
            Some p \<Rightarrow> Some p
          | None \<Rightarrow>
              (if co_calls t = [] then None
               else case last (co_calls t) of
                      Partial i n r \<Rightarrow> Some (length (co_calls t) - 1) | Whole i n d \<Rightarrow> None)))"

definition collect_call :: "obj \<Rightarrow> collected \<Rightarrow> collected result" where
  "collect_call call t =
     (if call = [] then Inr t
      else if ohas call ''arguments'' then
        Inr (t\<lparr>co_calls := co_calls t @ [Whole (get_default call ''id'' (S '''')) (get_default call ''name'' (S ''''))
          (obj_of (oget call ''arguments''))]\<rparr>)
      else if ohas call ''id'' then
        bindr (dict_key (get_default call ''index'' (JInt 0))) (\<lambda>k.
        Inr (t\<lparr>co_index := kput (co_index t) k (length (co_calls t)),
          co_calls := co_calls t @ [Partial (get_default call ''id'' (S '''')) (get_default call ''name'' (S ''''))
            (raw_of (get_default call ''arguments_delta'' (S '''')))]\<rparr>))
      else if ohas call ''arguments_delta'' then
        bindr (delta_position t (oget call ''index'')) (\<lambda>position.
        (case position of
           None \<Rightarrow> bindr (raw_add (co_head t) (raw_of (oget call ''arguments_delta''))) (\<lambda>r. Inr (t\<lparr>co_head := r\<rparr>))
         | Some p \<Rightarrow>
             bindr (add_partial (co_calls t ! p) (raw_of (oget call ''arguments_delta''))) (\<lambda>c.
             Inr (t\<lparr>co_calls := (co_calls t)[p := c]\<rparr>))))
      else Inr t)"

definition collect_chunk :: "chunk \<Rightarrow> collected \<Rightarrow> collected result" where
  "collect_chunk c t =
     bindr (add_text (co_text t) (ck_text c)) (\<lambda>text.
     bindr (add_text (co_reasoning t) (ck_reasoning c)) (\<lambda>reasoning.
     collect_call (ck_tool_call c)
       (t\<lparr>co_text := text, co_reasoning := reasoning,
          co_native := (case ck_native c of None \<Rightarrow> co_native t | Some d \<Rightarrow> Some d)\<rparr>)))"

fun collect_chunks :: "chunk list \<Rightarrow> collected \<Rightarrow> collected result" where
  "collect_chunks [] t = Inr t"
| "collect_chunks (c # cs) t = bindr (collect_chunk c t) (collect_chunks cs)"

definition raw_arguments_object :: "raw_arguments \<Rightarrow> obj result" where
  "raw_arguments_object r = (case r of RawText s \<Rightarrow> parse_tool_arguments (JStr s) | RawDict d \<Rightarrow> Inr d | _ \<Rightarrow> Inl bad_json)"

definition finish_call :: "stream_call \<Rightarrow> (json \<times> json \<times> obj) result" where
  "finish_call c =
     (case c of
        Whole i n d \<Rightarrow> Inr (i, n, d)
      | Partial i n raw \<Rightarrow> bindr (raw_arguments_object raw) (\<lambda>d. Inr (i, n, d)))"

text \<open>
  \<open>finalize_collected\<close>, and the \<open>ReplyDraft\<close> its caller makes of the summary, which refuses an
  id or a name that is not a text.
\<close>

definition finalize_calls :: "collected \<Rightarrow> (json \<times> json \<times> obj) list result" where
  "finalize_calls t =
     bindr (mapr finish_call (co_calls t)) (\<lambda>calls.
     if calls = [] \<and> co_head t \<noteq> RawText []
     then bindr (raw_arguments_object (co_head t)) (\<lambda>d. Inr [(S '''', S '''', d)])
     else Inr calls)"

definition draft_call :: "json \<times> json \<times> obj \<Rightarrow> reply_tool_call result" where
  "draft_call p =
     (case p of
        (JStr i, JStr n, d) \<Rightarrow> Inr \<lparr>rtc_id = i, rtc_name = n, rtc_arguments = d\<rparr>
      | _ \<Rightarrow> Inl (PyError ValueError))"

definition finalize_collected :: "collected \<Rightarrow> reply_draft result" where
  "finalize_collected t =
     bindr (finalize_calls t) (\<lambda>calls.
     bindr (mapr draft_call calls) (\<lambda>tools.
     Inr \<lparr>rd_reasoning = text_or_none (co_reasoning t), rd_tool_calls = tools,
       rd_final_text = text_or_none (co_text t)\<rparr>))"

definition draft_of_chunks :: "chunk list \<Rightarrow> reply_draft result" where
  "draft_of_chunks chunks = bindr (collect_chunks chunks collected0) finalize_collected"

end
