(* ===== verification/Stream_Read.thy ===== *)
theory Stream_Read
  imports Sse_Stream
begin

text \<open>
  A gateway reads the stream of another gateway: how the network cuts the bytes does not matter,
  and the reply collected from the stream is the reply that was rendered into it.
\<close>

section \<open>Bytes\<close>

lemma read_bytes_append:
  "read_bytes f r s (xs @ ys) =
     bindr (read_bytes f r s xs) (\<lambda>(r', flow).
     case flow of Stop s' \<Rightarrow> Inr (r', Stop s') | More s' \<Rightarrow> read_bytes f r' s' ys)"
proof (induction xs arbitrary: r s)
  case Nil
  show ?case by simp
next
  case (Cons b bs)
  show ?case
  proof (cases "sse_byte r b")
    case (Inr p)
    obtain r' e where p: "p = (r', e)" by (cases p)
    show ?thesis
    proof (cases e)
      case None
      then show ?thesis by (simp add: Inr p Cons.IH)
    next
      case (Some ev)
      show ?thesis
      proof (cases "f s ev")
        case (Inr flow)
        then show ?thesis by (cases flow) (simp_all add: \<open>sse_byte r b = Inr p\<close> p Some Cons.IH)
      qed (simp add: Inr p Some)
    qed
  qed simp
qed

definition in_budget :: "nat \<Rightarrow> (nat list \<times> nat) list \<Rightarrow> bool" where
  "in_budget n cs \<longleftrightarrow> n + length (concat (map fst cs)) \<le> MAX_STREAM_BYTES \<and>
     list_all (\<lambda>c. snd c \<le> MAX_STREAM_SECONDS) cs"

lemma read_chunks_concat:
  "in_budget n cs \<Longrightarrow>
   read_chunks f n r s cs =
     bindr (read_bytes f r s (concat (map fst cs))) (\<lambda>(r', flow).
     case flow of Stop s' \<Rightarrow> Inr (Stop s') | More s' \<Rightarrow> read_end f r' s')"
proof (induction cs arbitrary: n r s)
  case Nil
  show ?case by simp
next
  case (Cons c cs)
  obtain bs t where c: "c = (bs, t)" by (cases c)
  have fits: "n + length bs \<le> MAX_STREAM_BYTES" "t \<le> MAX_STREAM_SECONDS" "in_budget (n + length bs) cs"
    using Cons.prems by (auto simp: in_budget_def c)
  show ?case
  proof (cases "read_bytes f r s bs")
    case (Inr p)
    obtain r' flow where p: "p = (r', flow)" by (cases p)
    show ?thesis using fits
      by (cases flow) (simp_all add: c read_bytes_append Inr p Cons.IH)
  qed (use fits in \<open>simp add: c read_bytes_append\<close>)
qed

section \<open>Lines\<close>

definition plain_byte :: "nat \<Rightarrow> bool" where
  "plain_byte b \<longleftrightarrow> b \<noteq> 10 \<and> b \<noteq> 13"

lemma read_plain:
  "list_all plain_byte bs \<Longrightarrow> length (sr_pending r) + length bs \<le> MAX_LINE_BYTES \<Longrightarrow> \<not> sr_skip_lf r \<Longrightarrow>
   read_bytes f r s (bs @ rest) = read_bytes f (r\<lparr>sr_pending := sr_pending r @ bs\<rparr>) s rest"
proof (induction bs arbitrary: r)
  case Nil
  show ?case by simp
next
  case (Cons b bs)
  have "sse_byte r b = Inr (r\<lparr>sr_pending := sr_pending r @ [b]\<rparr>, None)"
    using Cons.prems by (cases r) (simp add: sse_byte_def plain_byte_def)
  then show ?case using Cons.prems Cons.IH [of "r\<lparr>sr_pending := sr_pending r @ [b]\<rparr>"] by simp
qed

lemma utf8_plain: "list_all plain_byte s \<Longrightarrow> list_all plain_byte (utf8 s)"
proof (induction s)
  case (Cons c s)
  have "plain_byte b" if "b \<in> set (utf8_char c)" for b
    using Cons.prems utf8_char_ascii [OF that] by (auto simp: plain_byte_def)
  with Cons show ?case by (auto simp: list_all_iff)
qed simp

lemma read_line:
  assumes "list_all plain_byte l" "list_all scalar l" "length (utf8 l) \<le> MAX_LINE_BYTES"
    and "sr_pending r = []" "\<not> sr_skip_lf r"
  shows "read_bytes f r s (utf8 (l @ [10]) @ rest) =
    bindr (sse_line r l) (\<lambda>(r', e).
      case e of None \<Rightarrow> read_bytes f r' s rest
      | Some ev \<Rightarrow> bindr (f s ev) (\<lambda>flow. case flow of Stop s' \<Rightarrow> Inr (r', Stop s') | More s' \<Rightarrow> read_bytes f r' s' rest))"
proof -
  let ?r = "r\<lparr>sr_pending := utf8 l\<rparr>"
  have nl: "utf8_char 10 = [10]" by (simp add: utf8_char_def)
  have restored: "?r\<lparr>sr_skip_lf := False, sr_pending := []\<rparr> = r" using assms(4,5) by (cases r) simp
  have "read_bytes f r s (utf8 (l @ [10]) @ rest) = read_bytes f ?r s (10 # rest)"
    using read_plain [OF utf8_plain [OF assms(1)], of r f s "10 # rest"] assms by (simp add: nl)
  moreover have "sse_byte ?r 10 = sse_line r l"
    using assms(2,5) by (simp add: sse_byte_def restored)
  ultimately show ?thesis by simp
qed

section \<open>Events\<close>

text \<open>The bytes of an event as the renderers send it, and the event the reader makes of them.\<close>

fun wire :: "sse \<Rightarrow> ustr" where
  "wire (Sse None data) = u ''data: '' @ data @ [10, 10]"
| "wire (Sse (Some event) data) = u ''event: '' @ u event @ [10] @ u ''data: '' @ data @ [10, 10]"

fun sse_data :: "sse \<Rightarrow> ustr" where "sse_data (Sse n d) = d"
fun sse_name :: "sse \<Rightarrow> ustr" where "sse_name (Sse n d) = (case n of None \<Rightarrow> [] | Some e \<Rightarrow> u e)"

definition known_event :: "string \<Rightarrow> bool" where
  "known_event e \<longleftrightarrow> strip (u e) = u e \<and> list_all plain_byte (u e) \<and> list_all scalar (u e) \<and>
     length (utf8 (u ''event: '' @ u e)) \<le> MAX_LINE_BYTES"

definition frame_fits :: "sse \<Rightarrow> bool" where
  "frame_fits fr \<longleftrightarrow> list_all scalar (sse_data fr) \<and> length (utf8 (u ''data: '' @ sse_data fr)) \<le> MAX_LINE_BYTES"

definition payload_of :: "sse \<Rightarrow> obj option" where
  "payload_of fr = (case loads (sse_data fr) of Some (JObj d) \<Rightarrow> Some d | _ \<Rightarrow> None)"

definition well_framed :: "sse \<Rightarrow> bool" where
  "well_framed fr \<longleftrightarrow> list_all plain_byte (sse_data fr) \<and>
     (case fr of Sse (Some e) d \<Rightarrow> known_event e | _ \<Rightarrow> True) \<and>
     (sse_data fr = u ''[DONE]'' \<or>
      strip (sse_data fr) \<noteq> u ''[DONE]'' \<and> (\<exists>d. loads (sse_data fr) = Some (JObj d)))"

definition event_of :: "sse \<Rightarrow> sse_event" where
  "event_of fr = (sse_name fr, if sse_data fr = u ''[DONE]'' then None else payload_of fr)"

lemma strip_space: "strip (32 # s) = strip s"
  by (simp add: strip_def lstrip_def py_space_def)

lemma prefixes:
  "startswith (u ''data: '' @ s) (u ''data:'')" "\<not> startswith (u ''data: '' @ s) (u ''event:'')"
  "startswith (u ''event: '' @ s) (u ''event:'')" "u ''data: '' @ s \<noteq> []" "u ''event: '' @ s \<noteq> []"
  "drop 5 (u ''data: '') = [32]" "remove_space (32 # s) = s" "drop 6 (u ''event: '') = [32]"
  by (simp_all add: startswith_def remove_space_def u_def)

lemma reader0_simps [simp]:
  "sr_pending reader0 = []" "\<not> sr_skip_lf reader0" "sr_name reader0 = []" "sr_data reader0 = []"
  by (simp_all add: reader0_def)

lemma plain_prefixes:
  "list_all plain_byte (u ''data: '')" "list_all scalar (u ''data: '')"
  "list_all plain_byte (u ''event: '')" "list_all scalar (u ''event: '')"
  by (simp_all add: u_def plain_byte_def scalar_def)

lemma strip_done: "strip (u ''[DONE]'') = u ''[DONE]''"
  by (simp add: strip_def lstrip_def rstrip_def py_space_def u_def)

lemma read_data:
  assumes "well_framed fr" "frame_fits fr" "sr_pending r = []" "\<not> sr_skip_lf r" "sr_data r = []"
    "sr_name r = sse_name fr"
  shows "read_bytes f r s (utf8 (u ''data: '' @ sse_data fr @ [10, 10]) @ rest) =
    bindr (f s (event_of fr)) (\<lambda>flow. case flow of Stop s' \<Rightarrow> Inr (reader0, Stop s') | More s' \<Rightarrow> read_bytes f reader0 s' rest)"
proof -
  let ?l = "u ''data: '' @ sse_data fr" and ?r = "r\<lparr>sr_data := [sse_data fr]\<rparr>"
  have l: "list_all plain_byte ?l" "list_all scalar ?l" "length (utf8 ?l) \<le> MAX_LINE_BYTES"
    using assms(1,2) plain_prefixes by (auto simp: well_framed_def frame_fits_def)
  have line: "sse_line r ?l = Inr (?r, None)"
    using assms(5) by (simp add: sse_line_def prefixes)
  have "utf8 (?l @ [10, 10]) @ rest = utf8 (?l @ [10]) @ utf8 ([] @ [10]) @ rest" by simp
  then have "read_bytes f r s (utf8 (?l @ [10, 10]) @ rest) = read_bytes f ?r s (utf8 ([] @ [10]) @ rest)"
    using read_line [OF l assms(3,4), of f s "utf8 ([] @ [10]) @ rest"] by (simp only: line) simp
  also have "\<dots> = bindr (decode_sse_event (sse_name fr) [sse_data fr]) (\<lambda>ev. bindr (f s ev) (\<lambda>flow.
      case flow of Stop s' \<Rightarrow> Inr (reader0, Stop s') | More s' \<Rightarrow> read_bytes f reader0 s' rest))"
  proof -
    have clean: "?r\<lparr>sr_name := [], sr_data := []\<rparr> = reader0"
      using assms(3,4) by (cases r) (simp add: reader0_def)
    have "sse_line ?r [] = bindr (decode_sse_event (sse_name fr) [sse_data fr]) (\<lambda>e. Inr (reader0, Some e))"
      using clean assms(6) by (simp add: sse_line_def)
    then show ?thesis using read_line [of "[]" ?r f s rest] assms(3,4)
      by (cases "decode_sse_event (sse_name fr) [sse_data fr]") (simp_all add: MAX_LINE_BYTES_def)
  qed
  also have "decode_sse_event (sse_name fr) [sse_data fr] = Inr (event_of fr)"
    using assms(1) by (auto simp: decode_sse_event_def event_of_def payload_of_def well_framed_def strip_done)
  finally show ?thesis by simp
qed

lemma read_frame:
  assumes "well_framed fr" "frame_fits fr"
  shows "read_bytes f reader0 s (utf8 (wire fr) @ rest) =
    bindr (f s (event_of fr)) (\<lambda>flow. case flow of Stop s' \<Rightarrow> Inr (reader0, Stop s') | More s' \<Rightarrow> read_bytes f reader0 s' rest)"
proof (cases fr)
  case (Sse n d)
  show ?thesis
  proof (cases n)
    case None
    then show ?thesis using read_data [OF assms, of reader0 f s rest] by (simp add: Sse)
  next
    case (Some e)
    let ?l = "u ''event: '' @ u e" and ?r = "reader0\<lparr>sr_name := u e\<rparr>"
    have k: "known_event e" using assms(1) by (simp add: well_framed_def Sse Some)
    have l: "list_all plain_byte ?l" "list_all scalar ?l" "length (utf8 ?l) \<le> MAX_LINE_BYTES"
      using k plain_prefixes by (auto simp: known_event_def)
    have line: "sse_line reader0 ?l = Inr (?r, None)"
      using k by (simp add: sse_line_def prefixes strip_space known_event_def)
    have "utf8 (wire fr) @ rest = utf8 (?l @ [10]) @ utf8 (u ''data: '' @ sse_data fr @ [10, 10]) @ rest"
      by (simp add: Sse Some)
    then have "read_bytes f reader0 s (utf8 (wire fr) @ rest) =
        read_bytes f ?r s (utf8 (u ''data: '' @ sse_data fr @ [10, 10]) @ rest)"
      using read_line [OF l, of reader0 f s "utf8 (u ''data: '' @ sse_data fr @ [10, 10]) @ rest"]
      by (simp add: line)
    also note read_data [OF assms, of ?r f s rest]
    finally show ?thesis by (simp add: Sse Some)
  qed
qed

fun run :: "'s consumer \<Rightarrow> 's \<Rightarrow> sse_event list \<Rightarrow> 's flow result" where
  "run f s [] = Inr (More s)"
| "run f s (e # es) = bindr (f s e) (\<lambda>flow. case flow of Stop s' \<Rightarrow> Inr (Stop s') | More s' \<Rightarrow> run f s' es)"

lemma read_frames:
  "list_all well_framed frs \<Longrightarrow> list_all frame_fits frs \<Longrightarrow>
   read_bytes f reader0 s (utf8 (concat (map wire frs))) = bindr (run f s (map event_of frs)) (\<lambda>flow. Inr (reader0, flow))"
proof (induction frs arbitrary: s)
  case Nil
  show ?case by simp
next
  case (Cons fr frs)
  show ?case
  proof (cases "f s (event_of fr)")
    case (Inr flow)
    then show ?thesis using Cons read_frame [of fr f s "utf8 (concat (map wire frs))"] by (cases flow) simp_all
  qed (use Cons read_frame [of fr f s "utf8 (concat (map wire frs))"] in simp)
qed

text \<open>The chunks carry the events of a renderer, within the limits of the reader.\<close>

definition delivers :: "sse list \<Rightarrow> (nat list \<times> nat) list \<Rightarrow> bool" where
  "delivers frs cs \<longleftrightarrow> concat (map fst cs) = utf8 (concat (map wire frs)) \<and> in_budget 0 cs \<and> list_all frame_fits frs"

lemma stream_of_frames:
  assumes "delivers frs cs" "list_all well_framed frs"
  shows "completed_stream (read_chunks f 0 reader0 s cs) = completed_stream (run f s (map event_of frs))"
proof -
  have "read_end f reader0 s' = Inr (More s')" for s' by (simp add: read_end_def)
  then show ?thesis using assms read_frames [of frs f s]
    by (cases "run f s (map event_of frs)")
      (auto simp: delivers_def read_chunks_concat completed_stream_def split: flow.splits)
qed

section \<open>Rendered frames\<close>

lemma escape_plain: "list_all plain_byte (escape_char c)"
  by (auto simp: escape_char_def plain_byte_def hex_digit_def)

lemma quote_plain: "list_all plain_byte (quote s)"
  using escape_plain by (auto simp: quote_def plain_byte_def list_all_iff)

lemma nat_digits_plain: "list_all plain_byte (nat_digits n)"
  using nat_digits_digits [of n] by (auto simp: list_all_iff plain_byte_def is_digit_def)

lemma int_str_plain: "list_all plain_byte (int_str i)"
  using nat_digits_plain by (auto simp: int_str_def plain_byte_def)

lemma u_plain: "\<not> list_ex (\<lambda>c. c = CHR 0x0A \<or> c = CHR 0x0D) s \<Longrightarrow> list_all plain_byte (u s)"
proof (induction s)
  case Nil
  then show ?case by (simp add: u_def)
next
  case (Cons c s)
  have "of_char c \<noteq> (10 :: nat)" "of_char c \<noteq> (13 :: nat)"
    using Cons.prems of_char_eq_iff [of c "CHR 0x0A", where ?'a = nat] of_char_eq_iff [of c "CHR 0x0D", where ?'a = nat]
    by auto
  with Cons show ?case by (simp add: u_def plain_byte_def)
qed

lemma dumps_plain:
  "list_all plain_byte a \<Longrightarrow> list_all plain_byte b \<Longrightarrow> wf_json v \<Longrightarrow> list_all plain_byte (dumps_with a b v)"
  "list_all plain_byte a \<Longrightarrow> list_all plain_byte b \<Longrightarrow> wf_items xs \<Longrightarrow> list_all plain_byte (dumps_items a b xs)"
  "list_all plain_byte a \<Longrightarrow> list_all plain_byte b \<Longrightarrow> wf_pairs d \<Longrightarrow> list_all plain_byte (dumps_pairs a b d)"
  by (induction a b v and a b xs and a b d rule: dumps_with_dumps_items_dumps_pairs.induct)
    (auto simp: u_plain quote_plain int_str_plain plain_byte_def)

lemma dumps_plain_byte: "wf_json v \<Longrightarrow> list_all plain_byte (dumps v)"
  by (simp add: dumps_def dumps_plain(1) u_plain)

lemma well_framed_dumps:
  assumes "wf_json (JObj x)" "case n of None \<Rightarrow> True | Some e \<Rightarrow> known_event e"
  shows "well_framed (Sse n (dumps (JObj x)))" "event_of (Sse n (dumps (JObj x))) = (sse_name (Sse n []), Some x)"
proof -
  obtain s where head: "dumps (JObj x) = 123 # s" by (simp add: dumps_def)
  obtain t where "lstrip (123 # s) = strip (123 # s) @ t" using rstrip_prefix by (metis strip_def)
  moreover have "lstrip (123 # s) = 123 # s" by (simp add: lstrip_def py_space_def)
  ultimately have ne: "strip (dumps (JObj x)) \<noteq> u ''[DONE]''" "dumps (JObj x) \<noteq> u ''[DONE]''"
    by (auto simp: head u_def)
  show "well_framed (Sse n (dumps (JObj x)))"
    using assms ne loads_dumps [OF assms(1)] dumps_plain_byte [OF assms(1)]
    by (auto simp: well_framed_def split: option.splits)
  show "event_of (Sse n (dumps (JObj x))) = (sse_name (Sse n []), Some x)"
    using ne loads_dumps [OF assms(1)] by (simp add: event_of_def payload_of_def)
qed

lemma length_nat_digits: "n < 10 ^ Suc k \<Longrightarrow> length (nat_digits n) \<le> Suc k"
proof (induction k arbitrary: n)
  case 0
  then show ?case by (subst nat_digits.simps) simp
next
  case (Suc k)
  show ?case
  proof (cases "n < 10")
    case False
    then have "n div 10 < 10 ^ Suc k" using Suc.prems by (simp add: less_mult_imp_div_less)
    from Suc.IH [OF this] False show ?thesis by (subst nat_digits.simps) simp
  qed (subst nat_digits.simps, simp)
qed

lemma small_index: "n \<le> MAX_STREAM_BYTES \<Longrightarrow> int_ok (int n)"
  using length_nat_digits [of n 8] by (simp add: int_ok_def int_str_def MAX_STREAM_BYTES_def)

lemma wire_nonempty: "1 \<le> length (utf8 (wire fr))"
  by (cases fr rule: wire.cases) (simp_all add: u_def utf8_char_def)

lemma length_wire: "length frs \<le> length (utf8 (concat (map wire frs)))"
proof (induction frs)
  case (Cons fr frs)
  then show ?case using wire_nonempty [of fr] by simp
qed simp

lemma delivers_length: "delivers frs cs \<Longrightarrow> length frs \<le> MAX_STREAM_BYTES"
  using length_wire [of frs] by (metis delivers_def in_budget_def add_0 le_trans)

section \<open>Chat Completions\<close>

definition chat_payload :: "ustr \<Rightarrow> ustr \<Rightarrow> int \<Rightarrow> obj \<times> string option \<Rightarrow> obj" where
  "chat_payload cid model created p =
     [(u ''id'', JStr cid), (u ''object'', S ''chat.completion.chunk''), (u ''created'', JInt created),
      (u ''model'', JStr model),
      (u ''choices'', JList [JObj [(u ''index'', JInt 0), (u ''delta'', JObj (fst p)),
         (u ''finish_reason'', (case snd p of None \<Rightarrow> JNull | Some f \<Rightarrow> S f))]])]"

lemma or_else_obj [simp]: "or_else (JObj d) (JObj []) = JObj d"
  by (auto simp: or_else_def)

lemma or_else_str [simp]: "or_else (JStr s) (S '''') = JStr s" "or_else JNull v = v"
  by (auto simp: or_else_def u_def)

lemma attr_get_obj [simp]: "attr_get (JObj d) k = Inr (oget d k)"
  by (simp add: attr_get_def)

lemma parse_payload:
  "parse_chat_delta (chat_payload cid model created p) =
    bindr (case oget (fst p) ''tool_calls'' of JList cs \<Rightarrow> mapr chat_delta_call cs | _ \<Rightarrow> Inr []) (\<lambda>tools.
    Inr ((if truthy (oget (fst p) ''content'') \<or> truthy (oget (fst p) ''reasoning_content'')
          then [text_chunk (or_else (oget (fst p) ''content'') (S '''')) (or_else (oget (fst p) ''reasoning_content'') (S ''''))]
          else []) @ tools))"
  by (simp add: parse_chat_delta_def chat_payload_def or_else_def [of "JList _"] first_item_def Let_def)

definition tool_chunks :: "nat \<times> reply_tool_call \<Rightarrow> chunk list" where
  "tool_chunks p =
     call_chunk [(u ''index'', JInt (int (fst p))), (u ''arguments_delta'', S ''''),
       (u ''id'', JStr (rtc_id (snd p))), (u ''name'', JStr (rtc_name (snd p)))] #
     map (\<lambda>part. call_chunk [(u ''index'', JInt (int (fst p))), (u ''arguments_delta'', JStr part)])
       (slices1 200 (dumps (JObj (rtc_arguments (snd p)))))"

definition chat_chunks :: "reply_draft \<Rightarrow> chunk list" where
  "chat_chunks d =
     map (\<lambda>part. text_chunk (S '''') (JStr part)) (slices 200 (text_of_opt (rd_reasoning d))) @
     concat (map tool_chunks (enumerate 0 (rd_tool_calls d))) @
     map (\<lambda>part. text_chunk (JStr part) (S '''')) (slices 200 (text_of_opt (rd_final_text d)))"

lemma good_call_truthy: "good_call c \<Longrightarrow> rtc_id c \<noteq> [] \<and> rtc_name c \<noteq> []"
  by (auto simp: good_call_def)

lemma read_tool_deltas:
  assumes "good_call (snd q)"
  shows "mapr (\<lambda>d. parse_chat_delta (chat_payload cid model created (d, None))) (tool_deltas rnd q) =
    Inr (map (\<lambda>c. [c]) (tool_chunks q))"
proof -
  have "parse_chat_delta (chat_payload cid model created (tool_delta_part n part, None)) =
      Inr [call_chunk [(u ''index'', JInt (int n)), (u ''arguments_delta'', JStr part)]]" for n part
    by (simp add: parse_payload tool_delta_part_def chat_delta_call_def get_default_def Let_def)
  moreover have "parse_chat_delta (chat_payload cid model created (tool_delta_start rnd q, None)) =
      Inr [call_chunk [(u ''index'', JInt (int (fst q))), (u ''arguments_delta'', S ''''),
        (u ''id'', JStr (rtc_id (snd q))), (u ''name'', JStr (rtc_name (snd q)))]]"
    using good_call_truthy [OF assms]
    by (simp add: parse_payload tool_delta_start_def chat_delta_call_def get_default_def Let_def id_or_def)
  ultimately show ?thesis by (simp add: tool_deltas_def tool_chunks_def mapr_map mapr_all comp_def)
qed

lemma read_all_tools:
  "list_all good_call cs \<Longrightarrow>
   mapr (\<lambda>d. parse_chat_delta (chat_payload cid model created (d, None))) (concat (map (tool_deltas rnd) (enumerate n cs))) =
     Inr (map (\<lambda>c. [c]) (concat (map tool_chunks (enumerate n cs))))"
  by (induction cs arbitrary: n) (simp_all add: mapr_append read_tool_deltas)

lemma read_parts:
  assumes "k = ''content'' \<or> k = ''reasoning_content''"
  shows "mapr (\<lambda>d. parse_chat_delta (chat_payload cid model created (d, None)))
      (map (\<lambda>part. [(u k, JStr part)]) (slices 200 s)) =
    Inr (map (\<lambda>part. [if k = ''content'' then text_chunk (JStr part) (S '''') else text_chunk (S '''') (JStr part)])
      (slices 200 s))"
proof -
  have "parse_chat_delta (chat_payload cid model created ([(u k, JStr part)], None)) =
      Inr [if k = ''content'' then text_chunk (JStr part) (S '''') else text_chunk (S '''') (JStr part)]"
    if "part \<in> set (slices 200 s)" for part
    using assms slices_short [of 200 s] that by (auto simp: parse_payload)
  then show ?thesis by (simp add: mapr_map mapr_all)
qed

lemma read_deltas:
  assumes "list_all good_call (rd_tool_calls d)"
  shows "\<exists>css. mapr (\<lambda>p. parse_chat_delta (chat_payload cid model created p)) (chat_deltas rnd d) = Inr css \<and>
    concat css = chat_chunks d"
proof -
  let ?f = "\<lambda>d. parse_chat_delta (chat_payload cid model created (d, None))"
  have "?f [(u ''role'', S ''assistant'')] = Inr []"
    "parse_chat_delta (chat_payload cid model created ([], Some r)) = Inr []" for r
    by (simp_all add: parse_payload)
  note none = this
  then have "mapr ?f ([[(u ''role'', S ''assistant'')]] @
        map (\<lambda>part. [(u ''reasoning_content'', JStr part)]) (slices 200 (text_of_opt (rd_reasoning d))) @
        concat (map (tool_deltas rnd) (enumerate 0 (rd_tool_calls d))) @
        map (\<lambda>part. [(u ''content'', JStr part)]) (slices 200 (text_of_opt (rd_final_text d)))) =
      Inr ([[]] @ map (\<lambda>part. [text_chunk (S '''') (JStr part)]) (slices 200 (text_of_opt (rd_reasoning d))) @
        map (\<lambda>c. [c]) (concat (map tool_chunks (enumerate 0 (rd_tool_calls d)))) @
        map (\<lambda>part. [text_chunk (JStr part) (S '''')]) (slices 200 (text_of_opt (rd_final_text d))))"
    using read_all_tools [OF assms, of cid model created rnd 0]
      read_parts [of "''content''" cid model created "text_of_opt (rd_final_text d)"]
      read_parts [of "''reasoning_content''" cid model created "text_of_opt (rd_reasoning d)"]
    by (simp add: mapr_append)
  then have "mapr (\<lambda>p. parse_chat_delta (chat_payload cid model created p)) (chat_deltas rnd d) =
      Inr (([[]] @ map (\<lambda>part. [text_chunk (S '''') (JStr part)]) (slices 200 (text_of_opt (rd_reasoning d))) @
        map (\<lambda>c. [c]) (concat (map tool_chunks (enumerate 0 (rd_tool_calls d)))) @
        map (\<lambda>part. [text_chunk (JStr part) (S '''')]) (slices 200 (text_of_opt (rd_final_text d)))) @ [[]])"
    unfolding chat_deltas_def mapr_append [of _ "map _ _"] mapr_map using none by simp
  then show ?thesis by (auto simp: chat_chunks_def)
qed

lemma run_chat:
  "run chat_consumer s (map (\<lambda>p. ([], Some (chat_payload cid model created p))) ps @ es) =
     bindr (mapr (\<lambda>p. parse_chat_delta (chat_payload cid model created p)) ps) (\<lambda>css. run chat_consumer (s @ concat css) es)"
proof (induction ps arbitrary: s)
  case Nil
  show ?case by simp
next
  case (Cons p ps)
  have "\<not> ohas (chat_payload cid model created p) ''error''" "oget (chat_payload cid model created p) ''type'' = JNull"
    by (simp_all add: chat_payload_def)
  then show ?case using Cons
    by (cases "parse_chat_delta (chat_payload cid model created p)";
        cases "mapr (\<lambda>p. parse_chat_delta (chat_payload cid model created p)) ps") (simp_all add: chat_consumer_def)
qed

section \<open>Collecting\<close>

lemma collected0_simps [simp]:
  "co_text collected0 = []" "co_reasoning collected0 = []" "co_calls collected0 = []" "co_head collected0 = RawText []"
  by (simp_all add: collected0_def)

lemma collect_append: "collect_chunks (xs @ ys) t = bindr (collect_chunks xs t) (collect_chunks ys)"
proof (induction xs arbitrary: t)
  case (Cons x xs)
  then show ?case by (cases "collect_chunk x t") simp_all
qed simp

lemma add_text_simps [simp]: "add_text s (S '''') = Inr s" "add_text s (JStr t) = Inr (s @ t)"
  by (auto simp: add_text_def u_def)

lemma collect_texts:
  "collect_chunks (map (\<lambda>p. text_chunk (JStr p) (S '''')) ps) t = Inr (t\<lparr>co_text := co_text t @ concat ps\<rparr>)"
  "collect_chunks (map (\<lambda>p. text_chunk (S '''') (JStr p)) ps) t = Inr (t\<lparr>co_reasoning := co_reasoning t @ concat ps\<rparr>)"
  by (induction ps arbitrary: t) (simp_all add: collect_chunk_def text_chunk_def collect_call_def)

lemma map_of_kput: "map_of (kput d k v) = (map_of d)(k \<mapsto> v)"
  by (induction d) auto

lemma raw_of_str [simp]: "raw_of (JStr s) = RawText s"
  by (simp add: raw_of_def)

lemma collect_parts:
  "co_calls t = cs @ [Partial i n (RawText raw)] \<Longrightarrow> map_of (co_index t) (JInt k) = Some (length cs) \<Longrightarrow>
   collect_chunks (map (\<lambda>p. call_chunk [(u ''index'', JInt k), (u ''arguments_delta'', JStr p)]) ps) t =
     Inr (t\<lparr>co_calls := cs @ [Partial i n (RawText (raw @ concat ps))]\<rparr>)"
proof (induction ps arbitrary: t raw)
  case Nil
  then show ?case by (cases t) simp
next
  case (Cons p ps)
  let ?t = "t\<lparr>co_calls := cs @ [Partial i n (RawText (raw @ p))]\<rparr>"
  have "collect_chunk (call_chunk [(u ''index'', JInt k), (u ''arguments_delta'', JStr p)]) t = Inr ?t"
    using Cons.prems
    by (cases t) (simp add: collect_chunk_def call_chunk_def collect_call_def delta_position_def dict_key_def
        add_partial_def)
  then show ?case using Cons.prems Cons.IH [of ?t "raw @ p"] by simp
qed

lemma collect_tool:
  assumes "length (co_calls t) = k"
  shows "\<exists>ix. collect_chunks (tool_chunks (k, c)) t =
    Inr (t\<lparr>co_index := ix, co_calls := co_calls t @
      [Partial (JStr (rtc_id c)) (JStr (rtc_name c)) (RawText (dumps (JObj (rtc_arguments c))))]\<rparr>)"
proof -
  let ?t = "t\<lparr>co_index := kput (co_index t) (JInt (int k)) k,
      co_calls := co_calls t @ [Partial (JStr (rtc_id c)) (JStr (rtc_name c)) (RawText [])]\<rparr>"
  have "collect_chunk (call_chunk [(u ''index'', JInt (int k)), (u ''arguments_delta'', S ''''),
      (u ''id'', JStr (rtc_id c)), (u ''name'', JStr (rtc_name c))]) t = Inr ?t"
    using assms by (cases t) (simp add: collect_chunk_def call_chunk_def collect_call_def dict_key_def get_default_def)
  moreover have "map_of (co_index ?t) (JInt (int k)) = Some (length (co_calls t))" using assms by (simp add: map_of_kput)
  ultimately show ?thesis
    using collect_parts [of ?t "co_calls t" _ _ "[]" "int k" "slices1 200 (dumps (JObj (rtc_arguments c)))"]
    by (auto simp: tool_chunks_def)
qed

lemma collect_tools:
  "length (co_calls t) = k \<Longrightarrow>
   \<exists>ix. collect_chunks (concat (map tool_chunks (enumerate k cs))) t = Inr (t\<lparr>co_index := ix, co_calls := co_calls t @
     map (\<lambda>c. Partial (JStr (rtc_id c)) (JStr (rtc_name c)) (RawText (dumps (JObj (rtc_arguments c))))) cs\<rparr>)"
proof (induction cs arbitrary: t k)
  case Nil
  show ?case by (cases t) auto
next
  case (Cons c cs)
  let ?p = "\<lambda>c. Partial (JStr (rtc_id c)) (JStr (rtc_name c)) (RawText (dumps (JObj (rtc_arguments c))))"
  obtain ix where t: "collect_chunks (tool_chunks (k, c)) t = Inr (t\<lparr>co_index := ix, co_calls := co_calls t @ [?p c]\<rparr>)"
    using collect_tool [OF Cons.prems] by blast
  let ?t = "t\<lparr>co_index := ix, co_calls := co_calls t @ [?p c]\<rparr>"
  have "length (co_calls ?t) = Suc k" using Cons.prems by simp
  from Cons.IH [OF this] obtain ix' where "collect_chunks (concat (map tool_chunks (enumerate (Suc k) cs))) ?t =
      Inr (?t\<lparr>co_index := ix', co_calls := co_calls ?t @ map ?p cs\<rparr>)" by blast
  then show ?case by (auto simp: collect_append t)
qed

lemma finish_calls:
  assumes "list_all good_call cs"
  shows "mapr finish_call (map (\<lambda>c. Partial (JStr (rtc_id c)) (JStr (rtc_name c)) (RawText (dumps (JObj (rtc_arguments c))))) cs) =
      Inr (map (\<lambda>c. (JStr (rtc_id c), JStr (rtc_name c), rtc_arguments c)) cs)"
    and "mapr finish_call (map (\<lambda>c. Whole (JStr (rtc_id c)) (JStr (rtc_name c)) (rtc_arguments c)) cs) =
      Inr (map (\<lambda>c. (JStr (rtc_id c), JStr (rtc_name c), rtc_arguments c)) cs)"
  using assms
  by (induction cs) (simp_all add: finish_call_def raw_arguments_object_def parse_tool_arguments_def good_call_def loads_dumps)

lemma draft_calls: "mapr draft_call (map (\<lambda>c. (JStr (rtc_id c), JStr (rtc_name c), rtc_arguments c)) cs) = Inr cs"
  by (induction cs) (simp_all add: draft_call_def)

lemma finalize_good:
  assumes "mapr finish_call (co_calls t) = Inr (map (\<lambda>c. (JStr (rtc_id c), JStr (rtc_name c), rtc_arguments c)) cs)"
    and "co_head t = RawText []"
  shows "finalize_collected t = Inr \<lparr>rd_reasoning = text_or_none (co_reasoning t), rd_tool_calls = cs,
    rd_final_text = text_or_none (co_text t)\<rparr>"
  using assms draft_calls by (simp add: finalize_collected_def finalize_calls_def)

lemma chat_chunks_draft:
  assumes "canonical d"
  shows "draft_of_chunks (chat_chunks d) = Inr d"
proof -
  let ?p = "\<lambda>c. Partial (JStr (rtc_id c)) (JStr (rtc_name c)) (RawText (dumps (JObj (rtc_arguments c))))"
  let ?t = "collected0\<lparr>co_reasoning := text_of_opt (rd_reasoning d)\<rparr>"
  have "length (co_calls ?t) = 0" by simp
  from collect_tools [OF this, of "rd_tool_calls d"] obtain ix where
    ix: "collect_chunks (concat (map tool_chunks (enumerate 0 (rd_tool_calls d)))) ?t =
      Inr (?t\<lparr>co_index := ix, co_calls := map ?p (rd_tool_calls d)\<rparr>)" by auto
  let ?r = "?t\<lparr>co_index := ix, co_calls := map ?p (rd_tool_calls d), co_text := text_of_opt (rd_final_text d)\<rparr>"
  have "collect_chunks (chat_chunks d) collected0 = Inr ?r"
    using ix by (simp add: chat_chunks_def collect_append collect_texts concat_slices)
  moreover have "finalize_collected ?r = Inr d"
    using finalize_good [of ?r "rd_tool_calls d"] finish_calls(1) [of "rd_tool_calls d"] assms
    by (cases d) (simp add: canonical_def)
  ultimately show ?thesis by (simp add: draft_of_chunks_def)
qed

lemma chat_wf:
  assumes "list_all good_call (rd_tool_calls d)" "int_ok created" "length (rd_tool_calls d) \<le> MAX_STREAM_BYTES"
    and "p \<in> set (chat_deltas rnd d)"
  shows "wf_json (JObj (chat_payload cid model created p))"
proof -
  have "int_ok (int n)" if "(n, c) \<in> set (enumerate 0 (rd_tool_calls d))" for n c
    using that assms(3) small_index [of n] by (auto simp: in_set_enumerate_eq)
  then have "wf_json (JObj (fst p))"
    using assms(4) by (auto simp: chat_deltas_def tool_deltas_def tool_delta_start_def tool_delta_part_def)
  then show ?thesis using assms(2) by (simp add: chat_payload_def split: option.split)
qed

lemma chat_calls_bound: "length (rd_tool_calls d) \<le> length (chat_deltas rnd d)"
proof -
  have "length ps \<le> length (concat (map (tool_deltas rnd) ps))" for ps
  proof (induction ps)
    case (Cons q ps)
    have "1 \<le> length (tool_deltas rnd q)" by (simp add: tool_deltas_def)
    with Cons show ?case by simp
  qed simp
  from this [of "enumerate 0 (rd_tool_calls d)"] show ?thesis by (simp add: chat_deltas_def)
qed

lemma chat_stream_read:
  assumes "canonical d" "wf_json (JObj usage)" "int_ok created"
    and "delivers (chat_stream_frames rnd cid created model d usage inc) cs"
  shows "stream_chat_completions cs = Inr (chat_chunks d)"
proof -
  let ?pay = "chat_payload cid model created"
  define us where "us = (if inc \<and> usage \<noteq> [] then
      [[(u ''id'', JStr cid), (u ''object'', S ''chat.completion.chunk''), (u ''created'', JInt created),
        (u ''model'', JStr model), (u ''choices'', JList []), (u ''usage'', JObj usage)]] else [])"
  have frames: "chat_stream_frames rnd cid created model d usage inc =
      map (\<lambda>p. Sse None (dumps (JObj (?pay p)))) (chat_deltas rnd d) @ map (\<lambda>x. Sse None (dumps (JObj x))) us @
      [Sse None (u ''[DONE]'')]"
    by (simp add: chat_stream_frames_def chat_chunk_def chat_payload_def us_def fun_eq_iff)
  have good: "list_all good_call (rd_tool_calls d)" using assms(1) by (simp add: canonical_def)
  have "length (rd_tool_calls d) \<le> MAX_STREAM_BYTES"
    using delivers_length [OF assms(4)] chat_calls_bound [of d rnd] by (simp add: frames)
  note wf = chat_wf [OF good assms(3) this]
  have wfu: "\<forall>x \<in> set us. wf_json (JObj x)" using assms(2,3) by (simp add: us_def)
  have done_framed: "well_framed (Sse None (u ''[DONE]''))"
    by (simp add: well_framed_def u_plain)
  have framed: "list_all well_framed (chat_stream_frames rnd cid created model d usage inc)"
    using wf wfu well_framed_dumps(1) [of _ None] done_framed by (auto simp: frames list_all_iff)
  have ev: "map event_of (chat_stream_frames rnd cid created model d usage inc) =
      map (\<lambda>p. ([], Some (?pay p))) (chat_deltas rnd d) @ map (\<lambda>x. ([], Some x)) us @ [([], None)]"
    using wf wfu well_framed_dumps(2) [of _ None] by (simp add: frames event_of_def [of "Sse None (u ''[DONE]'')"])
  obtain css where css: "mapr (\<lambda>p. parse_chat_delta (?pay p)) (chat_deltas rnd d) = Inr css" "concat css = chat_chunks d"
    using read_deltas [OF good] by blast
  have "run chat_consumer cks (map (\<lambda>x. ([], Some x)) us @ [([], None)]) = Inr (Stop cks)" for cks
    by (simp add: us_def chat_consumer_def parse_chat_delta_def or_else_def)
  then have "run chat_consumer [] (map event_of (chat_stream_frames rnd cid created model d usage inc)) =
      Inr (Stop (chat_chunks d))" by (simp only: ev run_chat css bindr.simps append_Nil)
  then show ?thesis
    unfolding stream_chat_completions_def stream_of_frames [OF assms(4) framed] by (simp add: completed_stream_def)
qed

end
