(* ===== verification/Stream_Responses.thy ===== *)
theory Stream_Responses
  imports Stream_Read
begin

text \<open>
  The Responses stream of a gateway read by another one: the calls and the texts arrive, the
  reasoning does not, since the renderer puts it into no delta.
\<close>

section \<open>Responses\<close>

definition numbered_payload :: "nat \<times> string \<times> obj \<Rightarrow> obj" where
  "numbered_payload p = snd (snd p) @ [(u ''type'', S (fst (snd p))), (u ''sequence_number'', JInt (int (fst p)))]"

definition open_event :: "string \<times> obj \<Rightarrow> bool" where
  "open_event e \<longleftrightarrow> known_event (fst e) \<and> wf_json (JObj (snd e)) \<and> \<not> ohas (snd e) ''type'' \<and>
     \<not> ohas (snd e) ''error'' \<and> \<not> ohas (snd e) ''sequence_number''"

definition reads :: "(string \<times> obj) list \<Rightarrow> chunk list \<Rightarrow> bool" where
  "reads es cs \<longleftrightarrow> (\<exists>css. list_all2 (\<lambda>e c.
       parse_responses_event (snd e @ [(u ''type'', S (fst e))]) = Inr c \<and> fst e \<noteq> ''response.completed'') es css \<and>
     concat (map (\<lambda>c. case c of None \<Rightarrow> [] | Some x \<Rightarrow> [x]) css) = cs)"

lemma reads_simps:
  "reads [] []" "reads es cs \<Longrightarrow> reads es' cs' \<Longrightarrow> reads (es @ es') (cs @ cs')"
proof -
  show "reads [] []" by (simp add: reads_def)
  assume "reads es cs" "reads es' cs'"
  let ?P = "\<lambda>e c. parse_responses_event (snd e @ [(u ''type'', S (fst e))]) = Inr c \<and> fst e \<noteq> ''response.completed''"
  let ?g = "\<lambda>c. case c of None \<Rightarrow> [] | Some x \<Rightarrow> [x :: chunk]"
  obtain css css' where "list_all2 ?P es css" "concat (map ?g css) = cs" "list_all2 ?P es' css'" "concat (map ?g css') = cs'"
    using \<open>reads es cs\<close> \<open>reads es' cs'\<close> unfolding reads_def by blast
  then have "list_all2 ?P (es @ es') (css @ css') \<and> concat (map ?g (css @ css')) = cs @ cs'"
    by (simp add: list_all2_appendI)
  then show "reads (es @ es') (cs @ cs')" unfolding reads_def by blast
qed

lemma reads_one:
  "fst e \<noteq> ''response.completed'' \<Longrightarrow> parse_responses_event (snd e @ [(u ''type'', S (fst e))]) = Inr c \<Longrightarrow>
   reads [e] (case c of None \<Rightarrow> [] | Some x \<Rightarrow> [x])"
  by (auto simp: reads_def)

lemma reads_map:
  "(\<And>x. x \<in> set xs \<Longrightarrow> reads [f x] (g x)) \<Longrightarrow> reads (map f xs) (concat (map g xs))"
proof (induction xs)
  case (Cons x xs)
  then show ?case using reads_simps(2) [of "[f x]" "g x" "map f xs" "concat (map g xs)"] by simp
qed (simp add: reads_simps)

lemma parse_numbered:
  assumes "open_event e"
  shows "parse_responses_event (numbered_payload (n, e)) = parse_responses_event (snd e @ [(u ''type'', S (fst e))])"
    "oget (numbered_payload (n, e)) ''type'' = S (fst e)"
  using assms
  by (simp_all add: parse_responses_event_def numbered_payload_def open_event_def oget_append ohas_append oget_absent
      Let_def)

lemma run_responses:
  "reads es cs \<Longrightarrow> list_all open_event es \<Longrightarrow>
   run responses_consumer s (map (\<lambda>p. (u (fst (snd p)), Some (numbered_payload p))) (enumerate n es) @ rest) =
     run responses_consumer (s @ cs) rest"
proof (induction es arbitrary: n s cs)
  case Nil
  then show ?case by (simp add: reads_def)
next
  case (Cons e es)
  obtain c css where c: "parse_responses_event (snd e @ [(u ''type'', S (fst e))]) = Inr c"
      "fst e \<noteq> ''response.completed''" "cs = (case c of None \<Rightarrow> [] | Some x \<Rightarrow> [x]) @ css" "reads es css"
  proof -
    obtain c css where "parse_responses_event (snd e @ [(u ''type'', S (fst e))]) = Inr c"
        "fst e \<noteq> ''response.completed''"
        "list_all2 (\<lambda>e c. parse_responses_event (snd e @ [(u ''type'', S (fst e))]) = Inr c \<and>
           fst e \<noteq> ''response.completed'') es css"
        "concat (map (\<lambda>c. case c of None \<Rightarrow> [] | Some x \<Rightarrow> [x]) (c # css)) = cs"
      using Cons.prems(1) unfolding reads_def list_all2_Cons1 by blast
    then show ?thesis using that [of c "concat (map (\<lambda>c. case c of None \<Rightarrow> [] | Some x \<Rightarrow> [x]) css)"]
      by (auto simp: reads_def)
  qed
  note n = parse_numbered [of e n]
  have "responses_consumer s (u (fst e), Some (numbered_payload (n, e))) =
      Inr (More (s @ (case c of None \<Rightarrow> [] | Some x \<Rightarrow> [x])))"
    using Cons.prems(2) c n by (simp add: responses_consumer_def)
  then show ?case using Cons.IH [OF c(4)] Cons.prems(2) by (simp add: c(3))
qed

lemma known_events:
  "known_event ''response.created''" "known_event ''response.in_progress''" "known_event ''response.output_item.added''"
  "known_event ''response.output_item.done''" "known_event ''response.content_part.added''"
  "known_event ''response.content_part.done''" "known_event ''response.output_text.delta''"
  "known_event ''response.output_text.done''" "known_event ''response.function_call_arguments.delta''"
  "known_event ''response.function_call_arguments.done''" "known_event ''response.completed''"
  by (simp_all add: known_event_def strip_def lstrip_def rstrip_def py_space_def u_def plain_byte_def scalar_def
      utf8_char_def MAX_LINE_BYTES_def)

lemma reads_quiet:
  assumes "\<not> ohas d ''error''" "\<not> ohas d ''type''"
    and "e \<in> {''response.created'', ''response.in_progress'', ''response.output_item.added'', ''response.content_part.added'',
      ''response.content_part.done'', ''response.output_text.done'', ''response.function_call_arguments.delta'',
      ''response.function_call_arguments.done''}"
  shows "reads [(e, d)] []"
  using assms reads_one [of "(e, d)" None]
  by (auto simp: parse_responses_event_def oget_append ohas_append or_else_def)

lemma reads_delta:
  "\<not> ohas d ''error'' \<Longrightarrow> \<not> ohas d ''type'' \<Longrightarrow> ohas d ''delta'' \<Longrightarrow> oget d ''delta'' = JStr t \<Longrightarrow>
   reads [(''response.output_text.delta'', d)] [text_chunk (JStr t) (S '''')]"
  using reads_one [of "(''response.output_text.delta'', d)" "Some (text_chunk (JStr t) (S ''''))"]
  by (auto simp: parse_responses_event_def oget_append ohas_append or_else_def [of "JStr (u _)"])

definition whole_chunk :: "reply_tool_call \<Rightarrow> chunk" where
  "whole_chunk c = call_chunk [(u ''id'', JStr (rtc_id c)), (u ''name'', JStr (rtc_name c)),
     (u ''arguments'', JObj (rtc_arguments c))]"

lemma reads_done:
  "oget it ''type'' \<noteq> S ''function_call'' \<Longrightarrow>
   reads [(''response.output_item.done'', [(u ''output_index'', i), (u ''item'', JObj it)])] []"
  "good_call c \<Longrightarrow>
   reads [(''response.output_item.done'', [(u ''output_index'', i), (u ''item'', call_item c)])] [whole_chunk c]"
proof -
  assume "oget it ''type'' \<noteq> S ''function_call''"
  then show "reads [(''response.output_item.done'', [(u ''output_index'', i), (u ''item'', JObj it)])] []"
    using reads_one [of "(''response.output_item.done'', [(u ''output_index'', i), (u ''item'', JObj it)])" None]
    by (auto simp: parse_responses_event_def or_else_def [of "JStr (u _)"])
next
  assume "good_call c"
  then have "parse_tool_arguments (JStr (dumps (JObj (rtc_arguments c)))) = Inr (rtc_arguments c)"
    by (simp add: parse_tool_arguments_def loads_dumps good_call_def)
  then show "reads [(''response.output_item.done'', [(u ''output_index'', i), (u ''item'', call_item c)])] [whole_chunk c]"
    using reads_one [of "(''response.output_item.done'', [(u ''output_index'', i), (u ''item'', call_item c)])" "Some (whole_chunk c)"]
    by (auto simp: parse_responses_event_def call_item_def or_else_def [of "JStr (u _)"] get_default_def whole_chunk_def)
qed

lemma concat_map_nil: "concat (map (\<lambda>x. []) xs) = []"
  by (induction xs) auto

lemma reads_items:
  "good_call c \<Longrightarrow> reads (item_events (n, call_item c)) [whole_chunk c]"
  "reads (item_events (n, reasoning_item r)) []"
  "reads (item_events (n, message_item i t)) (map (\<lambda>p. text_chunk (JStr p) (S '''')) (slices1 200 t))"
proof -
  have args: "reads (map (\<lambda>d. (''response.function_call_arguments.delta'',
      [(u ''item_id'', i), (u ''output_index'', j), (u ''delta'', JStr d)])) ps) []" for i j ps
    using reads_map [of ps "\<lambda>d. (''response.function_call_arguments.delta'',
      [(u ''item_id'', i), (u ''output_index'', j), (u ''delta'', JStr d)])" "\<lambda>d. []"]
    by (simp add: reads_quiet concat_map_nil)
  have texts: "reads (map (\<lambda>d. (''response.output_text.delta'',
      [(u ''item_id'', i), (u ''output_index'', j), (u ''content_index'', k), (u ''delta'', JStr d)])) ps)
      (map (\<lambda>p. text_chunk (JStr p) (S '''')) ps)" for i j k ps
    using reads_map [of ps "\<lambda>d. (''response.output_text.delta'',
      [(u ''item_id'', i), (u ''output_index'', j), (u ''content_index'', k), (u ''delta'', JStr d)])"
      "\<lambda>p. [text_chunk (JStr p) (S '''')]"]
    by (simp add: reads_delta)
  show "reads (item_events (n, reasoning_item r)) []"
    using reads_simps(2) [OF reads_quiet [of "[(u ''output_index'', JInt (int n)), (u ''item'', reasoning_item r)]"
        "''response.output_item.added''"] reads_done(1)]
    by (simp add: item_events_def reasoning_item_def Let_def)
  show "reads (item_events (n, call_item c)) [whole_chunk c]" if "good_call c"
  proof -
    let ?i = "JStr (u ''fc_'' @ rtc_id c)" and ?j = "JInt (int n)" and ?a = "dumps (JObj (rtc_arguments c))"
    have ne: "?a \<noteq> []" by (simp add: dumps_def)
    have eq: "item_events (n, call_item c) =
        [(''response.output_item.added'', [(u ''output_index'', ?j), (u ''item'', call_item c)])] @
        (map (\<lambda>d. (''response.function_call_arguments.delta'',
           [(u ''item_id'', ?i), (u ''output_index'', ?j), (u ''delta'', JStr d)])) (slices1 200 ?a) @
         [(''response.function_call_arguments.done'', [(u ''item_id'', ?i), (u ''output_index'', ?j), (u ''arguments'', JStr ?a)])]) @
        [(''response.output_item.done'', [(u ''output_index'', ?j), (u ''item'', call_item c)])]"
      using ne by (simp add: item_events_def call_item_def or_else_def Let_def)
    have "reads (item_events (n, call_item c)) ([] @ (([] @ []) @ [whole_chunk c]))"
      unfolding eq append_assoc
      by (intro reads_simps(2) args reads_done(2) that reads_quiet) simp_all
    then show ?thesis by simp
  qed
  show "reads (item_events (n, message_item i t)) (map (\<lambda>p. text_chunk (JStr p) (S '''')) (slices1 200 t))"
  proof -
    let ?j = "JInt (int n)"
    let ?at = "[(u ''item_id'', S i), (u ''output_index'', ?j), (u ''content_index'', JInt 0)]"
    let ?p = "\<lambda>t. JObj [(u ''type'', S ''output_text''), (u ''text'', JStr t), (u ''annotations'', JList [])]"
    have eq: "item_events (n, message_item i t) =
        [(''response.output_item.added'', [(u ''output_index'', ?j), (u ''item'', message_item i t)])] @
        [(''response.content_part.added'', ?at @ [(u ''part'', ?p [])])] @
        map (\<lambda>d. (''response.output_text.delta'', ?at @ [(u ''delta'', JStr d)])) (slices1 200 t) @
        [(''response.output_text.done'', ?at @ [(u ''text'', JStr t)])] @
        [(''response.content_part.done'', ?at @ [(u ''part'', ?p t)])] @
        [(''response.output_item.done'', [(u ''output_index'', ?j), (u ''item'', message_item i t)])]"
      by (simp add: item_events_def message_item_def part_events_def or_else_def oset_def Let_def enumerate_simps)
        (simp add: u_def)
    have "reads [(''response.output_item.done'', [(u ''output_index'', ?j), (u ''item'', message_item i t)])] []"
      using reads_done(1) by (simp add: message_item_def)
    then have "reads (item_events (n, message_item i t))
        ([] @ [] @ map (\<lambda>p. text_chunk (JStr p) (S '''')) (slices1 200 t) @ [] @ [] @ [])"
      unfolding eq using texts [of "S i" ?j "JInt 0" "slices1 200 t"]
      by (intro reads_simps(2)) (simp_all add: reads_quiet)
    then show ?thesis by simp
  qed
qed

lemma reads_calls:
  "list_all good_call cs \<Longrightarrow> reads (concat (map item_events (enumerate n (map call_item cs)))) (map whole_chunk cs)"
proof (induction cs arbitrary: n)
  case (Cons c cs)
  then show ?case using reads_simps(2) [OF reads_items(1) [of c n] Cons.IH [of "Suc n"]] by simp
qed (simp add: reads_simps)

definition responses_chunks :: "reply_draft \<Rightarrow> chunk list" where
  "responses_chunks d = map whole_chunk (rd_tool_calls d) @
     (if truthy_text (rd_final_text d)
      then map (\<lambda>p. text_chunk (JStr p) (S '''')) (slices1 200 (the (rd_final_text d))) else [])"

lemma reads_body:
  assumes "list_all good_call (rd_tool_calls d)"
  shows "reads (responses_body_events model rid created d usage) (responses_chunks d)"
proof -
  let ?h = "\<lambda>e. [(e, [(u ''response'', JObj (response_object model rid created d ''in_progress'' usage))])]"
  have h: "reads (?h ''response.created'' @ ?h ''response.in_progress'') ([] @ [])"
    by (intro reads_simps(2) reads_quiet) simp_all
  have final: "reads (concat (map item_events (enumerate n (if truthy_text (rd_final_text d)
      then [message_item ''msg_reply'' (the (rd_final_text d))] else [])))) (if truthy_text (rd_final_text d)
      then map (\<lambda>p. text_chunk (JStr p) (S '''')) (slices1 200 (the (rd_final_text d))) else [])" for n
    using reads_items(3) by (simp add: reads_simps)
  have reasoning: "reads (concat (map item_events (enumerate n (if truthy_text (rd_reasoning d)
      then [reasoning_item (the (rd_reasoning d))] else [])))) []" for n
    using reads_items(2) by (simp add: reads_simps)
  have items: "reads (concat (map item_events (enumerate 0 (reply_output_items d)))) ([] @ responses_chunks d)"
    unfolding reply_output_items_def responses_chunks_def enumerate_append_eq map_append concat_append
    by (intro reads_simps(2) reasoning reads_calls assms final)
  show ?thesis using reads_simps(2) [OF h items] by (simp add: responses_body_events_def Let_def)
qed

text \<open>The numbered events of a response, and that they are well formed.\<close>

lemma open_events:
  assumes "list_all good_call (rd_tool_calls d)" "wf_json (JObj usage)" "int_ok created"
    and "length (reply_output_items d) \<le> MAX_STREAM_BYTES" "e \<in> set (responses_body_events model rid created d usage)"
  shows "open_event e"
proof -
  have z: "wf_json (JObj (zero_usage [''input_tokens'', ''output_tokens'', ''total_tokens'']))"
    by (simp add: zero_usage_def)
  have index: "int_ok (int n)" if "(n, x) \<in> set (enumerate 0 (reply_output_items d))" for n x
    using that assms(4) small_index [of n] by (auto simp: in_set_enumerate_eq)
  have item: "open_event e" if mem: "e \<in> set (item_events (n, x))" "x \<in> set (reply_output_items d)" "int_ok (int n)" for n x e
  proof -
    consider r where "x = reasoning_item r" | c where "x = call_item c" | t where "x = message_item ''msg_reply'' t"
      using mem(2) by (auto simp: reply_output_items_def split: if_splits)
    then show ?thesis using mem(1,3)
      by cases (auto simp: item_events_def reasoning_item_def call_item_def message_item_def part_events_def or_else_def
          oset_def Let_def enumerate_simps open_event_def known_events split: if_splits)
  qed
  have head: "wf_json (JObj (response_object model rid created d ''in_progress'' usage))"
    using assms(2,3) z by (simp add: response_object_def responses_usage_def)
  let ?r = "[(u ''response'', JObj (response_object model rid created d ''in_progress'' usage))]"
  consider "e = (''response.created'', ?r)" | "e = (''response.in_progress'', ?r)"
    | n x where "(n, x) \<in> set (enumerate 0 (reply_output_items d))" "e \<in> set (item_events (n, x))"
    using assms(5) by (auto simp: responses_body_events_def Let_def)
  then show ?thesis
  proof cases
    case (3 n x)
    then show ?thesis using item [of e n x] index enumerate_snd [OF 3(1)] by auto
  qed (use head in \<open>simp_all add: open_event_def known_events\<close>)
qed

lemma responses_items_bound: "length (reply_output_items d) \<le> length (responses_body_events model rid created d usage)"
proof -
  have "length ps \<le> length (concat (map item_events ps))" for ps
  proof (induction ps)
    case (Cons q ps)
    have "1 \<le> length (item_events q)" by (simp add: item_events_def Let_def)
    with Cons show ?case by simp
  qed simp
  from this [of "enumerate 0 (reply_output_items d)"] show ?thesis by (simp add: responses_body_events_def Let_def)
qed

lemma numbered_payload_wf: "open_event (snd p) \<Longrightarrow> int_ok (int (fst p)) \<Longrightarrow> wf_json (JObj (numbered_payload p))"
proof -
  assume p: "open_event (snd p)" "int_ok (int (fst p))"
  have "u k \<notin> fst ` set (snd (snd p))" if "\<not> ohas (snd (snd p)) k" for k
    using that by (auto simp: ohas_def map_of_eq_None_iff)
  then show ?thesis using p by (auto simp: open_event_def numbered_payload_def)
qed

lemma responses_stream_read:
  assumes "canonical d" "wf_json (JObj usage)" "int_ok created"
    and "delivers (responses_stream_events model rid created d usage) cs"
  shows "\<exists>native. stream_responses cs = Inr (responses_chunks d @ [native_chunk native])"
proof -
  let ?body = "responses_body_events model rid created d usage"
  let ?final = "response_object model rid created d ''completed'' usage @
      [(u ''sequence_number'', JInt (int (length ?body) + 1))]"
  let ?last = "(''response.completed'', [(u ''response'', JObj ?final)])"
  let ?es = "?body @ [?last]"
  have good: "list_all good_call (rd_tool_calls d)" using assms(1) by (simp add: canonical_def)
  have stream: "responses_stream_events model rid created d usage = map numbered (enumerate 0 ?es)"
    by (simp add: responses_stream_events_def Let_def)
  have bound: "length ?es \<le> MAX_STREAM_BYTES" using delivers_length [OF assms(4)] by (simp add: stream)
  then have items: "length (reply_output_items d) \<le> MAX_STREAM_BYTES"
    using responses_items_bound [of d model rid created usage] by simp
  have body: "list_all open_event ?body"
    using open_events [OF good assms(2,3) items] by (auto simp: list_all_iff)
  have "wf_json (JObj (responses_render_response model rid created d usage))"
    using wf_rendered(2) [OF assms(2,3)] .
  then have "wf_json (JObj ?final)"
    using small_index [of "length ?body + 1"] bound by (simp add: responses_render_response_def response_object_def add.commute)
  then have last: "open_event ?last" by (simp add: open_event_def known_events)
  have num: "numbered p = Sse (Some (fst (snd p))) (dumps (JObj (numbered_payload p)))" for p
    by (cases p) (simp add: numbered_def numbered_payload_def)
  have ok: "wf_json (JObj (numbered_payload p)) \<and> known_event (fst (snd p))" if p: "p \<in> set (enumerate 0 ?es)" for p
  proof -
    have "open_event (snd p)" using enumerate_snd [OF p] body last by (auto simp: list_all_iff)
    moreover have "int_ok (int (fst p))"
      using p bound by (intro small_index) (auto simp: in_set_enumerate_eq)
    ultimately show ?thesis using numbered_payload_wf [of p] by (simp add: open_event_def)
  qed
  have framed: "list_all well_framed (responses_stream_events model rid created d usage)"
    unfolding stream list_all_iff using ok well_framed_dumps(1) by (auto simp: num)
  have "map event_of (responses_stream_events model rid created d usage) =
      map (\<lambda>p. (u (fst (snd p)), Some (numbered_payload p))) (enumerate 0 ?es)"
    unfolding stream map_map using ok well_framed_dumps(2) by (auto simp: num simp del: enumerate_append_eq)
  also have "\<dots> = map (\<lambda>p. (u (fst (snd p)), Some (numbered_payload p))) (enumerate 0 ?body) @
      [(u ''response.completed'', Some (numbered_payload (length ?body, ?last)))]"
    by (simp add: enumerate_append_eq)
  finally have ev: "map event_of (responses_stream_events model rid created d usage) = \<dots>" .
  have "oget ?final ''status'' = S ''completed''"
    by (simp add: response_object_def)
  then have "run responses_consumer s [(u ''response.completed'', Some (numbered_payload (length ?body, ?last)))] =
      Inr (Stop (s @ [native_chunk ?final]))" for s
    by (simp add: responses_consumer_def numbered_payload_def)
  then have "run responses_consumer [] (map event_of (responses_stream_events model rid created d usage)) =
      Inr (Stop (responses_chunks d @ [native_chunk ?final]))"
    unfolding ev using run_responses [OF reads_body [OF good] body, of "[]" 0] by simp
  then show ?thesis
    unfolding stream_responses_def stream_of_frames [OF assms(4) framed] by (auto simp: completed_stream_def)
qed

lemma collect_whole:
  "collect_chunks (map whole_chunk cs) t =
     Inr (t\<lparr>co_calls := co_calls t @ map (\<lambda>c. Whole (JStr (rtc_id c)) (JStr (rtc_name c)) (rtc_arguments c)) cs\<rparr>)"
  by (induction cs arbitrary: t)
    (simp_all add: collect_chunk_def whole_chunk_def call_chunk_def collect_call_def get_default_def)

lemma collect_native:
  "\<exists>n. collect_chunks [native_chunk d] t = Inr (t\<lparr>co_native := n\<rparr>)"
proof -
  have "u [] = []" by (simp add: u_def)
  then have "collect_chunks [native_chunk d] t = Inr (t\<lparr>co_native := Some d\<rparr>)"
    by (cases t) (simp add: collect_chunk_def native_chunk_def collect_call_def)
  then show ?thesis by blast
qed

lemma whole_draft:
  assumes "canonical d" "concat texts = text_of_opt (rd_final_text d)"
  shows "draft_of_chunks (map whole_chunk (rd_tool_calls d) @ map (\<lambda>p. text_chunk (JStr p) (S '''')) texts @ [native_chunk n]) =
    Inr (d\<lparr>rd_reasoning := None\<rparr>)"
proof -
  let ?t = "collected0\<lparr>co_calls := map (\<lambda>c. Whole (JStr (rtc_id c)) (JStr (rtc_name c)) (rtc_arguments c)) (rd_tool_calls d),
      co_text := text_of_opt (rd_final_text d)\<rparr>"
  obtain n' where n: "collect_chunks [native_chunk n] ?t = Inr (?t\<lparr>co_native := n'\<rparr>)" using collect_native by blast
  have "collect_chunks (map whole_chunk (rd_tool_calls d) @ map (\<lambda>p. text_chunk (JStr p) (S '''')) texts @ [native_chunk n])
      collected0 = Inr (?t\<lparr>co_native := n'\<rparr>)"
    using n by (simp only: collect_append collect_whole collect_texts bindr.simps) (simp add: assms(2))
  moreover have "finalize_collected (?t\<lparr>co_native := n'\<rparr>) = Inr (d\<lparr>rd_reasoning := None\<rparr>)"
    using finalize_good [of "?t\<lparr>co_native := n'\<rparr>" "rd_tool_calls d"] finish_calls(2) [of "rd_tool_calls d"] assms(1)
    by (cases d) (simp add: canonical_def text_or_none_def [of "[]"])
  ultimately show ?thesis by (simp add: draft_of_chunks_def)
qed

end
