(* ===== verification/Stream_Anthropic.thy ===== *)
theory Stream_Anthropic
  imports Stream_Responses
begin

text \<open>
  The Anthropic stream of a gateway read by another one, block by block, and the theorem for the
  three protocols. The renderer leaves the reasoning out.
\<close>

section \<open>Anthropic Messages\<close>

definition typed_payload :: "string \<times> obj \<Rightarrow> obj" where
  "typed_payload e = snd e @ [(u ''type'', S (fst e))]"

abbreviation ev :: "string \<times> obj \<Rightarrow> sse_event" where
  "ev e \<equiv> (u (fst e), Some (typed_payload e))"

text \<open>Between two blocks: nothing buffered, and every block stored under its index.\<close>

definition idle :: "anthropic_reader \<Rightarrow> bool" where
  "idle a \<longleftrightarrow> ar_buffers a = [] \<and> sh_arguments (ar_history a) = [] \<and> list_all is_int (map fst (sh_blocks (ar_history a)))"

definition consumed :: "(string \<times> obj) list \<Rightarrow> chunk list \<Rightarrow> bool" where
  "consumed es cs \<longleftrightarrow> (\<forall>a. idle a \<longrightarrow> (\<exists>b. run anthropic_consumer a (map ev es) = Inr (More b) \<and> idle b \<and>
     ar_chunks b = ar_chunks a @ cs))"

lemma run_append:
  "run f s (xs @ ys) = bindr (run f s xs) (\<lambda>flow. case flow of Stop s' \<Rightarrow> Inr (Stop s') | More s' \<Rightarrow> run f s' ys)"
proof (induction xs arbitrary: s)
  case (Cons x xs)
  show ?case
  proof (cases "f s x")
    case (Inr flow)
    then show ?thesis using Cons by (cases flow) simp_all
  qed simp
qed simp

lemma consumed_append: "consumed es cs \<Longrightarrow> consumed es' cs' \<Longrightarrow> consumed (es @ es') (cs @ cs')"
proof -
  assume es: "consumed es cs" "consumed es' cs'"
  show ?thesis unfolding consumed_def
  proof (intro allI impI)
    fix a assume "idle a"
    then obtain b where b: "run anthropic_consumer a (map ev es) = Inr (More b)" "idle b" "ar_chunks b = ar_chunks a @ cs"
      using es(1) unfolding consumed_def by blast
    then obtain c where c: "run anthropic_consumer b (map ev es') = Inr (More c)" "idle c" "ar_chunks c = ar_chunks b @ cs'"
      using es(2) unfolding consumed_def by blast
    have "run anthropic_consumer a (map ev (es @ es')) = Inr (More c)" using b(1) c(1) by (simp add: run_append)
    with b c show "\<exists>c. run anthropic_consumer a (map ev (es @ es')) = Inr (More c) \<and> idle c \<and> ar_chunks c = ar_chunks a @ cs @ cs'"
      by auto
  qed
qed

lemma consumed_Nil: "consumed [] []"
  by (simp add: consumed_def)

lemma kind_typed: "\<not> ohas d ''type'' \<Longrightarrow> e \<noteq> [] \<Longrightarrow> event_kind n (typed_payload (e, d)) = S e"
  by (simp add: event_kind_def typed_payload_def oget_append or_else_def)

lemma typed_get: "\<not> ohas d ''type'' \<Longrightarrow> k \<noteq> ''type'' \<Longrightarrow>
    oget (typed_payload (e, d)) k = oget d k \<and> (ohas (typed_payload (e, d)) k \<longleftrightarrow> ohas d k)"
  by (auto simp: typed_payload_def oget_append ohas_append oget_absent)

lemma int_keys_kput: "list_all is_int (map fst d) \<Longrightarrow> list_all is_int (map fst (kput d (JInt k) v))"
  by (induction d) auto

lemma key_int [simp]: "dict_key (JInt n) = Inr (JInt n)"
  by (simp add: dict_key_def)

lemma consumed_block_text:
  "consumed ((''content_block_start'', [(u ''index'', JInt n), (u ''content_block'', text_block [])]) #
     map (\<lambda>s. (''content_block_delta'', [(u ''index'', JInt n),
        (u ''delta'', JObj [(u ''type'', S ''text_delta''), (u ''text'', JStr s)])])) ps @
     [(''content_block_stop'', [(u ''index'', JInt n)])]) (map (\<lambda>p. text_chunk (JStr p) (S '''')) ps)"
proof -
  let ?delta = "\<lambda>s. (''content_block_delta'', [(u ''index'', JInt n),
        (u ''delta'', JObj [(u ''type'', S ''text_delta''), (u ''text'', JStr s)])])"
  have step: "\<exists>b. anthropic_consumer a (ev (?delta s)) = Inr (More b) \<and> idle b \<and>
      (\<exists>bk t. map_of (sh_blocks (ar_history b)) (JInt n) = Some bk \<and> ohas bk ''text'' \<and> oget bk ''text'' = JStr t) \<and>
      ar_chunks b = ar_chunks a @ [text_chunk (JStr s) (S '''')]"
    if "idle a" "map_of (sh_blocks (ar_history a)) (JInt n) = Some bk" "ohas bk ''text''" "oget bk ''text'' = JStr t" for a s bk t
    using that
    by (simp add: anthropic_consumer_def kind_typed typed_get parse_anthropic_event_def anthropic_delta_def Let_def
        get_default_def history_consume_def history_delta_def history_field_def py_add_def idle_def int_keys_kput map_of_kput)
  have loop: "\<exists>b. run anthropic_consumer a (map ev (map ?delta ps)) = Inr (More b) \<and> idle b \<and>
      ar_chunks b = ar_chunks a @ map (\<lambda>p. text_chunk (JStr p) (S '''')) ps"
    if "idle a" "map_of (sh_blocks (ar_history a)) (JInt n) = Some bk" "ohas bk ''text''" "oget bk ''text'' = JStr t" for a ps bk t
    using that
  proof (induction ps arbitrary: a bk t)
    case (Cons p ps)
    obtain b bk' t' where b: "anthropic_consumer a (ev (?delta p)) = Inr (More b)" "idle b"
        "map_of (sh_blocks (ar_history b)) (JInt n) = Some bk'" "ohas bk' ''text''" "oget bk' ''text'' = JStr t'"
        "ar_chunks b = ar_chunks a @ [text_chunk (JStr p) (S '''')]"
      using step [OF Cons.prems, of p] by blast
    from Cons.IH [OF b(2-5)] b(1,6) show ?case by auto
  qed simp
  show ?thesis unfolding consumed_def
  proof (intro allI impI)
    fix a assume a: "idle a"
    obtain b where b: "anthropic_consumer a (ev (''content_block_start'', [(u ''index'', JInt n), (u ''content_block'', text_block [])])) =
        Inr (More b)" "idle b" "map_of (sh_blocks (ar_history b)) (JInt n) = Some [(u ''type'', S ''text''), (u ''text'', JStr [])]"
        "ar_chunks b = ar_chunks a"
      using a by (simp add: anthropic_consumer_def kind_typed typed_get parse_anthropic_event_def anthropic_block_start_def
          Let_def get_default_def history_consume_def idle_def int_keys_kput map_of_kput text_block_def)
    obtain c where c: "run anthropic_consumer b (map ev (map ?delta ps)) = Inr (More c)" "idle c"
        "ar_chunks c = ar_chunks b @ map (\<lambda>p. text_chunk (JStr p) (S '''')) ps"
      using loop [OF b(2,3), of "[]" ps] by auto
    have "anthropic_consumer c (ev (''content_block_stop'', [(u ''index'', JInt n)])) = Inr (More c)"
      using c(2) by (cases c) (simp add: anthropic_consumer_def kind_typed typed_get parse_anthropic_event_def anthropic_block_stop_def
          Let_def get_default_def history_consume_def history_stop_def idle_def)
    then show "\<exists>c. run anthropic_consumer a (map ev ((''content_block_start'', [(u ''index'', JInt n), (u ''content_block'', text_block [])]) #
        map ?delta ps @ [(''content_block_stop'', [(u ''index'', JInt n)])])) = Inr (More c) \<and> idle c \<and>
        ar_chunks c = ar_chunks a @ map (\<lambda>p. text_chunk (JStr p) (S '''')) ps"
      using b c by (simp add: run_append del: map_map)
  qed
qed

lemma kdel_single [simp]: "kdel [(k, v)] k = []"
  by (simp add: kdel_def)

lemma kput_single [simp]: "kput [(k, v)] k w = [(k, w)]"
  by simp

text \<open>Inside a tool block: its buffer, the same text in the history, and the block itself.\<close>

definition in_tool :: "json \<Rightarrow> tool_buffer \<Rightarrow> anthropic_reader \<Rightarrow> bool" where
  "in_tool k buf a \<longleftrightarrow> ar_buffers a = [(k, buf)] \<and> sh_arguments (ar_history a) = [(k, tb_json buf)] \<and>
     list_all is_int (map fst (sh_blocks (ar_history a))) \<and> map_of (sh_blocks (ar_history a)) k \<noteq> None"

lemma tool_delta_step:
  assumes "ar_buffers a = [(JInt n, buf)]" "sh_arguments (ar_history a) = [] \<and> tb_json buf = [] \<or>
      sh_arguments (ar_history a) = [(JInt n, tb_json buf)]"
    and "list_all is_int (map fst (sh_blocks (ar_history a)))" "map_of (sh_blocks (ar_history a)) (JInt n) \<noteq> None"
  shows "\<exists>b. anthropic_consumer a (ev (''content_block_delta'', [(u ''index'', JInt n),
      (u ''delta'', JObj [(u ''type'', S ''input_json_delta''), (u ''partial_json'', JStr s)])])) = Inr (More b) \<and>
    in_tool (JInt n) (buf\<lparr>tb_json := tb_json buf @ s\<rparr>) b \<and> ar_chunks b = ar_chunks a"
  using assms
  by (auto simp: anthropic_consumer_def kind_typed typed_get parse_anthropic_event_def anthropic_delta_def Let_def
      get_default_def history_consume_def history_delta_def history_field_def in_tool_def int_keys_kput map_of_kput)

lemma tool_deltas_run:
  "in_tool (JInt n) buf a \<Longrightarrow>
   \<exists>b. run anthropic_consumer a (map (\<lambda>s. ev (''content_block_delta'', [(u ''index'', JInt n),
      (u ''delta'', JObj [(u ''type'', S ''input_json_delta''), (u ''partial_json'', JStr s)])])) ps) = Inr (More b) \<and>
    in_tool (JInt n) (buf\<lparr>tb_json := tb_json buf @ concat ps\<rparr>) b \<and> ar_chunks b = ar_chunks a"
proof (induction ps arbitrary: buf a)
  case Nil
  then show ?case by (cases buf) simp
next
  case (Cons p ps)
  obtain b where b: "anthropic_consumer a (ev (''content_block_delta'', [(u ''index'', JInt n),
      (u ''delta'', JObj [(u ''type'', S ''input_json_delta''), (u ''partial_json'', JStr p)])])) = Inr (More b)"
    "in_tool (JInt n) (buf\<lparr>tb_json := tb_json buf @ p\<rparr>) b" "ar_chunks b = ar_chunks a"
    using tool_delta_step [of a n buf p] Cons.prems by (auto simp: in_tool_def)
  from Cons.IH [OF b(2)] b(1,3) show ?case by auto
qed

lemma tool_stop:
  assumes "in_tool (JInt n) buf a" "tb_json buf \<noteq> []" "loads (tb_json buf) = Some (JObj d)"
  shows "\<exists>b. anthropic_consumer a (ev (''content_block_stop'', [(u ''index'', JInt n)])) = Inr (More b) \<and> idle b \<and>
    ar_chunks b = ar_chunks a @ [call_chunk [(u ''id'', tb_id buf), (u ''name'', tb_name buf), (u ''arguments'', JObj d)]]"
proof -
  obtain bk where bk: "map_of (sh_blocks (ar_history a)) (JInt n) = Some bk" using assms(1) by (auto simp: in_tool_def)
  show ?thesis using assms bk
    by (simp add: anthropic_consumer_def kind_typed typed_get parse_anthropic_event_def anthropic_block_stop_def Let_def
        get_default_def history_consume_def history_stop_def streamed_arguments_def parse_tool_arguments_def in_tool_def
        idle_def int_keys_kput)
qed

lemma consumed_block_tool:
  assumes "good_call c"
  shows "consumed (block_events d (n, tool_use_block rnd (m, c))) [whole_chunk c]"
proof -
  let ?k = "JInt (int n)" and ?a = "dumps (JObj (rtc_arguments c))"
  let ?delta = "\<lambda>s. (''content_block_delta'', [(u ''index'', ?k),
      (u ''delta'', JObj [(u ''type'', S ''input_json_delta''), (u ''partial_json'', JStr s)])])"
  let ?block = "JObj [(u ''type'', S ''tool_use''), (u ''id'', JStr (rtc_id c)), (u ''name'', JStr (rtc_name c)),
      (u ''input'', JObj [])]"
  let ?buf = "\<lparr>tb_id = JStr (rtc_id c), tb_name = JStr (rtc_name c), tb_json = [], tb_initial = JObj []\<rparr>"
  have ne: "?a \<noteq> []" by (simp add: dumps_def)
  obtain p ps where ps: "slices1 200 ?a = p # ps" "p @ concat ps = ?a"
    using concat_slices1 [of 200 ?a] ne by (cases "slices1 200 ?a") auto
  have id: "id_or (rtc_id c) x y = rtc_id c" for x y using good_call_truthy [OF assms] by (simp add: id_or_def)
  have eq: "block_events d (n, tool_use_block rnd (m, c)) =
      (''content_block_start'', [(u ''index'', ?k), (u ''content_block'', ?block)]) # map ?delta (p # ps) @
      [(''content_block_stop'', [(u ''index'', ?k)])]"
    by (simp add: block_events_def tool_use_block_def oset_def Let_def ps(1) [symmetric] id)
  show ?thesis unfolding consumed_def
  proof (intro allI impI)
    fix a assume a: "idle a"
    obtain b where b: "anthropic_consumer a (ev (''content_block_start'', [(u ''index'', ?k), (u ''content_block'', ?block)])) =
        Inr (More b)" "ar_buffers b = [(?k, ?buf)]" "sh_arguments (ar_history b) = []"
        "list_all is_int (map fst (sh_blocks (ar_history b)))" "map_of (sh_blocks (ar_history b)) ?k \<noteq> None"
        "ar_chunks b = ar_chunks a"
      using a by (simp add: anthropic_consumer_def kind_typed typed_get parse_anthropic_event_def anthropic_block_start_def
          Let_def get_default_def history_consume_def idle_def int_keys_kput map_of_kput)
    obtain c1 where c1: "anthropic_consumer b (ev (?delta p)) = Inr (More c1)" "in_tool ?k (?buf\<lparr>tb_json := p\<rparr>) c1"
        "ar_chunks c1 = ar_chunks b"
      using tool_delta_step [of b "int n" ?buf p] b by auto
    obtain c2 where c2: "run anthropic_consumer c1 (map (\<lambda>s. ev (?delta s)) ps) = Inr (More c2)"
        "in_tool ?k (?buf\<lparr>tb_json := ?a\<rparr>) c2" "ar_chunks c2 = ar_chunks c1"
      using tool_deltas_run [OF c1(2), of ps] by (auto simp: ps(2))
    have "loads ?a = Some (JObj (rtc_arguments c))" using assms by (simp add: loads_dumps good_call_def)
    then obtain c3 where c3: "anthropic_consumer c2 (ev (''content_block_stop'', [(u ''index'', ?k)])) = Inr (More c3)"
        "idle c3" "ar_chunks c3 = ar_chunks c2 @ [whole_chunk c]"
      using tool_stop [OF c2(2)] ne by (auto simp: whole_chunk_def)
    show "\<exists>b. run anthropic_consumer a (map ev (block_events d (n, tool_use_block rnd (m, c)))) = Inr (More b) \<and> idle b \<and>
        ar_chunks b = ar_chunks a @ [whole_chunk c]"
      unfolding eq using b(1,6) c1(1,3) c2(1,3) c3 by (simp add: run_append comp_def)
  qed
qed

lemma consumed_tools:
  "list_all good_call cs \<Longrightarrow>
   consumed (concat (map (block_events d) (enumerate n (map (tool_use_block rnd) (enumerate m cs))))) (map whole_chunk cs)"
proof (induction cs arbitrary: n m)
  case (Cons c cs)
  then show ?case using consumed_append [OF consumed_block_tool [of c d n rnd m] Cons.IH [of "Suc n" "Suc m"]] by simp
qed (simp add: consumed_Nil)

lemma consumed_usage:
  assumes "e = ''message_delta'' \<and> d = [(u ''delta'', x), (u ''usage'', JObj us)] \<or>
    e = ''message_start'' \<and> d = [(u ''message'', JObj m)] \<and> oget m ''usage'' = JObj us"
  shows "consumed [(e, d)] []"
  unfolding consumed_def
proof (intro allI impI)
  fix a assume "idle a"
  then show "\<exists>b. run anthropic_consumer a (map ev [(e, d)]) = Inr (More b) \<and> idle b \<and> ar_chunks b = ar_chunks a @ []"
    using assms by (auto simp: anthropic_consumer_def kind_typed typed_get parse_anthropic_event_def Let_def
        history_consume_def update_usage_def idle_def)
qed

definition anthropic_texts :: "reply_draft \<Rightarrow> ustr list" where
  "anthropic_texts d = slices 200 (text_of_opt (rd_final_text d))"

lemma consumed_text:
  "consumed (block_events d (n, text_block t)) (map (\<lambda>p. text_chunk (JStr p) (S '''')) (anthropic_texts d))"
proof -
  have blank: "text_block [] = JObj [(u ''type'', S ''text''), (u ''text'', S '''')]"
    by (simp add: text_block_def u_def)
  show ?thesis using consumed_block_text [of "int n" "anthropic_texts d"] unfolding blank
    by (simp add: block_events_def text_block_def oset_def Let_def anthropic_texts_def)
qed

lemma consumed_body:
  assumes "list_all good_call (rd_tool_calls d)"
  shows "\<exists>es. anthropic_events rnd mid model d usage = es @ [(''message_stop'', [])] \<and>
    consumed es (map whole_chunk (rd_tool_calls d) @ map (\<lambda>p. text_chunk (JStr p) (S '''')) (anthropic_texts d))"
proof -
  let ?text = "if truthy_text (rd_final_text d) then [text_block (the (rd_final_text d))]
      else if map (tool_use_block rnd) (enumerate 0 (rd_tool_calls d)) = [] then [text_block []] else []"
  have empty: "anthropic_texts d = []" if "\<not> truthy_text (rd_final_text d)"
    using that by (auto simp: anthropic_texts_def truthy_text_def text_of_opt_def slices.simps split: option.splits)
  have final: "consumed (concat (map (block_events d) (enumerate n ?text))) (map (\<lambda>p. text_chunk (JStr p) (S '''')) (anthropic_texts d))" for n
    using consumed_text [of d n] empty by (auto simp: consumed_Nil)
  have blocks: "consumed (concat (map (block_events d) (enumerate 0 (content_blocks rnd d))))
      (map whole_chunk (rd_tool_calls d) @ map (\<lambda>p. text_chunk (JStr p) (S '''')) (anthropic_texts d))"
    unfolding content_blocks_def Let_def enumerate_append_eq map_append concat_append
    by (intro consumed_append consumed_tools assms final)
  obtain m us x us' where ev: "anthropic_events rnd mid model d usage = [(''message_start'', [(u ''message'', JObj m)])] @
      concat (map (block_events d) (enumerate 0 (content_blocks rnd d))) @
      [(''message_delta'', [(u ''delta'', x), (u ''usage'', JObj us')])] @ [(''message_stop'', [])]" "oget m ''usage'' = JObj us"
    by (simp add: anthropic_events_def)
  have "consumed ([(''message_start'', [(u ''message'', JObj m)])] @
      concat (map (block_events d) (enumerate 0 (content_blocks rnd d))) @
      [(''message_delta'', [(u ''delta'', x), (u ''usage'', JObj us')])])
      ([] @ (map whole_chunk (rd_tool_calls d) @ map (\<lambda>p. text_chunk (JStr p) (S '''')) (anthropic_texts d)) @ [])"
    using ev(2) by (intro consumed_append blocks consumed_usage) auto
  then show ?thesis using ev(1) by auto
qed

end
