(* ===== verification/Stream_Contract.thy ===== *)
theory Stream_Contract
  imports Stream_Anthropic Samples
begin

text \<open>
  The end of an Anthropic stream, the theorem for the streams of the three protocols, and a run of
  it on the streams of a small reply, each cut in two.
\<close>

section \<open>Well-formed frames\<close>

lemma anthropic_kinds:
  "known_event ''message_start''" "known_event ''content_block_start''" "known_event ''content_block_delta''"
  "known_event ''content_block_stop''" "known_event ''message_delta''" "known_event ''message_stop''"
  by (simp_all add: known_event_def strip_def lstrip_def rstrip_def py_space_def u_def plain_byte_def scalar_def
      utf8_char_def MAX_LINE_BYTES_def)

definition typed_event :: "string \<times> obj \<Rightarrow> bool" where
  "typed_event e \<longleftrightarrow> known_event (fst e) \<and> wf_json (JObj (snd e)) \<and> \<not> ohas (snd e) ''type''"

lemma typed_payload_wf: "typed_event e \<Longrightarrow> wf_json (JObj (typed_payload e))"
proof -
  assume e: "typed_event e"
  then have "u ''type'' \<notin> fst ` set (snd e)" by (auto simp: typed_event_def ohas_def map_of_eq_None_iff)
  then show ?thesis using e by (auto simp: typed_event_def typed_payload_def)
qed

lemma typed_block:
  assumes "x = tool_use_block rnd (m, c) \<and> good_call c \<or> x = text_block t" "int_ok (int n)" "e \<in> set (block_events d (n, x))"
  shows "typed_event e"
  using assms by (auto simp: block_events_def tool_use_block_def text_block_def oset_def Let_def typed_event_def anthropic_kinds)

lemma typed_events:
  assumes "list_all good_call (rd_tool_calls d)" "wf_json (JObj usage)" "length (content_blocks rnd d) \<le> MAX_STREAM_BYTES"
    and "e \<in> set (anthropic_events rnd mid model d usage)"
  shows "typed_event e"
proof -
  have usage: "wf_json (usage_or_0 usage k)" for k using assms(2) wf_pairs_get by (simp add: usage_or_0_def)
  have block: "typed_event e" if mem: "(n, x) \<in> set (enumerate 0 (content_blocks rnd d))" "e \<in> set (block_events d (n, x))" for n x
  proof -
    have "int_ok (int n)" using mem(1) assms(3) by (intro small_index) (auto simp: in_set_enumerate_eq)
    moreover have "x \<in> set (content_blocks rnd d)" using enumerate_snd [OF mem(1)] by simp
    then consider m c where "x = tool_use_block rnd (m, c)" "good_call c" | t where "x = text_block t"
      using assms(1) enumerate_snd [of _ 0 "rd_tool_calls d"]
      by (fastforce simp: content_blocks_def Let_def list_all_iff split: if_splits)
    ultimately show ?thesis using typed_block [OF _ _ mem(2)] by metis
  qed
  have "e \<in> set (concat (map (block_events d) (enumerate 0 (content_blocks rnd d)))) \<or> typed_event e"
    using assms(4) usage by (auto simp: anthropic_events_def typed_event_def anthropic_kinds)
  then show ?thesis using block by auto
qed

lemma blocks_bound: "length (content_blocks rnd d) \<le> length (anthropic_events rnd mid model d usage)"
proof -
  have "length ps \<le> length (concat (map (block_events d) ps))" for ps
  proof (induction ps)
    case (Cons p ps)
    have "1 \<le> length (block_events d p)" by (simp add: block_events_def Let_def)
    with Cons show ?case by simp
  qed simp
  from this [of "enumerate 0 (content_blocks rnd d)"] show ?thesis by (simp add: anthropic_events_def)
qed

lemma sorted_int_keys: "list_all is_int ks \<Longrightarrow> \<exists>ks'. sorted_keys ks = Inr ks'"
  by (simp add: sorted_keys_def)

lemma anthropic_stream_read:
  assumes "canonical d" "wf_json (JObj usage)" "delivers (anthropic_stream_events rnd mid model d usage) cs"
  shows "\<exists>native. stream_anthropic_messages cs =
    Inr (map whole_chunk (rd_tool_calls d) @ map (\<lambda>p. text_chunk (JStr p) (S '''')) (anthropic_texts d) @ [native_chunk native])"
proof -
  let ?es = "anthropic_events rnd mid model d usage" and ?a = "\<lparr>ar_chunks = [], ar_buffers = [], ar_history = history0\<rparr>"
  have good: "list_all good_call (rd_tool_calls d)" using assms(1) by (simp add: canonical_def)
  have "length ?es \<le> MAX_STREAM_BYTES" using delivers_length [OF assms(3)] by (simp add: anthropic_stream_events_def)
  then have "length (content_blocks rnd d) \<le> MAX_STREAM_BYTES" using blocks_bound [of rnd d mid model usage] by linarith
  note typed = typed_events [OF good assms(2) this]
  have frame: "typed_frame e = Sse (Some (fst e)) (dumps (JObj (typed_payload e)))" for e
    by (simp add: typed_frame_def typed_payload_def)
  have ok: "wf_json (JObj (typed_payload e)) \<and> known_event (fst e)" if "e \<in> set ?es" for e
    using typed [OF that] typed_payload_wf [of e] by (simp add: typed_event_def)
  have framed: "list_all well_framed (anthropic_stream_events rnd mid model d usage)"
    using ok well_framed_dumps(1) by (auto simp: anthropic_stream_events_def list_all_iff frame)
  have event: "event_of (typed_frame e) = ev e" if "e \<in> set ?es" for e
  proof -
    have "event_of (typed_frame e) = (sse_name (Sse (Some (fst e)) []), Some (typed_payload e))"
      unfolding frame using ok [OF that] by (intro well_framed_dumps(2)) simp_all
    then show ?thesis by simp
  qed
  have ev: "map event_of (anthropic_stream_events rnd mid model d usage) = map ev ?es"
    unfolding anthropic_stream_events_def list.map_comp by (rule map_cong [OF refl]) (simp only: comp_apply event)
  obtain es where es: "?es = es @ [(''message_stop'', [])]" "consumed es (map whole_chunk (rd_tool_calls d) @
      map (\<lambda>p. text_chunk (JStr p) (S '''')) (anthropic_texts d))"
    using consumed_body [OF good] by blast
  have "idle ?a" by (simp add: idle_def history0_def)
  with es(2) obtain b where b: "run anthropic_consumer ?a (map ev es) = Inr (More b)" "idle b" "ar_chunks b =
      ar_chunks ?a @ map whole_chunk (rd_tool_calls d) @ map (\<lambda>p. text_chunk (JStr p) (S '''')) (anthropic_texts d)"
    unfolding consumed_def by blast
  obtain ks where "sorted_keys (map fst (sh_blocks (ar_history b))) = Inr ks"
    using sorted_int_keys b(2) unfolding idle_def by blast
  then obtain native where "history_response (ar_history b) = Inr native" by (simp add: history_response_def)
  moreover have "event_kind (u ''message_stop'') (typed_payload (''message_stop'', [])) = S ''message_stop''"
    by (rule kind_typed) simp_all
  moreover have "ar_buffers b = []" using b(2) by (simp add: idle_def)
  ultimately have "anthropic_consumer b (ev (''message_stop'', [])) = Inr (Stop (b\<lparr>ar_chunks := ar_chunks b @ [native_chunk native]\<rparr>))"
    unfolding anthropic_consumer_def by (simp only: fst_conv snd_conv prod.case option.case if_True if_False simp_thms bindr.simps)
  then have "run anthropic_consumer ?a (map ev ?es) = Inr (Stop (b\<lparr>ar_chunks := ar_chunks b @ [native_chunk native]\<rparr>))"
    unfolding es(1) using b(1) by (simp add: run_append del: map_map)
  then show ?thesis
    unfolding stream_anthropic_messages_def stream_of_frames [OF assms(3) framed] ev
    by (auto simp: completed_stream_def b(3))
qed

section \<open>Small streams\<close>

text \<open>A stream of short frames in ASCII is delivered by any two chunks.\<close>

lemma utf8_ascii: "list_all (\<lambda>c. c < 128) s \<Longrightarrow> utf8 s = s \<and> list_all scalar s"
  by (induction s) (auto simp: utf8_char_def scalar_def)

lemma short_wire: "list_all (\<lambda>fr. length (wire fr) \<le> n) frs \<Longrightarrow> length (concat (map wire frs)) \<le> length frs * n"
  by (induction frs) auto

lemma short_frame:
  assumes "list_all (\<lambda>c. c < 128) (wire fr)" "length (wire fr) \<le> 900"
  shows "frame_fits fr"
proof -
  have w: "list_all (\<lambda>c. c < 128) (sse_data fr) \<and> length (sse_data fr) \<le> 900"
    using assms by (cases fr rule: wire.cases) simp_all
  moreover have "list_all (\<lambda>c. c < 128) (u ''data: '')" by (simp add: u_def)
  ultimately have "utf8 (u ''data: '' @ sse_data fr) = u ''data: '' @ sse_data fr"
    by (simp only: utf8_ascii list_all_append)
  then have "length (utf8 (u ''data: '' @ sse_data fr)) \<le> 906" using w by (simp only: length_append) (simp add: u_def)
  then show ?thesis using w utf8_ascii unfolding frame_fits_def MAX_LINE_BYTES_def by simp
qed

lemma short_delivers:
  assumes "list_all (\<lambda>fr. list_all (\<lambda>c. c < 128) (wire fr) \<and> length (wire fr) \<le> 900) frs" "length frs \<le> 20"
  shows "delivers frs [(take n (concat (map wire frs)), 1), (drop n (concat (map wire frs)), 599)]"
proof -
  let ?w = "concat (map wire frs)"
  have "list_all (\<lambda>c. c < 128) ?w" using assms(1) by (auto simp: list_all_iff)
  then have "utf8 ?w = ?w" by (rule utf8_ascii [THEN conjunct1])
  moreover have "length ?w \<le> length frs * 900" using assms(1) by (intro short_wire) (auto simp: list_all_iff)
  moreover have "list_all frame_fits frs" using assms(1) short_frame by (auto simp: list_all_iff)
  ultimately show ?thesis using assms(2)
    by (simp add: delivers_def in_budget_def MAX_STREAM_BYTES_def MAX_STREAM_SECONDS_def)
qed

definition small_frames :: "sse list \<Rightarrow> bool" where
  "small_frames frs \<longleftrightarrow> list_all (\<lambda>fr. list_all (\<lambda>c. c < 128) (wire fr) \<and> length (wire fr) \<le> 900) frs \<and> length frs \<le> 20"

definition in_two :: "nat \<Rightarrow> sse list \<Rightarrow> (nat list \<times> nat) list" where
  "in_two n frs = [(take n (concat (map wire frs)), 1), (drop n (concat (map wire frs)), 599)]"

lemma small_delivers: "small_frames frs \<Longrightarrow> delivers frs (in_two n frs)"
  using short_delivers by (simp add: small_frames_def in_two_def)



lemma escape_ascii: "32 \<le> c \<Longrightarrow> c \<noteq> 34 \<Longrightarrow> c \<noteq> 92 \<Longrightarrow> escape_char c = [c]"
  by (simp add: escape_char_def)

lemma quote_plain_text: "list_all (\<lambda>c. 32 \<le> c \<and> c \<noteq> 34 \<and> c \<noteq> 92) s \<Longrightarrow> quote s = 34 # s @ [34]"
proof -
  assume "list_all (\<lambda>c. 32 \<le> c \<and> c \<noteq> 34 \<and> c \<noteq> 92) s"
  then have "concat (map escape_char s) = s" by (induction s) (simp_all add: escape_ascii)
  then show ?thesis by (simp add: quote_def)
qed


lemma small_chat: "small_frames (chat_stream_frames (\<lambda>n. []) (u ''c'') 0 (u ''m'') sample_draft [] True)"
  by (simp add: chat_stream_frames_def chat_deltas_def sample_draft_def Let_def truthy_text_def chat_chunk_def
      text_of_opt_def slices.simps finish_reason_def)
    (simp add: small_frames_def dumps_def quote_plain_text u_def int_str_def nat_digits.simps slices.simps typed_frame_def)

lemma small_responses: "small_frames (responses_stream_events (u ''m'') (u ''r'') 0 sample_draft [])"
  apply (simp add: responses_stream_events_def responses_body_events_def reply_output_items_def item_events_def message_item_def
      part_events_def response_object_def responses_usage_def zero_usage_def sample_draft_def Let_def truthy_text_def numbered_def
      oset_def or_else_def)
  apply (simp add: small_frames_def dumps_def quote_plain_text u_def int_str_def nat_digits.simps slices.simps slices1_def numbered_def)
  done

lemma small_anthropic: "small_frames (anthropic_stream_events (\<lambda>n. []) (u ''c'') (u ''m'') sample_draft [])"
  by (simp add: anthropic_stream_events_def anthropic_events_def content_blocks_def sample_draft_def Let_def truthy_text_def
      typed_frame_def block_events_def text_block_def usage_or_0_def stop_reason_def text_of_opt_def oset_def)
    (simp add: small_frames_def dumps_def quote_plain_text u_def int_str_def nat_digits.simps slices.simps typed_frame_def)
section \<open>The theorem\<close>

text \<open>
  C21. A gateway that forwards to another one by streams. Whatever a gateway streams for a canonical
  reply, in any of the three protocols, and however the network cuts the bytes, the reader of the other one
  sums up to the same reply, as long as the stream stays within its limits; only the reasoning, which the
  streams of the Responses and Anthropic protocols leave out of the increments, is lost.
\<close>

theorem gateways_stream_compose:
  assumes "canonical d" "wf_json (JObj usage)" "int_ok created"
  shows "(delivers (chat_stream_frames rnd cid created model d usage inc) cs \<longrightarrow>
      bindr (stream_chat_completions cs) draft_of_chunks = Inr d) \<and>
    (delivers (responses_stream_events model rid created d usage) cs \<longrightarrow>
      bindr (stream_responses cs) draft_of_chunks = Inr (d\<lparr>rd_reasoning := None\<rparr>)) \<and>
    (delivers (anthropic_stream_events rnd mid model d usage) cs \<longrightarrow>
      bindr (stream_anthropic_messages cs) draft_of_chunks = Inr (d\<lparr>rd_reasoning := None\<rparr>))"
proof (intro conjI impI)
  show "bindr (stream_chat_completions cs) draft_of_chunks = Inr d"
    if "delivers (chat_stream_frames rnd cid created model d usage inc) cs"
    using chat_stream_read [OF assms that] chat_chunks_draft [OF assms(1)] by simp
  show "bindr (stream_anthropic_messages cs) draft_of_chunks = Inr (d\<lparr>rd_reasoning := None\<rparr>)"
    if "delivers (anthropic_stream_events rnd mid model d usage) cs"
    using anthropic_stream_read [OF assms(1,2) that] whole_draft [OF assms(1), of "anthropic_texts d"]
    by (auto simp: anthropic_texts_def concat_slices)
  show "bindr (stream_responses cs) draft_of_chunks = Inr (d\<lparr>rd_reasoning := None\<rparr>)"
    if "delivers (responses_stream_events model rid created d usage) cs"
  proof -
    define ps where "ps = (if truthy_text (rd_final_text d) then slices1 200 (the (rd_final_text d)) else [])"
    have "concat ps = text_of_opt (rd_final_text d)"
      by (simp add: ps_def concat_slices1 truthy_text_def text_of_opt_def split: option.splits)
    moreover have "responses_chunks d = map whole_chunk (rd_tool_calls d) @ map (\<lambda>p. text_chunk (JStr p) (S '''')) ps"
      by (simp add: responses_chunks_def ps_def)
    ultimately show ?thesis using responses_stream_read [OF assms that] whole_draft [OF assms(1), of ps] by auto
  qed
qed

theorem gateways_stream_compose_witness:
  "bindr (stream_chat_completions (in_two 70 (chat_stream_frames (\<lambda>n. []) (u ''c'') 0 (u ''m'') sample_draft [] True)))
     draft_of_chunks = Inr sample_draft \<and>
   bindr (stream_responses (in_two 70 (responses_stream_events (u ''m'') (u ''r'') 0 sample_draft [])))
     draft_of_chunks = Inr sample_draft \<and>
   bindr (stream_anthropic_messages (in_two 70 (anthropic_stream_events (\<lambda>n. []) (u ''c'') (u ''m'') sample_draft [])))
     draft_of_chunks = Inr sample_draft"
proof -
  have c: "canonical sample_draft"
    by (simp add: canonical_def sample_draft_def u_def)
  have r: "sample_draft\<lparr>rd_reasoning := None\<rparr> = sample_draft" by (simp add: sample_draft_def)
  have i: "int_ok 0" by (simp add: int_ok_def nat_digits.simps)
  have w: "wf_json (JObj [])" by simp
  show ?thesis
    using gateways_stream_compose [OF c w i, unfolded r] small_chat [THEN small_delivers] small_responses [THEN small_delivers] small_anthropic [THEN small_delivers] by blast
qed

section \<open>A tool without arguments\<close>

text \<open>
  Events of a call whose only increment of arguments is empty. \<open>_parse_anthropic_event\<close> alone would take
  the input of the block's start; the history, which parses the collected text even when it is
  empty, refuses the stream.
\<close>

definition no_argument_call :: "(string \<times> obj) list" where
  "no_argument_call =
     [(''content_block_start'', [(u ''index'', JInt 0), (u ''content_block'',
         JObj [(u ''type'', S ''tool_use''), (u ''id'', S ''t''), (u ''name'', S ''now''), (u ''input'', JObj [])])]),
      (''content_block_delta'', [(u ''index'', JInt 0),
         (u ''delta'', JObj [(u ''type'', S ''input_json_delta''), (u ''partial_json'', JStr [])])]),
      (''content_block_stop'', [(u ''index'', JInt 0)])]"

lemma no_argument_call_refused:
  "run anthropic_consumer \<lparr>ar_chunks = [], ar_buffers = [], ar_history = history0\<rparr> (map ev no_argument_call) =
     Inl (err UPSTREAM_ERROR ''the tool arguments of the upstream model are not JSON'' 502)"
proof -
  have "loads [] = None" by code_simp
  then show ?thesis
    by (simp add: no_argument_call_def anthropic_consumer_def kind_typed typed_get parse_anthropic_event_def
      anthropic_block_start_def anthropic_delta_def anthropic_block_stop_def history_consume_def history_delta_def
      history_field_def history_stop_def streamed_arguments_def history0_def Let_def get_default_def oset_def)
qed

end
