(* ===== verification/Llm_Forward.thy ===== *)
theory Llm_Forward
  imports Llm_Requests Stream_Contract Inference
begin

text \<open>
  \<open>LlmForwardService\<close> (\<open>app/services/llm_forward_service.py\<close>) with the calls it makes
  (\<open>app/services/llm_upstream.py\<close>) and the endpoint's handling of its outcome
  (\<open>app/api/inference.py\<close>). A forward has two transactions with the call of the model between
  them: the claim of the task and the acceptance of the reply; whatever the rest of the gateway does
  meanwhile is the argument \<open>others\<close>. The network is the parameter \<open>transport\<close>, which gets the
  URL, the headers and the body; its \<open>Refused\<close> stands for every exchange that does not end, with the
  \<open>DomainError\<close> that \<open>_upstream_response\<close> makes of it. \<open>decrypt\<close> stands for
  \<open>decrypt_secret\<close>. Bodies of JSON are taken to be UTF-8; trace ids, log records and the
  cancellation of the worker thread are not modelled.
\<close>

section \<open>Addresses\<close>

definition endswith :: "ustr \<Rightarrow> ustr \<Rightarrow> bool" where
  "endswith s t \<longleftrightarrow> startswith (rev s) (rev t)"

definition removesuffix :: "ustr \<Rightarrow> ustr \<Rightarrow> ustr" where
  "removesuffix s t = (if endswith s t then take (length s - length t) s else s)"

text \<open>\<open>rstrip("/")\<close>.\<close>

definition rstrip_slash :: "ustr \<Rightarrow> ustr" where
  "rstrip_slash s = rev (dropWhile (\<lambda>c. c = 47) (rev s))"

definition chat_completions_url :: "ustr \<Rightarrow> ustr" where
  "chat_completions_url base =
     removesuffix (removesuffix (rstrip_slash base) (u ''/responses'')) (u ''/chat/completions'') @ u ''/chat/completions''"

definition responses_url :: "ustr \<Rightarrow> ustr" where
  "responses_url base =
     removesuffix (removesuffix (rstrip_slash base) (u ''/chat/completions'')) (u ''/responses'') @ u ''/responses''"

definition anthropic_messages_url :: "ustr \<Rightarrow> ustr" where
  "anthropic_messages_url base =
     (let cleaned = rstrip_slash base
      in if endswith cleaned (u ''/v1/messages'') then cleaned
         else if endswith cleaned (u ''/v1'') then cleaned @ u ''/messages''
         else cleaned @ u ''/v1/messages'')"

fun upstream_url :: "llm_protocol \<Rightarrow> ustr \<Rightarrow> ustr" where
  "upstream_url LLM_CHAT base = chat_completions_url base"
| "upstream_url LLM_RESPONSES base = responses_url base"
| "upstream_url LLM_ANTHROPIC base = anthropic_messages_url base"

definition chat_headers :: "ustr \<Rightarrow> (string \<times> ustr) list" where
  "chat_headers key = [(''Authorization'', u ''Bearer '' @ key), (''Content-Type'', u ''application/json'')]"

definition anthropic_headers :: "ustr \<Rightarrow> (string \<times> ustr) list" where
  "anthropic_headers key =
     [(''x-api-key'', key), (''anthropic-version'', u ''2023-06-01''), (''Content-Type'', u ''application/json'')]"

fun upstream_headers :: "llm_protocol \<Rightarrow> ustr \<Rightarrow> (string \<times> ustr) list" where
  "upstream_headers LLM_ANTHROPIC key = anthropic_headers key"
| "upstream_headers p key = chat_headers key"

section \<open>The exchange\<close>

datatype http = Refused domain_error | Response int "(nat list \<times> nat) list"

type_synonym transport = "ustr \<Rightarrow> (string \<times> ustr) list \<Rightarrow> obj \<Rightarrow> http"

definition MAX_RESPONSE_BYTES :: nat where "MAX_RESPONSE_BYTES = 8 * 1024 * 1024"

definition upstream_response :: "http \<Rightarrow> (nat list \<times> nat) list result" where
  "upstream_response h =
     (case h of
        Refused e \<Rightarrow> Inl (DomainError e)
      | Response status body \<Rightarrow> if 200 \<le> status \<and> status < 300 then Inr body else Inl (upstream_status status))"

text \<open>Bytes are UTF-8 when they are the encoding of what they decode to.\<close>

definition strict_utf8 :: "nat list \<Rightarrow> ustr option" where
  "strict_utf8 bs = (let s = utf8_decode bs in if utf8 s = bs then Some s else None)"

definition post_json :: "http \<Rightarrow> obj result" where
  "post_json h =
     bindr (upstream_response h) (\<lambda>body.
     let raw = concat (map fst body)
     in if length raw > MAX_RESPONSE_BYTES then Inl (too_large ''body'')
        else
          (case strict_utf8 raw of
             None \<Rightarrow> Inl bad_json
           | Some s \<Rightarrow> (case loads s of Some (JObj d) \<Rightarrow> Inr d | _ \<Rightarrow> Inl bad_json)))"

fun parse_reply_of :: "llm_protocol \<Rightarrow> obj \<Rightarrow> reply_draft result" where
  "parse_reply_of LLM_CHAT d = parse_chat_response d"
| "parse_reply_of LLM_RESPONSES d = parse_responses_response d"
| "parse_reply_of LLM_ANTHROPIC d = parse_anthropic_response d"

fun stream_of :: "llm_protocol \<Rightarrow> (nat list \<times> nat) list \<Rightarrow> chunk list result" where
  "stream_of LLM_CHAT body = stream_chat_completions body"
| "stream_of LLM_RESPONSES body = stream_responses body"
| "stream_of LLM_ANTHROPIC body = stream_anthropic_messages body"

section \<open>One call\<close>

text \<open>The row of the configuration, and the description of the fake model of the task.\<close>

definition get_config :: "int \<Rightarrow> llm_config list \<Rightarrow> llm_config option" where
  "get_config i cfgs = get_row lc_id i cfgs"

definition resolve_config :: "llm_config list \<Rightarrow> request_task \<Rightarrow> llm_config result" where
  "resolve_config cfgs task =
     (case rt_llm_config_id_snapshot task of
        None \<Rightarrow> Inl (err UPSTREAM_ERROR ''the task has no LLM configuration'' 500)
      | Some i \<Rightarrow>
          (case get_config i cfgs of
             None \<Rightarrow> Inl (err UPSTREAM_ERROR ''the LLM configuration was deleted'' 500)
           | Some cfg \<Rightarrow>
               if \<not> lc_is_enabled cfg then Inl (err UPSTREAM_ERROR ''the LLM configuration is disabled'' 500)
               else Inr cfg))"

definition decrypt_config :: "(ustr \<Rightarrow> ustr option) \<Rightarrow> llm_config \<Rightarrow> ustr result" where
  "decrypt_config decrypt cfg =
     (case decrypt (lc_secret_ciphertext cfg) of
        None \<Rightarrow> Inl (err CONFLICT ''the secret of the LLM configuration cannot be decrypted'' 409)
      | Some s \<Rightarrow> Inr s)"

text \<open>The normalized request of a task is the dictionary that \<open>create_task\<close> wrote.\<close>

definition normalized_of :: "request_task \<Rightarrow> obj" where
  "normalized_of task = (case loads (rt_normalized_request_json task) of Some (JObj d) \<Rightarrow> d | _ \<Rightarrow> [])"

definition exchange :: "transport \<Rightarrow> llm_config \<Rightarrow> ustr \<Rightarrow> obj \<Rightarrow> http" where
  "exchange transport cfg secret body =
     transport (upstream_url (lc_protocol cfg) (lc_base_url cfg)) (upstream_headers (lc_protocol cfg) secret) body"

definition call_upstream ::
  "(ustr \<Rightarrow> ustr option) \<Rightarrow> transport \<Rightarrow> llm_config \<Rightarrow> ustr option \<Rightarrow> bool \<Rightarrow> request_task \<Rightarrow> reply_draft result" where
  "call_upstream decrypt transport cfg description stream task =
     bindr (decrypt_config decrypt cfg) (\<lambda>secret.
     bindr (build_upstream_request task cfg description (normalized_of task)) (\<lambda>body.
     let answer = exchange transport cfg secret (oset body ''stream'' (JBool stream))
     in if stream then
          bindr (upstream_response answer) (\<lambda>bytes.
          bindr (stream_of (lc_protocol cfg) bytes) draft_of_chunks)
        else bindr (post_json answer) (parse_reply_of (lc_protocol cfg))))"

section \<open>The forward\<close>

datatype forward_outcome = Accepted reply_draft | NotAccepted ustr

definition reason_payload :: "ustr \<Rightarrow> obj" where
  "reason_payload reason = [(u ''reason'', JStr reason)]"

definition forward_claim :: "instant \<Rightarrow> request_task \<Rightarrow> ustr \<Rightarrow> store \<Rightarrow> store \<times> bool" where
  "forward_claim now task reason st =
     (let (st1, won) = claim_fallback now (rt_id task) st
      in if won then (add_event (rt_id task) EV_FALLBACK ACTOR_SYSTEM None (Some (reason_payload reason)) st1, True)
         else (st1, False))"

definition forward_audit :: "request_task \<Rightarrow> ustr \<Rightarrow> audit_log" where
  "forward_audit task reason =
     \<lparr>al_action = ''llm.forward_completed'', al_resource_type = ''request_task'', al_resource_id = rt_id task,
       al_actor_user_id = Some (rt_owner_user_id task), al_owner_user_id = Some (rt_owner_user_id task),
       al_metadata = [(u ''reason'', JStr reason), (u ''fields'', JList [S ''response_payload''])]\<rparr>"

text \<open>The reply against the caller's tools, then the conditional write under the row's version.\<close>

definition forward_accept ::
  "schema_validator \<Rightarrow> instant \<Rightarrow> request_task \<Rightarrow> ustr \<Rightarrow> reply_draft \<Rightarrow> store \<Rightarrow> (store \<times> forward_outcome) result" where
  "forward_accept ie now task reason draft st =
     (case validate_full ie (catalog_for_task task) (map CallModel (rd_tool_calls draft)) of
        Inl (DomainError e) \<Rightarrow> Inr (st, NotAccepted (u ''generated_tool_calls_invalid''))
      | Inl (PyError k) \<Rightarrow> Inl (PyError k)
      | Inr _ \<Rightarrow>
          (case get_task st (rt_id task) of
             None \<Rightarrow> Inl (PyError ValueError)
           | Some row \<Rightarrow>
               (let (st1, accepted) = accept_forward_reply now (rt_id task) (rt_owner_user_id task) (rt_version row) draft st;
                    st2 = add_event (rt_id task) EV_REPLY_SUBMITTED ACTOR_UPSTREAM None
                      (Some [(u ''source'', S ''llm_forward''), (u ''reason'', JStr reason)]) st1
                in if accepted then Inr (add_audit (forward_audit task reason) st2, Accepted draft)
                   else Inr (st1, NotAccepted (u ''reply_lost'')))))"

definition forward_finish ::
  "schema_validator \<Rightarrow> instant \<Rightarrow> request_task \<Rightarrow> ustr \<Rightarrow> reply_draft result \<Rightarrow> store \<Rightarrow>
   (store \<times> forward_outcome) result" where
  "forward_finish ie now task reason reply st =
     (case reply of
        Inl (DomainError e) \<Rightarrow> Inr (st, NotAccepted (u (error_code_value (de_code e))))
      | Inl (PyError k) \<Rightarrow> Inl (PyError k)
      | Inr draft \<Rightarrow> forward_accept ie now task reason draft st)"

text \<open>\<open>_forward_inner_bound\<close>. An exception leaves the store as it was before the last transaction.\<close>

definition forward ::
  "schema_validator \<Rightarrow> (ustr \<Rightarrow> ustr option) \<Rightarrow> transport \<Rightarrow> llm_config list \<Rightarrow> ustr option \<Rightarrow>
   instant \<Rightarrow> instant \<Rightarrow> (store \<Rightarrow> store) \<Rightarrow> request_task \<Rightarrow> ustr \<Rightarrow> bool \<Rightarrow> store \<Rightarrow>
   store \<times> forward_outcome result" where
  "forward ie decrypt transport cfgs description now ended others task reason stream st =
     (case forward_claim now task reason st of
        (st1, False) \<Rightarrow> (st1, Inr (NotAccepted (u ''claim_lost'')))
      | (st1, True) \<Rightarrow>
          (let st2 = others st1;
               reply = bindr (resolve_config cfgs task) (\<lambda>cfg. call_upstream decrypt transport cfg description stream task)
           in case forward_finish ie ended task reason reply st2 of
                Inl e \<Rightarrow> (st2, Inl e)
              | Inr (st3, outcome) \<Rightarrow> (st3, Inr outcome)))"

definition strategy_uses_llm :: "reply_strategy \<Rightarrow> bool" where
  "strategy_uses_llm strategy \<longleftrightarrow> strategy = LLM \<or> strategy = HUMAN_FALLBACK_LLM"

section \<open>What a forward leaves\<close>

lemma claim_fallback_outcome:
  assumes "tasks_ok st"
  shows "tasks_ok (fst (claim_fallback now k st))" "later st (fst (claim_fallback now k st))"
    and "snd (claim_fallback now k st) \<longleftrightarrow> (\<exists>t. get_task st k = Some t \<and> rt_state t = WAITING_HUMAN)"
    and "\<not> snd (claim_fallback now k st) \<Longrightarrow> fst (claim_fallback now k st) = st"
proof -
  let ?c = "\<lambda>t. rt_id t = k \<and> rt_state t = WAITING_HUMAN" and ?f = "\<lambda>t. bump now (t\<lparr>rt_state := FORWARDING_LLM\<rparr>)"
  have d: "distinct (map rt_id (st_tasks st))" using assms by (simp add: tasks_ok_def)
  have f: "fst (claim_fallback now k st) = fst (update_tasks ?c ?f st)"
    by (simp add: claim_fallback_def split_beta)
  show "tasks_ok (fst (claim_fallback now k st))"
    unfolding f using claim_step by (intro update_tasks_ok assms) (simp_all add: bump_def)
  have "tasks_step st (fst (claim_fallback now k st))"
    unfolding f using assms claim_step by (intro update_tasks_step) (auto simp: tasks_ok_def)
  then show "later st (fst (claim_fallback now k st))" using assms tasks_step_later by blast
  show won: "snd (claim_fallback now k st) \<longleftrightarrow> (\<exists>t. get_task st k = Some t \<and> rt_state t = WAITING_HUMAN)"
    using update_by_id(1) [OF d, of ?f k "\<lambda>t. rt_state t = WAITING_HUMAN"]
    by (simp add: claim_fallback_def split_beta bump_def split: option.splits)
  show "fst (claim_fallback now k st) = st" if "\<not> snd (claim_fallback now k st)"
    unfolding f using that d won get_task_member [of st] by (intro update_tasks_miss) fastforce
qed

lemma accept_forward_outcome:
  assumes "tasks_ok st" "get_task st k = Some row"
  shows "tasks_ok (fst (accept_forward_reply now k w v d st))" "later st (fst (accept_forward_reply now k w v d st))"
    and "snd (accept_forward_reply now k w v d st) \<longleftrightarrow>
      rt_owner_user_id row = w \<and> rt_state row = FORWARDING_LLM \<and> rt_version row = v"
    and "snd (accept_forward_reply now k w v d st) \<Longrightarrow>
      get_task (fst (accept_forward_reply now k w v d st)) k = Some (ready_values now d row)"
    and "\<not> snd (accept_forward_reply now k w v d st) \<Longrightarrow> fst (accept_forward_reply now k w v d st) = st"
proof -
  let ?p = "\<lambda>t. rt_owner_user_id t = w \<and> rt_state t = FORWARDING_LLM \<and> rt_version t = v"
  let ?c = "\<lambda>t. rt_id t = k \<and> ?p t" and ?f = "ready_values now d"
  have di: "distinct (map rt_id (st_tasks st))" using assms by (simp add: tasks_ok_def)
  have f: "fst (accept_forward_reply now k w v d st) = fst (update_tasks ?c ?f st)"
    by (simp add: accept_forward_reply_def split_beta)
  have id: "rt_id (?f t) = rt_id t" for t by (simp add: ready_values_def bump_def)
  show "tasks_ok (fst (accept_forward_reply now k w v d st))"
    unfolding f using ready_step id by (intro update_tasks_ok assms) simp_all
  have "tasks_step st (fst (accept_forward_reply now k w v d st))"
    unfolding f using assms ready_step by (intro update_tasks_step) (auto simp: tasks_ok_def)
  then show "later st (fst (accept_forward_reply now k w v d st))" using assms tasks_step_later by blast
  show won: "snd (accept_forward_reply now k w v d st) \<longleftrightarrow>
      rt_owner_user_id row = w \<and> rt_state row = FORWARDING_LLM \<and> rt_version row = v"
    using update_by_id(1) [OF di id, of k ?p] assms(2) by (simp add: accept_forward_reply_def split_beta)
  show "get_task (fst (accept_forward_reply now k w v d st)) k = Some (ready_values now d row)"
    if "snd (accept_forward_reply now k w v d st)"
    unfolding f using update_by_id(2) [OF di id, of k ?p k] assms(2) that won by simp
  show "fst (accept_forward_reply now k w v d st) = st" if "\<not> snd (accept_forward_reply now k w v d st)"
    unfolding f using that di won get_task_member [of st] assms(2) by (intro update_tasks_miss) auto
qed

lemma tasks_only:
  "st_tasks st' = st_tasks st \<Longrightarrow> tasks_ok st' \<longleftrightarrow> tasks_ok st"
  "st_tasks st' = st_tasks st \<Longrightarrow> later s st' \<longleftrightarrow> later s st"
  "st_tasks st' = st_tasks st \<Longrightarrow> get_task st' k = get_task st k"
  by (simp_all add: tasks_ok_def later_def get_task_def)

text \<open>The acceptance, in one statement.\<close>

definition sound_outcome ::
  "schema_validator \<Rightarrow> request_task \<Rightarrow> store \<Rightarrow> store \<Rightarrow> forward_outcome \<Rightarrow> bool" where
  "sound_outcome ie task st st' outcome \<longleftrightarrow> tasks_ok st' \<and> later st st' \<and>
     (case outcome of
        Accepted d \<Rightarrow> compliant ie (catalog_for_task task) (map CallModel (rd_tool_calls d)) \<and>
          (\<exists>t. get_task st' (rt_id task) = Some t \<and> rt_state t = RESPONSE_READY \<and> rt_response_payload t = Some d)
      | NotAccepted code \<Rightarrow> st_tasks st' = st_tasks st)"

lemma forward_accept_sound:
  assumes "tasks_ok st" "forward_accept ie now task reason d st = Inr (st', outcome)"
  shows "sound_outcome ie task st st' outcome \<and> (\<forall>d'. outcome = Accepted d' \<longrightarrow> d' = d)"
proof -
  let ?v = "validate_full ie (catalog_for_task task) (map CallModel (rd_tool_calls d))"
  consider e where "?v = Inl (DomainError e)" | "?v = Inr ()"
    using assms(2) by (auto simp: forward_accept_def split: sum.splits exn.splits)
  then show ?thesis
  proof cases
    case 1
    then show ?thesis using assms by (auto simp: forward_accept_def sound_outcome_def)
  next
    case 2
    obtain row where row: "get_task st (rt_id task) = Some row"
      using assms(2) 2 by (auto simp: forward_accept_def split: option.splits)
    let ?r = "accept_forward_reply now (rt_id task) (rt_owner_user_id task) (rt_version row) d st"
    note acc = accept_forward_outcome [OF assms(1) row]
    show ?thesis
    proof (cases "snd ?r")
      case True
      then have out: "outcome = Accepted d" "st_tasks st' = st_tasks (fst ?r)"
        using assms(2) 2 row by (auto simp: forward_accept_def split_beta)
      have "compliant ie (catalog_for_task task) (map CallModel (rd_tool_calls d))"
        using 2 by (simp add: validate_full_accepts)
      moreover have "rt_state (ready_values now d row) = RESPONSE_READY \<and> rt_response_payload (ready_values now d row) = Some d"
        by (simp add: ready_values_def bump_def)
      ultimately show ?thesis
        using acc(1,2,4) True out by (auto simp: sound_outcome_def tasks_only [OF out(2)])
    next
      case False
      then have "outcome = NotAccepted (u ''reply_lost'') \<and> st' = st"
        using assms(2) 2 row acc(5) by (auto simp: forward_accept_def split_beta)
      then show ?thesis using assms(1) by (simp add: sound_outcome_def)
    qed
  qed
qed

text \<open>
  C22. A model may only answer for the human when the caller could have got the same answer from one.
  Whatever the rest of the gateway does during the call, a forward is accepted only for a task that was
  waiting, with exactly the reply that the configured model of the task gave, and only when that reply
  meets the tool contract of the caller's request; it is then the response of the task. In every other case
  the forward writes no task, apart from its claim, and no task ever moves backwards. (An exception
  leaves the claimed task as it is; the endpoint then fails it.)
\<close>

theorem forwarded_reply_sound:
  assumes "tasks_ok st" "get_task st (rt_id task) = Some task"
    and "\<And>s. tasks_ok s \<Longrightarrow> tasks_ok (others s) \<and> later s (others s)"
    and "forward ie decrypt transport cfgs description now ended others task reason stream st = (st', Inr outcome)"
  shows "tasks_ok st' \<and> later st st' \<and>
    (case outcome of
       Accepted d \<Rightarrow> rt_state task = WAITING_HUMAN \<and>
         (\<exists>cfg. resolve_config cfgs task = Inr cfg \<and> call_upstream decrypt transport cfg description stream task = Inr d) \<and>
         compliant ie (catalog_for_task task) (map CallModel (rd_tool_calls d)) \<and>
         (\<exists>t. get_task st' (rt_id task) = Some t \<and> rt_state t = RESPONSE_READY \<and> rt_response_payload t = Some d)
     | NotAccepted code \<Rightarrow>
         st_tasks st' = st_tasks (if rt_state task = WAITING_HUMAN then others (fst (forward_claim now task reason st)) else st))"
proof -
  let ?claim = "claim_fallback now (rt_id task) st"
  note claim = claim_fallback_outcome [OF assms(1), of now "rt_id task"]
  have won: "snd ?claim \<longleftrightarrow> rt_state task = WAITING_HUMAN" using claim(3) assms(2) by simp
  have tasks: "st_tasks (fst (forward_claim now task reason st)) = st_tasks (fst ?claim)"
    "snd (forward_claim now task reason st) = snd ?claim"
    by (simp_all add: forward_claim_def split_beta)
  show ?thesis
  proof (cases "rt_state task = WAITING_HUMAN")
    case False
    then have "st_tasks st' = st_tasks st \<and> outcome = NotAccepted (u ''claim_lost'')"
      using assms(4) tasks claim(4) won by (auto simp: forward_def split: prod.splits bool.splits)
    then show ?thesis using assms(1) False by (simp add: tasks_only [of st' st])
  next
    case True
    define s where "s = others (fst (forward_claim now task reason st))"
    let ?reply = "bindr (resolve_config cfgs task) (\<lambda>cfg. call_upstream decrypt transport cfg description stream task)"
    have mid: "tasks_ok (fst (forward_claim now task reason st))" "later st (fst (forward_claim now task reason st))"
      using claim(1,2) tasks_only [OF tasks(1)] by simp_all
    then have s: "tasks_ok s" "later st s" using assms(3) later_trans unfolding s_def by blast+
    have fin: "forward_finish ie ended task reason ?reply s = Inr (st', outcome)"
      using assms(4) True won tasks(2) unfolding s_def by (auto simp: forward_def Let_def split: prod.splits bool.splits sum.splits)
    show ?thesis
    proof (cases ?reply)
      case (Inl e)
      then obtain code where "st' = s" "outcome = NotAccepted code" using fin by (cases e) (auto simp: forward_finish_def)
      then show ?thesis using s True by (simp add: s_def)
    next
      case (Inr d)
      then have acc: "forward_accept ie ended task reason d s = Inr (st', outcome)" using fin by (simp add: forward_finish_def)
      note sound = forward_accept_sound [OF s(1) acc]
      have "later st st'" using sound s(2) later_trans by (auto simp: sound_outcome_def)
      then show ?thesis using sound True Inr
        by (cases outcome) (auto simp: sound_outcome_def bindr_Inr_iff s_def)
    qed
  qed
qed

text \<open>A task for a model, a configuration, and a model that answers in two pieces.\<close>

definition llm_body :: obj where
  "llm_body = [(u ''model'', S ''m''),
     (u ''messages'', JList [JObj [(u ''role'', S ''user''), (u ''content'', S ''hi'')]])]"

definition llm_task :: request_task where
  "llm_task = sample_task\<lparr>rt_llm_config_id_snapshot := Some 5, rt_raw_payload_json := dumps (JObj llm_body)\<rparr>"

definition llm_store :: store where
  "llm_store = sample_store\<lparr>st_tasks := [llm_task]\<rparr>"

definition sample_config :: llm_config where
  "sample_config = \<lparr>lc_id = 5, lc_owner_user_id = 7, lc_protocol = LLM_CHAT, lc_base_url = u ''https://x/v1'',
     lc_real_model = u ''real'', lc_secret_ciphertext = u ''c'', lc_is_enabled = True, lc_default_temperature = None,
     lc_default_top_p = None, lc_default_top_k = None, lc_max_output_tokens = Some 9, lc_supports_image_input = False,
     lc_thinking_mode = MODEL_DEFAULT, lc_thinking_level = None, lc_extra_body = []\<rparr>"

definition sample_transport :: transport where
  "sample_transport url headers body =
     Response 200 (in_two 70 (chat_stream_frames (\<lambda>n. []) (u ''c'') 0 (u ''m'') sample_draft [] True))"

lemma llm_body_wf: "wf_json (JObj llm_body)"
  by (simp add: llm_body_def)

lemma llm_task_simps [simp]:
  "rt_id llm_task = 1" "rt_owner_user_id llm_task = 7" "rt_state llm_task = WAITING_HUMAN" "rt_version llm_task = 1"
  "rt_protocol llm_task = OPENAI_CHAT" "rt_llm_config_id_snapshot llm_task = Some 5"
  "rt_raw_payload_json llm_task = dumps (JObj llm_body)"
  by (simp_all add: llm_task_def)

lemma llm_store_facts: "tasks_ok llm_store" "get_task llm_store 1 = Some llm_task" "st_tasks llm_store = [llm_task]"
  by (simp_all add: llm_store_def tasks_ok_def task_ok_def get_task_def get_row_def)
    (simp_all add: llm_task_def sample_task_def)

lemma llm_request_built: "\<exists>body. build_upstream_request llm_task sample_config None n = Inr body"
proof -
  have raw: "raw_object llm_task = Some llm_body"
    by (simp add: raw_object_def loads_dumps [OF llm_body_wf])
  show ?thesis
    by (simp add: build_upstream_request_def raw native_body_def expanded_raw_def sample_config_def llm_body_def
        inject_identity_def inject_identity_chat_def apply_config_def default_limit_def default_thinking_def
        odefaults_def default_opt_def or_else_def iterate_def oset_def)
qed

lemma llm_called: "call_upstream Some sample_transport sample_config None True llm_task = Inr sample_draft"
proof -
  have "\<exists>body. build_upstream_request llm_task sample_config None n = Inr body" for n by (rule llm_request_built)
  moreover have "stream_chat_completions (in_two 70 (chat_stream_frames (\<lambda>n. []) (u ''c'') 0 (u ''m'') sample_draft [] True)) =
      Inr (chat_chunks sample_draft)"
    by (rule chat_stream_read [OF _ _ _ small_delivers [OF small_chat]])
      (simp_all add: canonical_def sample_draft_def u_def int_ok_def nat_digits.simps)
  moreover have "draft_of_chunks (chat_chunks sample_draft) = Inr sample_draft"
    by (rule chat_chunks_draft) (simp add: canonical_def sample_draft_def u_def)
  ultimately show ?thesis
    by (auto simp: call_upstream_def decrypt_config_def exchange_def sample_transport_def upstream_response_def sample_config_def bindr_Inr_iff)
qed

lemma llm_tools: "validate_full ie (catalog_for_task llm_task) [] = Inr ()"
proof -
  have "dumps (JObj llm_body) \<noteq> []" by (simp add: dumps_def)
  moreover have "openai_choice (ascii_lower (u ''auto'')) = CHOICE_AUTO"
    by (simp add: openai_choice_def ascii_lower_def lower_char_def u_def)
  ultimately show ?thesis
    by (simp add: catalog_for_task_def loads_dumps [OF llm_body_wf])
      (simp add: llm_body_def build_caller_tool_catalog_def parse_tools_def parse_policy_def parse_chat_choice_def
        policy_of_def validate_full_def validate_structural_def choice_word_def)
qed

theorem forwarded_reply_sound_witness:
  "\<exists>st' t. forward (\<lambda>s a. Inr []) Some sample_transport [sample_config] None 5 6 (\<lambda>s. s) llm_task (u ''direct'') True llm_store =
       (st', Inr (Accepted sample_draft)) \<and>
     get_task st' 1 = Some t \<and> rt_state t = RESPONSE_READY \<and> rt_response_payload t = Some sample_draft"
proof -
  let ?f = "forward (\<lambda>s a. Inr []) Some sample_transport [sample_config] None 5 6 (\<lambda>s. s) llm_task (u ''direct'') True llm_store"
  have cfg: "resolve_config [sample_config] llm_task = Inr sample_config"
    by (simp add: resolve_config_def get_config_def get_row_def sample_config_def)
  obtain st' where f: "?f = (st', Inr (Accepted sample_draft))"
    by (simp add: forward_def forward_claim_def claim_fallback_def forward_finish_def cfg llm_called forward_accept_def llm_tools
        accept_forward_reply_def update_tasks_def sql_update_def llm_store_facts rowcount_def bump_def get_task_def get_row_def
        add_event_def)
  show ?thesis
    using forwarded_reply_sound [OF llm_store_facts(1) _ _ f] llm_store_facts(2) f by auto
qed

end
