(* ===== verification/Im_Text.thy ===== *)
theory Im_Text
  imports Im_Tables Llm_Forward "HOL-Library.List_Lexorder"
begin

text \<open>
  The texts that the gateway sends to messaging users: the prompt and the conversation read back from the
  stored request, the pages of a long text (\<open>app/services/outbound_service.py\<close>), the two messages of a task
  package (\<open>app/services/delivery_service.py\<close>), and the summaries that a model writes for them
  (\<open>app/services/llm_summary_service.py\<close>). Chinese texts are lists of code points. Instants count from
  1970-01-01 when they are written out.
\<close>

section \<open>Instants as text\<close>

definition pad :: "nat \<Rightarrow> nat \<Rightarrow> ustr" where
  "pad width n = (let d = nat_digits n in replicate (width - length d) 48 @ d)"

text \<open>The civil date of a day number, as \<open>datetime\<close> has it (proleptic Gregorian calendar).\<close>

definition civil :: "int \<Rightarrow> int \<times> int \<times> int" where
  "civil day =
     (let z = day + 719468; era = z div 146097; doe = z mod 146097;
          yoe = (doe - doe div 1460 + doe div 36524 - doe div 146096) div 365;
          doy = doe - (365 * yoe + yoe div 4 - yoe div 100); mp = (5 * doy + 2) div 153;
          d = doy - (153 * mp + 2) div 5 + 1; m = (if mp < 10 then mp + 3 else mp - 9)
      in (yoe + era * 400 + (if m \<le> 2 then 1 else 0), m, d))"

definition iso_utc :: "instant \<Rightarrow> ustr" where
  "iso_utc t =
     (let (y, m, d) = civil (t div 86400000000); us = t mod 86400000000; s = us div 1000000; f = us mod 1000000
      in pad 4 (nat y) @ u ''-'' @ pad 2 (nat m) @ u ''-'' @ pad 2 (nat d) @ u ''T'' @
         pad 2 (nat (s div 3600)) @ u '':'' @ pad 2 (nat (s div 60 mod 60)) @ u '':'' @ pad 2 (nat (s mod 60)) @
         (if f = 0 then [] else u ''.'' @ pad 6 (nat f)) @ u ''Z'')"

section \<open>Pages\<close>

definition IM_PAGE_CHARS :: nat where "IM_PAGE_CHARS = 500"
definition IM_HINT_BAR_CHARS :: int where "IM_HINT_BAR_CHARS = 300"
definition IM_CONTENT_DETAIL_CHARS :: nat where "IM_CONTENT_DETAIL_CHARS = 500"
definition PROMPT_SUMMARY_CAP :: nat where "PROMPT_SUMMARY_CAP = 4000"
definition IM_LLM_COMPRESS_CHARS :: int where "IM_LLM_COMPRESS_CHARS = 500"
definition LLM_SUMMARY_PROMPT_CHARS :: nat where "LLM_SUMMARY_PROMPT_CHARS = 6000"
definition LLM_SUMMARY_MAX_CHARS :: nat where "LLM_SUMMARY_MAX_CHARS = 200"

text \<open>\<open>text.split(c)\<close> for a separator of one character.\<close>

fun split_at :: "nat \<Rightarrow> ustr \<Rightarrow> ustr list" where
  "split_at c [] = [[]]"
| "split_at c (x # xs) =
     (if x = c then [] # split_at c xs
      else (case split_at c xs of [] \<Rightarrow> [[x]] | p # ps \<Rightarrow> (x # p) # ps))"

text \<open>\<open>paragraph.rfind(' ', 0, budget)\<close>, replaced by the budget when it is not positive.\<close>

definition cut_at :: "nat \<Rightarrow> ustr \<Rightarrow> nat" where
  "cut_at budget p =
     (case filter (\<lambda>i. p ! i = 32) [0..<min budget (length p)] of
        [] \<Rightarrow> budget | is \<Rightarrow> if last is = 0 then budget else last is)"

text \<open>The loop over a paragraph that is longer than a page. It would not end with pages of no characters.\<close>

partial_function (option) cut_paragraph ::
  "nat \<Rightarrow> ustr list \<Rightarrow> ustr list \<Rightarrow> nat \<Rightarrow> ustr \<Rightarrow> (ustr list \<times> ustr list \<times> nat \<times> ustr) option" where
  "cut_paragraph n pages current len p =
     (if length p \<le> n then Some (pages, current, len, p)
      else
        (let full = (current \<noteq> [] \<and> n \<le> len);
             pages1 = (if full then pages @ [join [10] current] else pages);
             current1 = (if full then [] else current);
             budget = (if current1 = [] then n else n - len);
             c = cut_at budget p
         in cut_paragraph n (pages1 @ [join [10] (current1 @ [rstrip (take c p)])]) [] 0 (lstrip (drop c p))))"

definition add_paragraph ::
  "nat \<Rightarrow> ustr \<Rightarrow> (ustr list \<times> ustr list \<times> nat) \<Rightarrow> (ustr list \<times> ustr list \<times> nat) option" where
  "add_paragraph n p acc =
     (case acc of (pages, current, len) \<Rightarrow>
        (case cut_paragraph n pages current len p of
           None \<Rightarrow> None
         | Some (pages1, current1, len1, p1) \<Rightarrow>
             Some (if n < len1 + length p1 + 1 \<and> current1 \<noteq> []
                   then (pages1 @ [join [10] current1], [p1], length p1 + 1)
                   else (pages1, current1 @ [p1], len1 + length p1 + 1))))"

fun add_paragraphs ::
  "nat \<Rightarrow> ustr list \<Rightarrow> (ustr list \<times> ustr list \<times> nat) \<Rightarrow> (ustr list \<times> ustr list \<times> nat) option" where
  "add_paragraphs n [] acc = Some acc"
| "add_paragraphs n (p # ps) acc =
     (case add_paragraph n p acc of None \<Rightarrow> None | Some acc' \<Rightarrow> add_paragraphs n ps acc')"

definition split_pages :: "ustr \<Rightarrow> nat \<Rightarrow> ustr list option" where
  "split_pages text' page_chars =
     (if text' = [] then Some [[]]
      else
        (case add_paragraphs page_chars (split_at 10 text') ([], [], 0) of
           None \<Rightarrow> None
         | Some (pages, current, len) \<Rightarrow>
             Some (if current \<noteq> [] \<or> pages = [] then pages @ [join [10] current] else pages)))"

section \<open>The conversation of a task\<close>

definition stored_request :: "request_task \<Rightarrow> obj result" where
  "stored_request task =
     (case loads (if rt_normalized_request_json task = [] then u ''{}'' else rt_normalized_request_json task) of
        None \<Rightarrow> Inr []
      | Some (JObj d) \<Rightarrow> Inr d
      | Some v \<Rightarrow> Inl (PyError AttributeError))"

text \<open>The values of \<open>text\<close> in the blocks of the given types.\<close>

definition block_texts :: "string list \<Rightarrow> json list \<Rightarrow> json list" where
  "block_texts types blocks =
     concat (map (\<lambda>b. case b of
        JObj d \<Rightarrow> if oget d ''type'' \<in> set (map S types) then [if ohas d ''text'' then oget d ''text'' else JStr []] else []
      | _ \<Rightarrow> []) blocks)"

text \<open>\<open>sep.join(values)\<close>.\<close>

definition join_texts :: "ustr \<Rightarrow> json list \<Rightarrow> ustr result" where
  "join_texts sep vs =
     bindr (mapr (\<lambda>v. case v of JStr s \<Rightarrow> Inr s | _ \<Rightarrow> Inl (PyError TypeError)) vs) (\<lambda>ss. Inr (join sep ss))"

definition message_text :: "json \<Rightarrow> ustr result" where
  "message_text content =
     (case content of
        JStr s \<Rightarrow> Inr s
      | JList bs \<Rightarrow> join_texts [10] (block_texts [''text''] bs)
      | _ \<Rightarrow> Inr [])"

definition last_user_content :: "json list \<Rightarrow> json option" where
  "last_user_content messages =
     (case filter (\<lambda>m. case m of JObj d \<Rightarrow> oget d ''role'' = S ''user'' | _ \<Rightarrow> False) (rev messages) of
        JObj d # _ \<Rightarrow> Some (oget d ''content'') | _ \<Rightarrow> None)"

text \<open>
  The loop of \<open>extract_full_prompt\<close> goes on to the user message before when the content is neither a text
  nor a list.
\<close>

definition prompt_content :: "json list \<Rightarrow> json option" where
  "prompt_content messages =
     (case filter (\<lambda>m. case m of JObj d \<Rightarrow> oget d ''role'' = S ''user'' \<and> (is_str (oget d ''content'') \<or> is_list (oget d ''content''))
                         | _ \<Rightarrow> False) (rev messages) of
        JObj d # _ \<Rightarrow> Some (oget d ''content'') | _ \<Rightarrow> None)"

definition extract_full_prompt :: "request_task \<Rightarrow> ustr result" where
  "extract_full_prompt task =
     bindr (stored_request task) (\<lambda>d.
       let found = (case oget d ''messages'' of JList ms \<Rightarrow> prompt_content ms | _ \<Rightarrow> None)
       in case found of
            Some (JStr s) \<Rightarrow> Inr s
          | Some (JList bs) \<Rightarrow> join_texts [10] (filter truthy (block_texts [''text''] bs))
          | _ \<Rightarrow> (case oget d ''input'' of JStr s \<Rightarrow> Inr s | _ \<Rightarrow> Inr []))"

definition role_label :: "json \<Rightarrow> ustr" where
  "role_label role =
     (if role = S ''user'' then [29992, 25143] else if role = S ''assistant'' then [21161, 25163] else py_str role)"

definition chat_line :: "json \<Rightarrow> ustr list result" where
  "chat_line message =
     (case message of
        JObj d \<Rightarrow>
          bindr (message_text (oget d ''content'')) (\<lambda>t.
          Inr (if t = [] then []
               else [role_label (if ohas d ''role'' then oget d ''role'' else JStr []) @ u '': '' @ t]))
      | _ \<Rightarrow> Inr [])"

definition extract_full_chat :: "request_task \<Rightarrow> ustr result" where
  "extract_full_chat task =
     bindr (stored_request task) (\<lambda>d.
     bindr (case oget d ''messages'' of JList ms \<Rightarrow> mapr chat_line ms | _ \<Rightarrow> Inr []) (\<lambda>ls.
       if concat ls \<noteq> [] then Inr (join [10, 10] (concat ls)) else extract_full_prompt task))"

text \<open>The end of the prompt, where the question is.\<close>

definition keep_tail :: "nat \<Rightarrow> ustr \<Rightarrow> ustr" where
  "keep_tail cap prompt =
     (if length prompt > cap
      then [8230, 65288, 21069, 38754, 32] @ nat_digits (length prompt - cap) @ [32, 23383, 24050, 30465, 30053, 65289, 10] @ drop (length prompt - cap) prompt
      else prompt)"

definition tail_prompt :: "nat \<Rightarrow> request_task \<Rightarrow> ustr result" where
  "tail_prompt cap task = bindr (extract_full_prompt task) (\<lambda>p. Inr (keep_tail cap p))"

section \<open>Summaries written by a model\<close>

definition SUMMARY_INSTRUCTION :: ustr where
  "SUMMARY_INSTRUCTION =
     [20320, 26159, 32, 73, 77, 32, 25237, 36882, 21161, 25163, 12290, 25226, 19979, 38754, 30340, 20219, 21153,
      25552, 38382, 27987, 32553, 25104, 19968, 26465, 19981, 36229, 36807, 32, 50, 48, 48, 32, 23383, 30340,
      20013, 25991, 25688, 35201, 65292, 35753, 25910, 21040, 28040, 24687, 30340, 20154, 19968, 30524, 30475,
      20986, 35201, 20570, 20160, 20040, 12290, 21482, 36755, 20986, 25688, 35201, 26412, 36523, 65292, 19981,
      35201, 20219, 20309, 21069, 32512, 12289, 24341, 21495, 25110, 35299, 37322, 12290, 10, 10, 20219, 21153,
      25552, 38382, 65288, 21487, 33021, 34987, 25130, 26029, 65292, 21482, 25688, 35201, 32473, 23450, 20869,
      23481, 65289, 65306, 10]"

definition COMPRESS_INSTRUCTION :: ustr where
  "COMPRESS_INSTRUCTION =
     [20320, 26159, 32, 73, 77, 32, 20869, 23481, 21387, 32553, 21161, 25163, 12290, 25226, 19979, 38754, 30340,
      32842, 22825, 35760, 24405, 21387, 32553, 25104, 19981, 36229, 36807, 32, 53, 48, 48, 32, 23383, 30340,
      20013, 25991, 25688, 35201, 65292, 20445, 30041, 20851, 38190, 20449, 24687, 65288, 25552, 38382, 12289,
      32422, 26463, 12289, 20851, 38190, 19978, 19979, 25991, 65289, 65292, 21435, 25481, 20887, 20313, 12290,
      21482, 36755, 20986, 21387, 32553, 32467, 26524, 26412, 36523, 65292, 19981, 35201, 20219, 20309, 21069,
      32512, 12289, 24341, 21495, 25110, 35299, 37322, 12290, 10, 10, 32842, 22825, 35760, 24405, 65306, 10]"

definition strip_of :: "nat \<Rightarrow> ustr \<Rightarrow> ustr" where
  "strip_of c s = rev (dropWhile (\<lambda>x. x = c) (rev (dropWhile (\<lambda>x. x = c) s)))"

definition clean :: "json \<Rightarrow> ustr option" where
  "clean v =
     (case v of
        JStr s \<Rightarrow>
          (let t = strip s;
               t = (if startswith t (u ''```'') then lstrip (strip_of 96 t) else t);
               t = strip (strip_of 39 (strip_of 34 (strip t)));
               t = join (u '' '') (py_split t)
           in if t = [] then None else Some (take LLM_SUMMARY_MAX_CHARS t))
      | _ \<Rightarrow> None)"

definition extract_chat :: "obj \<Rightarrow> ustr option result" where
  "extract_chat payload =
     (let choices = or_else (oget payload ''choices'') (JList [])
      in if \<not> truthy choices then Inr None
         else
           (case choices of
              JList (JObj c # _) \<Rightarrow>
                (case or_else (oget c ''message'') (JObj []) of
                   JObj m \<Rightarrow> Inr (clean (oget m ''content''))
                 | _ \<Rightarrow> Inl (PyError AttributeError))
            | JList _ \<Rightarrow> Inl (PyError AttributeError)
            | JStr _ \<Rightarrow> Inl (PyError AttributeError)
            | JObj _ \<Rightarrow> Inl (PyError KeyError)
            | _ \<Rightarrow> Inl (PyError TypeError)))"

definition extract_anthropic :: "obj \<Rightarrow> ustr option result" where
  "extract_anthropic payload =
     bindr (iterate (or_else (oget payload ''content'') (JList []))) (\<lambda>bs.
     bindr (join_texts [10] (filter truthy (block_texts [''text''] bs))) (\<lambda>t. Inr (clean (JStr t))))"

definition output_texts :: "json \<Rightarrow> json list result" where
  "output_texts item =
     (case item of
        JObj d \<Rightarrow>
          if oget d ''type'' = S ''message''
          then bindr (iterate (or_else (oget d ''content'') (JList []))) (\<lambda>ps. Inr (block_texts [''output_text''] ps))
          else Inr []
      | _ \<Rightarrow> Inr [])"

definition extract_responses :: "obj \<Rightarrow> ustr option result" where
  "extract_responses payload =
     bindr (iterate (or_else (oget payload ''output'') (JList []))) (\<lambda>items.
     bindr (mapr output_texts items) (\<lambda>tss.
     bindr (join_texts [10] (filter truthy (concat tss))) (\<lambda>t. Inr (clean (JStr t)))))"

definition summary_body :: "llm_config \<Rightarrow> int \<Rightarrow> ustr \<Rightarrow> obj" where
  "summary_body cfg limit instruction =
     (let message = JList [JObj [(u ''role'', S ''user''), (u ''content'', JStr instruction)]]
      in (u ''model'', JStr (lc_real_model cfg)) #
         (case lc_protocol cfg of
            LLM_ANTHROPIC \<Rightarrow> [(u ''max_tokens'', JInt limit), (u ''messages'', message)]
          | LLM_RESPONSES \<Rightarrow> [(u ''max_output_tokens'', JInt limit), (u ''input'', JStr instruction)]
          | LLM_CHAT \<Rightarrow> [(u ''max_completion_tokens'', JInt limit), (u ''messages'', message)]))"

definition ask_model :: "transport \<Rightarrow> llm_config \<Rightarrow> ustr \<Rightarrow> int \<Rightarrow> ustr \<Rightarrow> ustr option result" where
  "ask_model transport cfg secret limit instruction =
     bindr (post_json (exchange transport cfg secret (summary_body cfg limit instruction))) (\<lambda>payload.
       case lc_protocol cfg of
         LLM_ANTHROPIC \<Rightarrow> extract_anthropic payload
       | LLM_RESPONSES \<Rightarrow> extract_responses payload
       | LLM_CHAT \<Rightarrow> extract_chat payload)"

text \<open>Every failure is silent.\<close>

definition silent :: "'a option result \<Rightarrow> 'a option" where
  "silent r = (case r of Inl e \<Rightarrow> None | Inr v \<Rightarrow> v)"

definition summary_config :: "llm_config list \<Rightarrow> im_connection \<Rightarrow> llm_config option" where
  "summary_config cfgs row =
     (if \<not> ic_llm_summary_enabled row then None
      else (case ic_llm_config_id row of
              None \<Rightarrow> None
            | Some i \<Rightarrow> (case get_config i cfgs of None \<Rightarrow> None | Some cfg \<Rightarrow> if lc_is_enabled cfg then Some cfg else None)))"

definition compress_chat ::
  "(ustr \<Rightarrow> ustr option) \<Rightarrow> transport \<Rightarrow> llm_config list \<Rightarrow> im_connection \<Rightarrow> ustr \<Rightarrow> ustr option" where
  "compress_chat decrypt transport cfgs row chat =
     (if chat = [] then None
      else (case summary_config cfgs row of
              None \<Rightarrow> None
            | Some cfg \<Rightarrow> silent (bindr (decrypt_config decrypt cfg) (\<lambda>secret.
                ask_model transport cfg secret IM_LLM_COMPRESS_CHARS (COMPRESS_INSTRUCTION @ chat)))))"

definition summarize_task_prompt ::
  "(ustr \<Rightarrow> ustr option) \<Rightarrow> transport \<Rightarrow> llm_config list \<Rightarrow> im_connection \<Rightarrow> request_task \<Rightarrow> ustr option" where
  "summarize_task_prompt decrypt transport cfgs row task =
     (case summary_config cfgs row of
        None \<Rightarrow> None
      | Some cfg \<Rightarrow> silent (bindr (decrypt_config decrypt cfg) (\<lambda>secret.
          bindr (tail_prompt LLM_SUMMARY_PROMPT_CHARS task) (\<lambda>prompt.
            if prompt = [] then Inr None
            else ask_model transport cfg secret (int LLM_SUMMARY_MAX_CHARS) (SUMMARY_INSTRUCTION @ prompt)))))"

section \<open>The two messages of a task package\<close>

definition IM_COMMAND_HELP :: ustr where
  "IM_COMMAND_HELP =
     [21487, 29992, 25351, 20196, 65306, 10, 47, 97, 110, 115, 32, 35, 60, 20219, 21153, 73, 68, 62, 32, 60,
      27491, 25991, 62, 32, 26242, 23384, 22238, 31572, 65292, 47, 114, 101, 115, 32, 26242, 23384, 24605, 32771,
      65292, 47, 99, 111, 109, 109, 105, 116, 32, 30830, 35748, 25552, 20132, 10, 47, 112, 97, 103, 101, 32, 26597,
      30475, 20840, 25991, 65292, 47, 102, 105, 108, 101, 32, 23548, 20986, 32842, 22825, 35760, 24405, 25991,
      20214, 10, 26377, 21807, 19968, 31561, 24453, 20219, 21153, 26102, 65292, 30452, 25509, 22238, 22797, 25991,
      23383, 21363, 21487, 25552, 20132, 12290, 10, 31034, 20363, 65306, 47, 97, 110, 115, 32, 35, 116, 95, 97, 98,
      49, 50, 99, 100, 51, 52, 32, 20320, 22909, 65307, 47, 112, 97, 103, 101, 65307, 47, 102, 105, 108, 101, 32,
      109, 100]"

definition hint_head :: "request_task \<Rightarrow> ustr" where
  "hint_head task = [91, 20219, 21153, 32] @ rt_public_id task @ [93, 32, 27169, 22411, 32] @ rt_requested_model task"

definition hint_commands :: "request_task \<Rightarrow> ustr" where
  "hint_commands task =
     [22238, 22797, 21629, 20196, 65306, 47, 97, 110, 115, 32, 35, 60] @ rt_public_id task @
     [62, 32, 60, 27491, 25991, 62, 32, 26242, 23384, 22238, 31572, 65288, 47, 99, 111, 109, 109, 105, 116, 32, 25552, 20132, 65289, 32, 65372, 32, 47, 112, 97, 103, 101, 32, 20840, 25991, 32, 65372, 32, 47, 102, 105, 108, 101, 32, 23548, 20986, 25991, 20214]"

definition hint_separator :: ustr where
  "hint_separator = [10] @ replicate 8 9472 @ [10]"

definition summary_prefix :: ustr where
  "summary_prefix = [25552, 38382, 25688, 35201, 65306, 10]"

definition build_hint_bar :: "request_task \<Rightarrow> ustr option \<Rightarrow> ustr result" where
  "build_hint_bar task summary =
     bindr (case summary of Some s \<Rightarrow> if s \<noteq> [] then Inr s else tail_prompt PROMPT_SUMMARY_CAP task
                          | None \<Rightarrow> tail_prompt PROMPT_SUMMARY_CAP task) (\<lambda>body.
     let head = hint_head task; commands = hint_commands task;
         budget = IM_HINT_BAR_CHARS - int (length head) - 1 - int (length commands) - int (length hint_separator) -
           int (length summary_prefix);
         body = (if int (length body) > budget then rstrip (take (nat (max (budget - 1) 0)) body) @ [8230] else body);
         hint = head @ [10] @ commands @ hint_separator @ summary_prefix @ body
     in Inr (if int (length hint) + 1 + int (length IM_COMMAND_HELP) \<le> IM_HINT_BAR_CHARS * 2
             then hint @ [10] @ IM_COMMAND_HELP else hint))"

definition build_content_bar :: "request_task \<Rightarrow> ustr option result" where
  "build_content_bar task =
     bindr (tail_prompt IM_CONTENT_DETAIL_CHARS task) (\<lambda>prompt.
       Inr (if prompt = [] then None
            else if length prompt < IM_CONTENT_DETAIL_CHARS then Some prompt
            else Some ([8230, 65288, 21069, 38754, 20869, 23481, 24050, 30465, 30053, 65292, 20849, 32] @ nat_digits (length prompt) @ [32, 23383, 25688, 35201, 65289, 10] @ prompt)))"

text \<open>\<open>block.get("type") in {..}\<close> hashes the type: a list or a dictionary there is a \<open>TypeError\<close>.\<close>

definition part_text :: "json \<Rightarrow> json list result" where
  "part_text b =
     (case b of
        JObj d \<Rightarrow>
          bindr (in_set (oget d ''type'') [S ''text'', S ''input_text'', S ''output_text'']) (\<lambda>known.
          Inr (if known then [if ohas d ''text'' then oget d ''text'' else JStr []] else []))
      | _ \<Rightarrow> Inr [])"

definition extract_request_summary :: "request_task \<Rightarrow> (ustr \<times> ustr list) result" where
  "extract_request_summary task =
     bindr (stored_request task) (\<lambda>d.
     bindr (case oget d ''context'' of
              JList ms \<Rightarrow>
                (case last_user_content ms of
                   Some (JStr s) \<Rightarrow> Inr s
                 | Some (JList bs) \<Rightarrow> bindr (mapr part_text bs) (\<lambda>ts. join_texts [10] (filter truthy (concat ts)))
                 | _ \<Rightarrow> Inr [])
            | _ \<Rightarrow> Inr []) (\<lambda>prompt.
     Inr (keep_tail PROMPT_SUMMARY_CAP prompt, sort (remdups (catalog_names (catalog_for_task task))))))"

record envelope =
  en_task_public_id :: ustr
  en_requested_model :: ustr
  en_prompt_text :: ustr
  en_owner_user_id :: int
  en_created_at :: ustr
  en_tool_names :: "ustr list"
  en_messages :: "ustr list"

definition build_envelope :: "request_task \<Rightarrow> ustr option \<Rightarrow> envelope result" where
  "build_envelope task summary =
     bindr (extract_request_summary task) (\<lambda>(prompt, tool_names).
     bindr (build_hint_bar task summary) (\<lambda>hint.
     bindr (build_content_bar task) (\<lambda>content.
     Inr \<lparr>en_task_public_id = rt_public_id task, en_requested_model = rt_requested_model task, en_prompt_text = prompt,
       en_owner_user_id = rt_owner_user_id task, en_created_at = iso_utc (rt_created_at task), en_tool_names = tool_names,
       en_messages = (case content of None \<Rightarrow> [hint] | Some c \<Rightarrow> [hint, c])\<rparr>)))"

definition effective_messages :: "envelope \<Rightarrow> ustr list" where
  "effective_messages e = (if en_messages e = [] then [en_prompt_text e] else en_messages e)"

definition envelope_json :: "envelope \<Rightarrow> json" where
  "envelope_json e =
     JObj [(u ''task_id'', JStr (en_task_public_id e)), (u ''model'', JStr (en_requested_model e)),
       (u ''prompt'', JStr (en_prompt_text e)), (u ''messages'', JList (map JStr (effective_messages e))),
       (u ''created_at'', JStr (en_created_at e)), (u ''tools'', JList (map JStr (en_tool_names e)))]"

section \<open>Pages hold the whole text\<close>

definition ink :: "ustr \<Rightarrow> ustr" where
  "ink s = filter (\<lambda>c. \<not> py_space c) s"

lemma ink_simps [simp]: "ink [] = []" "ink (s @ t) = ink s @ ink t"
  by (simp_all add: ink_def)

lemma ink_lstrip [simp]: "ink (lstrip s) = ink s"
  by (induction s) (simp_all add: ink_def lstrip_def)

lemma ink_rstrip [simp]: "ink (rstrip s) = ink s"
proof -
  have "filter P (rev s) = rev (filter P s)" for P by (simp add: rev_filter)
  then show ?thesis using ink_lstrip [of "rev s"] by (simp add: ink_def rstrip_def lstrip_def rev_filter [symmetric])
qed

lemma ink_join [simp]: "ink (join [10] xs) = concat (map ink xs)"
  by (induction "[10::nat]" xs rule: join.induct) (simp_all add: ink_def py_space_def)

lemma ink_split: "concat (map ink (split_at 10 s)) = ink s"
proof (induction s)
  case (Cons x xs)
  then show ?case by (cases "split_at 10 xs") (auto simp: ink_def py_space_def)
qed simp

lemma length_strips: "length (rstrip s) \<le> length s" "length (lstrip s) \<le> length s"
  by (simp_all add: rstrip_def lstrip_def length_dropWhile_le [of _ "rev s", simplified] length_dropWhile_le)

lemma length_join_snoc:
  "length (join [10] (xs @ [x])) = (if xs = [] then length x else length (join [10] xs) + 1 + length x)"
  by (induction "[10::nat]" xs rule: join.induct) auto

lemma cut_at_bounds:
  assumes "0 < budget"
  shows "0 < cut_at budget p" "cut_at budget p \<le> budget"
proof -
  let ?is = "filter (\<lambda>i. p ! i = 32) [0..<min budget (length p)]"
  have "last ?is < budget" if "?is \<noteq> []" using last_in_set [OF that] by auto
  then show "0 < cut_at budget p" "cut_at budget p \<le> budget"
    using assms by (auto simp: cut_at_def split: list.split)
qed

text \<open>The state of the loops: finished pages fit, and \<open>len\<close> counts the page in work with a line feed.\<close>

definition paging :: "nat \<Rightarrow> ustr list \<times> ustr list \<times> nat \<Rightarrow> bool" where
  "paging n acc \<longleftrightarrow> (case acc of (pages, current, len) \<Rightarrow>
     (\<forall>p \<in> set pages. length p \<le> n) \<and>
     (if current = [] then len = 0 else len = length (join [10] current) + 1 \<and> length (join [10] current) \<le> n))"

definition inked :: "ustr list \<times> ustr list \<times> nat \<Rightarrow> ustr" where
  "inked acc = (case acc of (pages, current, len) \<Rightarrow> ink (concat pages) @ concat (map ink current))"

lemma inked_tuple: "inked (pages, current, len) = ink (concat pages) @ concat (map ink current)"
  by (simp add: inked_def)

lemma cut_paragraph_pages:
  assumes "0 < n" "paging n (pages, current, len)"
  shows "\<exists>pages' current' len' p'. cut_paragraph n pages current len p = Some (pages', current', len', p') \<and>
    length p' \<le> n \<and> paging n (pages', current', len') \<and>
    inked (pages', current', len') @ ink p' = inked (pages, current, len) @ ink p"
  using assms
proof (induction "length p" arbitrary: pages current len p rule: less_induct)
  case less
  show ?case
  proof (cases "length p \<le> n")
    case True
    then show ?thesis using less.prems by (subst cut_paragraph.simps) simp
  next
    case False
    define full where "full = (current \<noteq> [] \<and> n \<le> len)"
    define pages1 where "pages1 = (if full then pages @ [join [10] current] else pages)"
    define current1 where "current1 = (if full then [] else current)"
    define budget where "budget = (if current1 = [] then n else n - len)"
    let ?c = "cut_at budget p"
    let ?chunk = "rstrip (take ?c p)" and ?rest = "lstrip (drop ?c p)"
    let ?page = "join [10] (current1 @ [?chunk])"
    have b: "0 < budget" using less.prems(1) by (auto simp: budget_def current1_def full_def)
    note c = cut_at_bounds [OF b, of p]
    have shorter: "length ?rest < length p"
      using length_strips(2) [of "drop ?c p"] c(1) False by (simp add: le_less_trans)
    have chunk: "length ?chunk \<le> budget" using length_strips(1) [of "take ?c p"] c(2) by simp
    have len: "current \<noteq> [] \<Longrightarrow> len = length (join [10] current) + 1 \<and> length (join [10] current) \<le> n"
      using less.prems(2) by (simp add: paging_def)
    have "length ?page \<le> n"
      using chunk len b by (auto simp: length_join_snoc budget_def current1_def full_def split: if_splits)
    then have paging: "paging n (pages1 @ [?page], [], 0)"
      using less.prems(2) len by (auto simp: paging_def pages1_def full_def)
    have ink: "ink ?chunk @ ink ?rest = ink p"
      by (simp add: ink_simps(2) [symmetric] del: ink_simps(2))
    have kept: "inked (pages1 @ [?page], [], 0) @ ink ?rest = inked (pages, current, len) @ ink p"
      using ink by (simp add: inked_def pages1_def current1_def)
    have "cut_paragraph n pages current len p = cut_paragraph n (pages1 @ [?page]) [] 0 ?rest"
      using False by (subst cut_paragraph.simps) (simp add: Let_def full_def pages1_def current1_def budget_def)
    with less.hyps [OF shorter less.prems(1) paging] kept show ?thesis by simp
  qed
qed

lemma add_paragraph_pages:
  assumes "0 < n" "paging n acc"
  shows "\<exists>acc'. add_paragraph n p acc = Some acc' \<and> paging n acc' \<and> inked acc' = inked acc @ ink p"
proof -
  obtain pages current len where acc: "acc = (pages, current, len)" by (cases acc)
  obtain pages' current' len' p' where c: "cut_paragraph n pages current len p = Some (pages', current', len', p')"
    "length p' \<le> n" "paging n (pages', current', len')" "inked (pages', current', len') @ ink p' = inked acc @ ink p"
    using cut_paragraph_pages [OF assms(1)] assms(2) unfolding acc by blast
  have add: "add_paragraph n p acc = Some (if n < len' + length p' + 1 \<and> current' \<noteq> []
      then (pages' @ [join [10] current'], [p'], length p' + 1) else (pages', current' @ [p'], len' + length p' + 1))"
    by (simp only: acc add_paragraph_def prod.case c(1) option.case)
  show ?thesis
  proof (cases "n < len' + length p' + 1 \<and> current' \<noteq> []")
    case True
    then have "length (join [10] current') \<le> n" using c(3) by (simp add: paging_def)
    then have "paging n (pages' @ [join [10] current'], [p'], length p' + 1)"
      using c(2,3) by (simp add: paging_def)
    moreover have "inked (pages' @ [join [10] current'], [p'], length p' + 1) = inked acc @ ink p"
      using c(4) by (simp add: inked_tuple)
    moreover have "add_paragraph n p acc = Some (pages' @ [join [10] current'], [p'], length p' + 1)"
      by (simp only: add if_P [OF True])
    ultimately show ?thesis by blast
  next
    case False
    have "paging n (pages', current' @ [p'], len' + length p' + 1)"
    proof (cases "current' = []")
      case True
      then show ?thesis using c(2,3) by (simp add: paging_def)
    next
      case filled: False
      then show ?thesis using False c(3) by (simp add: paging_def length_join_snoc)
    qed
    moreover have "inked (pages', current' @ [p'], len' + length p' + 1) = inked acc @ ink p"
      using c(4) by (simp add: inked_tuple)
    moreover have "add_paragraph n p acc = Some (pages', current' @ [p'], len' + length p' + 1)"
      by (simp only: add if_not_P [OF False])
    ultimately show ?thesis by blast
  qed
qed

lemma add_paragraphs_pages:
  assumes "0 < n" "paging n acc"
  shows "\<exists>acc'. add_paragraphs n ps acc = Some acc' \<and> paging n acc' \<and> inked acc' = inked acc @ concat (map ink ps)"
  using assms(2)
proof (induction ps arbitrary: acc)
  case (Cons p ps)
  obtain acc1 where a: "add_paragraph n p acc = Some acc1" "paging n acc1" "inked acc1 = inked acc @ ink p"
    using add_paragraph_pages [OF assms(1) Cons.prems] by blast
  show ?case using Cons.IH [OF a(2)] a(1,3) by auto
qed simp

text \<open>
  C35. A long text is sent as pages, and the loop that cuts it always ends: every page fits its limit, and the
  pages together hold every character of the text but white space, in order, however long its lines are.
\<close>

theorem pages_complete:
  assumes "0 < n"
  shows "\<exists>pages. split_pages s n = Some pages \<and> pages \<noteq> [] \<and> (\<forall>p \<in> set pages. length p \<le> n) \<and>
    filter (\<lambda>c. \<not> py_space c) (concat pages) = filter (\<lambda>c. \<not> py_space c) s"
proof (cases "s = []")
  case True
  then show ?thesis by (simp add: split_pages_def)
next
  case False
  obtain pages current len where a: "add_paragraphs n (split_at 10 s) ([], [], 0) = Some (pages, current, len)"
    "paging n (pages, current, len)" "inked (pages, current, len) = concat (map ink (split_at 10 s))"
    using add_paragraphs_pages [OF assms, of "([], [], 0)" "split_at 10 s"] by (auto simp: paging_def inked_def)
  have ink: "ink (concat pages) @ concat (map ink current) = ink s"
    using a(3) ink_split [of s] by (simp add: inked_def)
  let ?pages = "if current \<noteq> [] \<or> pages = [] then pages @ [join [10] current] else pages"
  have "split_pages s n = Some ?pages" using a(1) False by (simp add: split_pages_def)
  moreover have "ink (concat ?pages) = ink s" using ink by auto
  moreover have "\<forall>p \<in> set ?pages. length p \<le> n" using a(2) by (auto simp: paging_def split: if_splits)
  ultimately show ?thesis by (auto simp: ink_def)
qed

theorem pages_complete_witness:
  "\<exists>pages. split_pages (u ''one two three'') 5 = Some pages \<and> pages \<noteq> [] \<and>
     filter (\<lambda>c. \<not> py_space c) (concat pages) = u ''onetwothree''"
  using pages_complete [of 5 "u ''one two three''"] by (auto simp: u_def py_space_def)

end
