(* ===== verification/Outbound.thy ===== *)
theory Outbound
  imports Im_Text Samples
begin

text \<open>
  What the gateway sends back for the commands \<open>/page\<close> and \<open>/file\<close>, and the feedback of a command
  (\<open>app/services/outbound_service.py\<close>, \<open>ConnectionService._send_feedback\<close>). A platform that pulls gets the
  content in its outbox, any other is pushed to. The record \<open>im_env\<close> is what an operation finds around
  it: the clock, whether it runs on the event loop, whether the connector accepts a push, the secrets, the
  upstream models, the digests and the schema library.
\<close>

record im_env =
  ev_now :: instant
  ev_in_loop :: bool
  ev_sends :: "sent_item \<Rightarrow> bool"
  ev_decrypt :: "ustr \<Rightarrow> ustr option"
  ev_decrypt_im :: "ustr \<Rightarrow> ustr option"
  ev_transport :: transport
  ev_configs :: "llm_config list"
  ev_sha256 :: "ustr \<Rightarrow> ustr"
  ev_upper :: "ustr \<Rightarrow> ustr"
  ev_iter_errors :: schema_validator

section \<open>Pushes\<close>

definition push :: "sent_item \<Rightarrow> im \<Rightarrow> im" where
  "push p s = s\<lparr>im_sent := p # im_sent s\<rparr>"

definition get_connector :: "int \<Rightarrow> im \<Rightarrow> bool" where
  "get_connector connection_id s \<longleftrightarrow> connection_id \<in> set (im_running s)"

text \<open>\<open>_notify_push_failure\<close>: one notice, whose own failure is only logged.\<close>

definition FAILURE_NOTICE :: ustr where
  "FAILURE_NOTICE = [28040, 24687, 21457, 36865, 22833, 36133, 65292, 35831, 31245, 21518, 37325, 35797, 12290]"

definition notify_push_failure :: "int \<Rightarrow> ustr \<Rightarrow> im \<Rightarrow> im" where
  "notify_push_failure connection_id target s =
     (if target = [] then s else push (PushText connection_id target FAILURE_NOTICE) s)"

definition push_best_effort ::
  "im_env \<Rightarrow> int \<Rightarrow> ustr \<Rightarrow> ustr option \<Rightarrow> ustr option \<Rightarrow> ustr option \<Rightarrow> im \<Rightarrow> im" where
  "push_best_effort env connection_id target body filename file_content s =
     (let sent = (case body of None \<Rightarrow> (s, True)
                  | Some t \<Rightarrow> (let p = PushText connection_id target t in (push p s, ev_sends env p)))
      in if \<not> snd sent then notify_push_failure connection_id target (fst sent)
         else
           (case (filename, file_content) of
              (Some f, Some c) \<Rightarrow>
                (if f = [] then fst sent
                 else (let p = PushFile connection_id target f c; s2 = push p (fst sent)
                       in if ev_sends env p then s2 else notify_push_failure connection_id target s2))
            | _ \<Rightarrow> fst sent))"

definition send_feedback :: "im_connection \<Rightarrow> ustr \<Rightarrow> im \<Rightarrow> im" where
  "send_feedback row body s =
     (case ic_bound_external_user_id row of
        None \<Rightarrow> s
      | Some target \<Rightarrow>
          if target = [] \<or> \<not> get_connector (ic_id row) s then s else push (PushText (ic_id row) target body) s)"

section \<open>Outbox payloads\<close>

definition PAGE_KIND :: string where "PAGE_KIND = ''page''"
definition FILE_KIND :: string where "FILE_KIND = ''file''"

definition outbound_payload ::
  "instant \<Rightarrow> string \<Rightarrow> request_task \<Rightarrow> ustr \<Rightarrow> ustr option \<Rightarrow> obj" where
  "outbound_payload now kind task body filename =
     [(u ''kind'', S kind), (u ''task_id'', JStr (rt_public_id task)), (u ''created_at'', JStr (iso_utc now))] @
     (if kind = PAGE_KIND then [(u ''text'', JStr body)]
      else [(u ''filename'', (case filename of None \<Rightarrow> JNull | Some f \<Rightarrow> JStr f)), (u ''content'', JStr body)])"

text \<open>A row that exists is put back to pending with the new content; \<open>acked_at\<close> is left as it is.\<close>

definition reset_package :: "instant \<Rightarrow> ustr \<Rightarrow> connector_outbox \<Rightarrow> connector_outbox" where
  "reset_package now payload o' =
     o'\<lparr>co_payload_json := payload, co_delivery_state := OUTBOX_PENDING, co_available_at := now,
        co_last_error_code := None, co_updated_at := now\<rparr>"

definition enqueue_outbound_payload ::
  "instant \<Rightarrow> im_connection \<Rightarrow> request_task \<Rightarrow> string \<Rightarrow> ustr \<Rightarrow> ustr option \<Rightarrow> im \<Rightarrow> im" where
  "enqueue_outbound_payload now row task kind body filename s =
     (let payload = dumps (JObj (outbound_payload now kind task body filename))
      in case find (is_package (ic_id row) (rt_id task)) (im_outbox s) of
           Some existing \<Rightarrow>
             s\<lparr>im_outbox := fst (sql_update (\<lambda>o'. co_id o' = co_id existing) (reset_package now payload) (im_outbox s))\<rparr>
         | None \<Rightarrow> s\<lparr>im_outbox := im_outbox s @ [new_package now (ic_id row) (rt_id task) payload s]\<rparr>)"

definition pulls :: "string \<Rightarrow> bool" where
  "pulls platform \<longleftrightarrow> platform \<in> {''webhook'', ''http_poll'', ''websocket''}"

definition dispatch_outbound ::
  "im_env \<Rightarrow> im_connection \<Rightarrow> string \<Rightarrow> request_task \<Rightarrow> ustr \<Rightarrow> ustr option \<Rightarrow> im \<Rightarrow> im" where
  "dispatch_outbound env row kind task body filename s =
     (let target = (case ic_bound_external_user_id row of None \<Rightarrow> [] | Some t \<Rightarrow> t)
      in if pulls (ic_platform row) then
           (let s1 = enqueue_outbound_payload (ev_now env) row task kind body filename s
            in if \<not> get_connector (ic_id row) s then s1
               else push_best_effort env (ic_id row) target (if kind = PAGE_KIND then Some body else None) filename
                      (if kind = PAGE_KIND then None else Some body) s1)
         else if \<not> get_connector (ic_id row) s then s
         else if target = [] then s
         else push_best_effort env (ic_id row) target (if filename = None then Some body else None) filename
                (if filename = None then None else Some body) s)"

section \<open>Pages and files\<close>

text \<open>On the event loop the compression is skipped; everywhere it fails silently.\<close>

definition maybe_compress_chat :: "im_env \<Rightarrow> im_connection \<Rightarrow> ustr \<Rightarrow> ustr" where
  "maybe_compress_chat env row chat =
     (if \<not> ic_llm_summary_enabled row \<or> ic_llm_config_id row = None \<or> ev_in_loop env then chat
      else (case compress_chat (ev_decrypt env) (ev_transport env) (ev_configs env) row chat of
              None \<Rightarrow> chat
            | Some t \<Rightarrow> if t = [] then chat else t))"

definition page_header :: "ustr \<Rightarrow> nat \<Rightarrow> int \<Rightarrow> ustr" where
  "page_header public_id total_pages page =
     u ''['' @ public_id @ [93, 32, 20849, 32] @ nat_digits total_pages @ [32, 39029, 65292, 24403, 21069, 31532, 32] @ int_str page @ [32, 39029] @
     (if total_pages > 1 \<and> page < int total_pages
      then [65288, 22238, 22797, 32, 47, 112, 97, 103, 101, 32] @ int_str (page + 1) @ [32, 30475, 19979, 19968, 39029, 65289] else [])"

definition page_text :: "request_task \<Rightarrow> ustr list \<Rightarrow> int \<Rightarrow> ustr" where
  "page_text task pages page0 =
     (let page = (if page0 < 1 \<or> page0 > int (length pages) then 1 else page0)
      in page_header (rt_public_id task) (length pages) page @ [10, 10] @ pages ! nat (page - 1))"

text \<open>\<open>None\<close> would be a loop that does not end; \<open>pages_complete\<close> excludes it.\<close>

definition send_page :: "im_env \<Rightarrow> im_connection \<Rightarrow> request_task \<Rightarrow> int \<Rightarrow> im \<Rightarrow> im result option" where
  "send_page env row task page s =
     (case extract_full_chat task of
        Inl e \<Rightarrow> Some (Inl e)
      | Inr chat \<Rightarrow>
          map_option (\<lambda>pages. Inr (dispatch_outbound env row PAGE_KIND task (page_text task pages page) None s))
            (split_pages (maybe_compress_chat env row chat) IM_PAGE_CHARS))"

definition IM_FILE_FORMATS :: "string list" where "IM_FILE_FORMATS = [''txt'', ''md'']"

definition file_header :: "request_task \<Rightarrow> ustr" where
  "file_header task =
     [20219, 21153, 32] @ rt_public_id task @ [10, 27169, 22411, 32] @ rt_requested_model task @
     [10, 21019, 24314, 26102, 38388, 32] @ iso_utc (rt_created_at task) @ [10, 10]"

definition file_text :: "request_task \<Rightarrow> string \<Rightarrow> ustr \<Rightarrow> ustr" where
  "file_text task fmt chat =
     file_header task @ (if fmt = ''md'' then u ''# '' @ rt_public_id task @ [10, 10] @ chat else chat)"

definition send_file :: "im_env \<Rightarrow> im_connection \<Rightarrow> request_task \<Rightarrow> string \<Rightarrow> im \<Rightarrow> im result" where
  "send_file env row task fmt0 s =
     (let fmt = (if fmt0 \<in> set IM_FILE_FORMATS then fmt0 else ''txt'')
      in bindr (extract_full_chat task) (\<lambda>chat.
           Inr (dispatch_outbound env row FILE_KIND task (file_text task fmt (maybe_compress_chat env row chat))
             (Some (rt_public_id task @ u ''.'' @ u fmt)) s)))"

section \<open>What they leave alone\<close>

text \<open>Everything but the outbox and the pushes.\<close>

definition same_state :: "im \<Rightarrow> im \<Rightarrow> bool" where
  "same_state s s' \<longleftrightarrow> im_db s' = im_db s \<and> im_connections s' = im_connections s \<and> im_receipts s' = im_receipts s \<and>
     im_running s' = im_running s"

named_theorems quiet

lemma same_refl [simp]: "same_state s s" by (simp add: same_state_def)

lemma same_trans: "same_state a b \<Longrightarrow> same_state b c \<Longrightarrow> same_state a c" by (simp add: same_state_def)

lemma same_push [quiet]: "same_state s (push p s')" if "same_state s s'"
  using that by (simp add: same_state_def push_def)

lemma same_notify [quiet]: "same_state s s' \<Longrightarrow> same_state s (notify_push_failure c t s')"
  by (simp add: notify_push_failure_def same_push)

lemma same_push_best_effort [quiet]: "same_state s s' \<Longrightarrow> same_state s (push_best_effort env c t b f x s')"
  by (auto simp: push_best_effort_def Let_def same_push same_notify split: option.split)

lemma same_feedback [quiet]: "same_state s s' \<Longrightarrow> same_state s (send_feedback row body s')"
  by (auto simp: send_feedback_def same_push split: option.split)

lemma same_enqueue [quiet]: "same_state s s' \<Longrightarrow> same_state s (enqueue_outbound_payload now row task k b f s')"
  by (auto simp: enqueue_outbound_payload_def same_state_def Let_def split: option.split)

lemma same_dispatch [quiet]: "same_state s s' \<Longrightarrow> same_state s (dispatch_outbound env row k task b f s')"
  by (simp add: dispatch_outbound_def Let_def same_push_best_effort same_enqueue)

lemma send_page_quiet: "send_page env row task page s = Some (Inr s') \<Longrightarrow> same_state s s'"
  by (auto simp: send_page_def same_dispatch split: sum.splits)

lemma send_file_quiet: "send_file env row task fmt s = Inr s' \<Longrightarrow> same_state s s'"
  by (auto simp: send_file_def Let_def bindr_Inr_iff same_dispatch)

text \<open>A page always comes: the loop that cuts the text ends.\<close>

lemma split_pages_some: "0 < n \<Longrightarrow> \<exists>pages. split_pages s n = Some pages \<and> pages \<noteq> []"
proof (cases "s = []")
  case False
  assume n: "0 < n"
  obtain pages current len where "add_paragraphs n (split_at 10 s) ([], [], 0) = Some (pages, current, len)"
    using add_paragraphs_pages [OF n, of "([], [], 0)" "split_at 10 s"] by (auto simp: paging_def)
  then show ?thesis using False by (auto simp: split_pages_def)
qed (simp add: split_pages_def)

lemma send_page_returns: "send_page env row task page s \<noteq> None"
proof -
  have "\<exists>pages. split_pages t IM_PAGE_CHARS = Some pages \<and> pages \<noteq> []" for t
    by (rule split_pages_some) (simp add: IM_PAGE_CHARS_def)
  then have "split_pages t IM_PAGE_CHARS \<noteq> None" for t by fastforce
  then show ?thesis by (auto simp: send_page_def split: sum.split)
qed

text \<open>The connector may have acknowledged the row that \<open>/page\<close> fills again; nobody can acknowledge it twice.\<close>

lemma refilled_row_never_acked:
  assumes "im_outbox s = [o']" "is_package (ic_id row) (rt_id task) o'" "co_acked_at o' = Some t"
  shows "\<exists>o2. im_outbox (enqueue_outbound_payload now row task k b f s) = [o2] \<and> unacked o2 \<and>
    \<not> snd (ack_outbox now2 (ic_id row) (rt_id task) (enqueue_outbound_payload now row task k b f s))"
  using assms
  by (simp add: enqueue_outbound_payload_def Let_def sql_update_def reset_package_def unacked_def ack_outbox_def
      update_outbox_def rowcount_def)

end
