(* ===== verification/Endpoint.thy ===== *)
theory Endpoint
  imports Llm_Forward
begin

text \<open>
  The inference endpoints (\<open>app/api/inference.py\<close>, \<open>app/api/task_responses.py\<close>): the forward of a
  task and its failure, the loop that waits for a reply, and the two kinds of responses, which close
  the task. The loop is its step, taken every poll interval: it reads the task and decides. What other
  requests do between two reads of one step is \<open>meanwhile\<close>. A response is sent or the caller is
  gone; frames are checked against the task one by one.
\<close>

section \<open>Closing a task from the endpoint\<close>

definition endpoint_sources :: "task_state \<Rightarrow> task_state list option" where
  "endpoint_sources state =
     (if state = TIMED_OUT then Some [WAITING_HUMAN]
      else if state = COMPLETED then Some [RESPONSE_READY, RESPONDING] else None)"

definition endpoint_finalize ::
  "instant \<Rightarrow> int \<Rightarrow> task_state \<Rightarrow> domain_error_code option \<Rightarrow> store \<Rightarrow> (store \<times> bool) result" where
  "endpoint_finalize now task_id state public_error st =
     (case get_task st task_id of
        None \<Rightarrow> Inr (st, False)
      | Some task \<Rightarrow> finalize now task state (endpoint_sources state) public_error st)"

definition cancel_disconnected :: "instant \<Rightarrow> int \<Rightarrow> store \<Rightarrow> store" where
  "cancel_disconnected now task_id st = fst (cancel_caller_disconnected now task_id (u ''caller_disconnected'') st)"

definition begin_response :: "instant \<Rightarrow> int \<Rightarrow> store \<Rightarrow> store \<times> bool" where
  "begin_response now task_id st =
     (case get_task st task_id of None \<Rightarrow> (st, False) | Some task \<Rightarrow> mark_responding now task st)"

section \<open>Forwarding\<close>

definition unsupported_code :: ustr where
  "unsupported_code = u ''unsupported_parameter''"

definition fail_forward :: "instant \<Rightarrow> int \<Rightarrow> ustr \<Rightarrow> store \<Rightarrow> store result" where
  "fail_forward now task_id error st =
     (case get_task st task_id of
        None \<Rightarrow> Inr st
      | Some task \<Rightarrow>
          bindr (finalize now task FAILED (Some [FORWARDING_LLM])
            (if error = unsupported_code then Some UNSUPPORTED_PARAMETER else None) st) (\<lambda>(st', won). Inr st'))"

text \<open>The caller learns of a parameter that the model does not support; other failures stay inside.\<close>

definition reject_unsupported_forward :: "instant \<Rightarrow> int \<Rightarrow> ustr \<Rightarrow> store \<Rightarrow> (store \<times> exn option) result" where
  "reject_unsupported_forward now task_id error st =
     (if error \<noteq> unsupported_code then Inr (st, None)
      else bindr (endpoint_finalize now task_id FAILED (Some UNSUPPORTED_PARAMETER) st) (\<lambda>(st', won).
        Inr (st', Some (err UNSUPPORTED_PARAMETER ''The request contains parameters that are not supported by this model.'' 400))))"

definition lost_codes :: "ustr list" where
  "lost_codes = [u ''claim_lost'', u ''reply_lost'', u ''cancelled'']"

text \<open>A forward that ends with an exception counts as one that failed.\<close>

type_synonym forwarder = "request_task \<Rightarrow> ustr \<Rightarrow> bool \<Rightarrow> store \<Rightarrow> store \<times> forward_outcome result"

definition outcome_or_exception :: "forward_outcome result \<Rightarrow> forward_outcome" where
  "outcome_or_exception r = (case r of Inr outcome \<Rightarrow> outcome | Inl e \<Rightarrow> NotAccepted (u ''exception''))"

definition run_forward :: "forwarder \<Rightarrow> request_task \<Rightarrow> ustr \<Rightarrow> bool \<Rightarrow> store \<Rightarrow> store \<times> forward_outcome" where
  "run_forward fw task reason stream st =
     (let (st', r) = fw task reason stream st in (st', outcome_or_exception r))"

definition settle_forward :: "instant \<Rightarrow> int \<Rightarrow> store \<times> forward_outcome \<Rightarrow> (store \<times> exn option) result" where
  "settle_forward now task_id r =
     (case r of
        (st, Accepted d) \<Rightarrow> Inr (st, None)
      | (st, NotAccepted code) \<Rightarrow>
          if code \<in> set lost_codes then Inr (st, None)
          else bindr (fail_forward now task_id code st) (reject_unsupported_forward now task_id code))"

definition run_direct_forward :: "forwarder \<Rightarrow> instant \<Rightarrow> request_task \<Rightarrow> bool \<Rightarrow> store \<Rightarrow> (store \<times> exn option) result" where
  "run_direct_forward fw now task stream st = settle_forward now (rt_id task) (run_forward fw task (u ''direct'') stream st)"

text \<open>What a step of the waiting loop ends with.\<close>

datatype waited = Poll | Reply request_task reply_draft | Gone | Failed exn

definition ready_reply :: "request_task option \<Rightarrow> (request_task \<times> reply_draft) option" where
  "ready_reply row =
     (case row of
        None \<Rightarrow> None
      | Some t \<Rightarrow> if rt_state t = RESPONSE_READY then map_option (\<lambda>d. (t, d)) (rt_response_payload t) else None)"

definition run_fallback :: "forwarder \<Rightarrow> instant \<Rightarrow> int \<Rightarrow> store \<Rightarrow> (store \<times> waited option) result" where
  "run_fallback fw now task_id st =
     (case get_task st task_id of
        None \<Rightarrow> Inr (st, None)
      | Some row \<Rightarrow>
          (case run_forward fw row (u ''human_timeout'') (rt_stream_requested row) st of
             (st1, Accepted d) \<Rightarrow>
               Inr (st1, map_option (\<lambda>(t, draft). Reply t draft) (ready_reply (get_task st1 task_id)))
           | (st1, NotAccepted code) \<Rightarrow>
               bindr (settle_forward now task_id (st1, NotAccepted code)) (\<lambda>(st2, e). Inr (st2, map_option Failed e))))"

section \<open>Waiting for a reply\<close>

definition timed_out :: exn where
  "timed_out = err REQUEST_TIMEOUT ''Request timed out.'' 504"

definition close_overdue ::
  "instant \<Rightarrow> (store \<Rightarrow> store) \<Rightarrow> int \<Rightarrow> store \<Rightarrow> (store \<times> waited) result" where
  "close_overdue now meanwhile task_id st =
     (case ready_reply (get_task st task_id) of
        Some (t, d) \<Rightarrow> Inr (st, Reply t d)
      | None \<Rightarrow>
          if (case get_task st task_id of None \<Rightarrow> False | Some t \<Rightarrow> rt_state t \<noteq> WAITING_HUMAN) then Inr (st, Poll)
          else bindr (endpoint_finalize now task_id TIMED_OUT None (meanwhile st)) (\<lambda>(st', won). Inr (st', Failed timed_out)))"

definition wait_step ::
  "forwarder \<Rightarrow> instant \<Rightarrow> (store \<Rightarrow> store) \<Rightarrow> bool \<Rightarrow> int \<Rightarrow> instant option \<Rightarrow> store \<Rightarrow> (store \<times> waited) result" where
  "wait_step fw now meanwhile disconnected task_id deadline st =
     (if disconnected then Inr (cancel_disconnected now task_id st, Gone)
      else
        (case get_task st task_id of
           None \<Rightarrow> Inr (st, Failed (err UPSTREAM_ERROR ''Internal server error.'' 500))
         | Some row \<Rightarrow>
             (case ready_reply (Some row) of
                Some (t, d) \<Rightarrow> Inr (st, Reply t d)
              | None \<Rightarrow>
                  if rt_state row = TIMED_OUT then Inr (st, Failed timed_out)
                  else if rt_state row = CANCELLED then Inr (cancel_disconnected now task_id st, Gone)
                  else if rt_state row = FAILED
                  then Inr (st, Failed (err UPSTREAM_ERROR ''The server had an error while processing the request.'' 500))
                  else if rt_state row = WAITING_HUMAN \<and> (case deadline of None \<Rightarrow> False | Some d \<Rightarrow> now > d) then
                    (if rt_reply_strategy_snapshot row = HUMAN_FALLBACK_LLM then
                       bindr (run_fallback fw now task_id st) (\<lambda>(st1, w).
                       (case w of
                          Some r \<Rightarrow> Inr (st1, r)
                        | None \<Rightarrow> close_overdue now meanwhile task_id st1))
                     else close_overdue now meanwhile task_id st)
                  else Inr (st, Poll))))"

section \<open>Sending the reply\<close>

text \<open>\<open>TaskJSONResponse\<close>: \<open>sent\<close> tells whether the body reached the caller.\<close>

definition json_response :: "instant \<Rightarrow> int \<Rightarrow> bool \<Rightarrow> store \<Rightarrow> (store \<times> exn option) result" where
  "json_response now task_id sent st =
     (let (st1, begun) = begin_response now task_id st
      in if \<not> begun
         then Inr (cancel_disconnected now task_id st1,
           Some (err UPSTREAM_ERROR ''The server had an error while processing the request.'' 500))
         else if sent then
           bindr (endpoint_finalize now task_id COMPLETED None st1) (\<lambda>(st2, won).
           Inr (cancel_disconnected now task_id st2, None))
         else Inr (cancel_disconnected now task_id st1, None))"

definition responding :: "int \<Rightarrow> store \<Rightarrow> bool" where
  "responding task_id st \<longleftrightarrow> (case get_task st task_id of None \<Rightarrow> False | Some t \<Rightarrow> rt_state t = RESPONDING)"

text \<open>The frames that are sent; before each, what others did is applied and the task is read again.\<close>

fun play :: "(nat \<Rightarrow> store \<Rightarrow> store) \<Rightarrow> int \<Rightarrow> sse \<Rightarrow> sse list \<Rightarrow> store \<Rightarrow> store \<times> sse list" where
  "play others task_id error_frame [] st = (st, [])"
| "play others task_id error_frame (f # fs) st =
     (let st1 = others 0 st
      in if responding task_id st1
         then (let (st2, out) = play (\<lambda>i. others (Suc i)) task_id error_frame fs st1 in (st2, f # out))
         else (st1, [error_frame]))"

text \<open>
  \<open>_stream\<close> in its \<open>TaskEventSourceResponse\<close>. \<open>taken\<close> is the number of frames after which the caller
  is gone, if it goes.
\<close>

definition stream_response ::
  "instant \<Rightarrow> (nat \<Rightarrow> store \<Rightarrow> store) \<Rightarrow> int \<Rightarrow> sse \<Rightarrow> sse list \<Rightarrow> nat option \<Rightarrow> store \<Rightarrow> (store \<times> sse list) result" where
  "stream_response now others task_id error_frame frames taken st =
     (let (st1, begun) = begin_response now task_id st;
          (st2, out) = (if begun then play others task_id error_frame
                          (case taken of None \<Rightarrow> frames | Some n \<Rightarrow> take n frames) st1
                        else (st1, [error_frame]))
      in if taken = None then
           bindr (endpoint_finalize now task_id COMPLETED None st2) (\<lambda>(st3, won).
           Inr (cancel_disconnected now task_id st3, out))
         else Inr (cancel_disconnected now task_id st2, out))"

end
