(* ===== verification/Creation.thy ===== *)
theory Creation
  imports Inference
begin

text \<open>
  What \<open>InferenceService.create_task\<close> guarantees: the new task is admitted against the ledger of
  activity slots, its keys are new, nothing else moves; a previous response is followed through
  a bounded chain of ancestors; and a Responses request inherits the context of its parent.
\<close>

section \<open>Creating a task keeps the gateway in order\<close>

text \<open>What the code relies on of \<open>DeliveryService.deliver_task\<close>: it writes neither table.\<close>

definition delivery_frame :: "(request_task \<Rightarrow> int \<Rightarrow> store \<Rightarrow> store) \<Rightarrow> bool" where
  "delivery_frame deliver_task \<longleftrightarrow>
     (\<forall>task c st. st_tasks (deliver_task task c st) = st_tasks st \<and> st_users (deliver_task task c st) = st_users st)"

lemma deliver_frame:
  "delivery_frame dt \<Longrightarrow> st_tasks (deliver dt cs task st) = st_tasks st \<and> st_users (deliver dt cs task st) = st_users st"
  by (simp add: delivery_frame_def deliver_def split: option.split)

lemma insert_task_Inr:
  "insert_task task st = Inr st' \<longleftrightarrow> st' = st\<lparr>st_tasks := st_tasks st @ [task]\<rparr> \<and>
     (\<forall>t \<in> set (st_tasks st). rt_public_id t \<noteq> rt_public_id task \<and>
        (rt_response_public_id t \<noteq> None \<longrightarrow> rt_response_public_id t \<noteq> rt_response_public_id task))"
  by (auto simp: insert_task_def list_ex_iff)

lemma new_task_simps [simp]:
  "rt_id (new_task now rnd key o' p pa m pr raw h n st) = fresh_id rt_id (st_tasks st)"
  "rt_state (new_task now rnd key o' p pa m pr raw h n st) = WAITING_HUMAN"
  "rt_owner_user_id (new_task now rnd key o' p pa m pr raw h n st) = o'"
  "rt_slot_released_at (new_task now rnd key o' p pa m pr raw h n st) = None"
  "rt_response_payload (new_task now rnd key o' p pa m pr raw h n st) = None"
  "rt_version (new_task now rnd key o' p pa m pr raw h n st) = 1"
  "rt_completed_at (new_task now rnd key o' p pa m pr raw h n st) = None"
  "rt_previous_task_id (new_task now rnd key o' p pa m pr raw h n st) = map_option rt_id pr"
  "rt_normalized_request_json (new_task now rnd key o' p pa m pr raw h n st) = dumps (JObj n)"
  by (simp_all add: new_task_def)

lemma new_task_ok: "task_ok (new_task now rnd key o' p pa m pr raw h n st)"
  by (simp add: task_ok_def)

lemma create_task_Inr:
  assumes "create_task now rnd dt cs ca key o' p pa raw h st = Inr (st', task)"
  obtains m pr n st1 where
    "assert_protocol_strategy p (ak_reply_strategy key) = Inr ()"
    "resolve_model ca key (parsed_model pa) = Some m" "previous_of pa key st = Inr pr"
    "build_normalized pa pr p = Inr n" "acquire_slot now key o' st = Inr st1"
    "task = new_task now rnd key o' p pa (fm_id m) pr raw h n st1"
    "\<forall>t \<in> set (st_tasks st1). rt_public_id t \<noteq> rt_public_id task \<and>
        (rt_response_public_id t \<noteq> None \<longrightarrow> rt_response_public_id t \<noteq> rt_response_public_id task)"
    "st' = deliver dt cs task (add_event (rt_id task) EV_CREATED ACTOR_SYSTEM None
        (Some (created_payload p pa)) (st1\<lparr>st_tasks := st_tasks st1 @ [task]\<rparr>))"
  using assms
  by (auto simp: create_task_def bindr_Inr_iff Let_def insert_task_Inr split: option.splits)

text \<open>Appending a row with a new key.\<close>

lemma get_task_append:
  "get_task (st\<lparr>st_tasks := st_tasks st @ [t]\<rparr>) k =
     (case get_task st k of Some x \<Rightarrow> Some x | None \<Rightarrow> if rt_id t = k then Some t else None)"
proof -
  have "get_row rt_id k (rows @ [t]) =
      (case get_row rt_id k rows of Some x \<Rightarrow> Some x | None \<Rightarrow> if rt_id t = k then Some t else None)" for rows
    by (induction rows) (auto simp: get_row_def)
  then show ?thesis by (simp add: get_task_def)
qed

lemma held_slots_append:
  "held_slots v (st\<lparr>st_tasks := st_tasks st @ [t]\<rparr>) = held_slots v st + (if holding v t then 1 else 0)"
  by (simp add: held_slots_def rowcount_def)

lemma held_slots_le:
  assumes "ledger_ok st" "x \<in> set (st_users st)"
  shows "held_slots (us_id x) st \<le> 10"
  using ledger_user [OF assms] by (simp add: user_ok_def MAX_ACTIVE_TASKS_PER_USER_def)

lemma created_store:
  assumes "gateway_ok st" "acquire_slot now key uid st = Inr st1" "task_ok task"
    "rt_id task = fresh_id rt_id (st_tasks st1)" "holding uid task"
    "st_tasks st' = st_tasks st1 @ [task]" "st_users st' = st_users st1"
  shows "gateway_ok st'" and "get_task st (rt_id task) = None" and "get_task st' (rt_id task) = Some task"
    and "later st st'" and "held_slots uid st' = held_slots uid st + 1"
    and "st_tasks st' = st_tasks st @ [task]"
proof -
  have led: "ledger_ok st" and ok: "tasks_ok st" using assms(1) by (simp_all add: gateway_ok_def)
  have acq: "snd (atomic_acquire_slot now uid st)" "st1 = fst (atomic_acquire_slot now uid st)"
    using acquire_slot_Inr [OF led] assms(2) by blast+
  have t1: "st_tasks st1 = st_tasks st" using acq(2) by simp
  then show rows: "st_tasks st' = st_tasks st @ [task]" using assms(6) by simp
  have new: "rt_id task \<notin> rt_id ` set (st_tasks st)" using assms(4) fresh_id_notin t1 by metis
  show none: "get_task st (rt_id task) = None"
  proof (cases "get_task st (rt_id task)")
    case (Some x)
    then show ?thesis using get_task_Some [OF Some] new by (metis imageI)
  qed
  let ?a = "st\<lparr>st_tasks := st_tasks st @ [task]\<rparr>"
  have same: "get_task st' = get_task ?a" by (rule get_task_cong) (simp add: rows)
  show "get_task st' (rt_id task) = Some task" by (simp add: same get_task_append none)
  show "later st st'"
    unfolding later_def same get_task_append by simp
  have held: "held_slots v st' = held_slots v st + (if holding v task then 1 else 0)" for v
    using held_slots_append [of v st task] held_slots_cong [of st' ?a v] rows by simp
  then show "held_slots uid st' = held_slots uid st + 1" using assms(5) by simp
  have "tasks_ok st'"
    using ok new assms(3) by (simp add: tasks_ok_def rows)
  moreover have "ledger_ok st'"
  proof (rule ledger_acquire [OF led acq(1)])
    show "st_users st' = st_users (fst (atomic_acquire_slot now uid st))" using assms(7) acq(2) by simp
    show "int (held_slots uid st') = int (held_slots uid st) + 1" using held assms(5) by simp
    fix v assume "v \<noteq> uid"
    then show "held_slots v st' = held_slots v st" using held assms(5) by (simp add: holding_def)
  qed
  ultimately show "gateway_ok st'" by (simp add: gateway_ok_def)
qed

text \<open>
  C4. A task that is created is admitted: the ledger still holds, so the owner had a free slot and
  now holds exactly one more; the task waits for a human at version one under a key no other row
  has, with public ids no other task has, every other task is untouched, and the request names a
  model the key may call.
\<close>

theorem create_task_admitted:
  assumes "gateway_ok st" "delivery_frame dt"
    "create_task now rnd dt cs ca key owner p parsed raw h st = Inr (st', task)"
  shows "gateway_ok st' \<and> st_tasks st' = st_tasks st @ [task] \<and>
    get_task st (rt_id task) = None \<and> get_task st' (rt_id task) = Some task \<and> later st st' \<and>
    held_slots owner st' = held_slots owner st + 1 \<and> held_slots owner st' \<le> 10 \<and>
    rt_state task = WAITING_HUMAN \<and> rt_version task = 1 \<and> rt_owner_user_id task = owner \<and>
    ak_is_enabled key \<and> resolve_model ca key (parsed_model parsed) \<noteq> None \<and>
    (\<forall>t \<in> set (st_tasks st). rt_public_id t \<noteq> rt_public_id task \<and>
       (rt_response_public_id t \<noteq> None \<longrightarrow> rt_response_public_id t \<noteq> rt_response_public_id task))"
proof -
  obtain m pr n st1 where c:
    "resolve_model ca key (parsed_model parsed) = Some m" "acquire_slot now key owner st = Inr st1"
    "task = new_task now rnd key owner p parsed (fm_id m) pr raw h n st1"
    "\<forall>t \<in> set (st_tasks st1). rt_public_id t \<noteq> rt_public_id task \<and>
        (rt_response_public_id t \<noteq> None \<longrightarrow> rt_response_public_id t \<noteq> rt_response_public_id task)"
    "st' = deliver dt cs task (add_event (rt_id task) EV_CREATED ACTOR_SYSTEM None
        (Some (created_payload p parsed)) (st1\<lparr>st_tasks := st_tasks st1 @ [task]\<rparr>))"
    using create_task_Inr [OF assms(3)] by metis
  have fr: "st_tasks st' = st_tasks st1 @ [task]" "st_users st' = st_users st1"
    using deliver_frame [OF assms(2)] c(5) by (simp_all add: add_event_def)
  have own: "rt_owner_user_id task = owner" "rt_state task = WAITING_HUMAN" "rt_version task = 1"
      "holding owner task" "task_ok task" "rt_id task = fresh_id rt_id (st_tasks st1)"
    using new_task_ok by (simp_all add: c(3) holding_def)
  note k = created_store [OF assms(1) c(2) own(5,6,4) fr]
  have led: "ledger_ok st" "ledger_ok st'" using assms(1) k(1) by (simp_all add: gateway_ok_def)
  have acq: "ak_is_enabled key" "snd (atomic_acquire_slot now owner st)" "st1 = fst (atomic_acquire_slot now owner st)"
    using acquire_slot_Inr [OF led(1)] c(2) by blast+
  have t1: "st_tasks st1 = st_tasks st" using acq(3) by simp
  obtain x where x: "get_user st owner = Some x" "us_active_task_count x < MAX_ACTIVE_TASKS_PER_USER"
    using acq(2) acquire_iff [OF led(1)] by (cases "get_user st owner") auto
  have xm: "x \<in> set (st_users st)" "us_id x = owner" using x(1) by (auto simp: get_user_def dest: get_row_Some)
  have "held_slots owner st < 10"
    using ledger_user [OF led(1) xm(1)] x(2) xm(2) by (simp add: user_ok_def MAX_ACTIVE_TASKS_PER_USER_def)
  with k own(1-3) acq(1) c(1,4) t1 show ?thesis by simp
qed

section \<open>The chain of previous responses\<close>

text \<open>\<open>chain st t ts\<close>: \<open>ts\<close> are the ancestors of \<open>t\<close>, its parent first, up to a root.\<close>

fun chain :: "store \<Rightarrow> request_task \<Rightarrow> request_task list \<Rightarrow> bool" where
  "chain st t [] \<longleftrightarrow> rt_previous_task_id t = None"
| "chain st t (p # ps) \<longleftrightarrow>
     (\<exists>k. rt_previous_task_id t = Some k \<and> get_task st k = Some p) \<and> chain st p ps"

lemma walk_chain_iff: "walk_chain n st t = Inr () \<longleftrightarrow> (\<exists>ts. length ts \<le> n \<and> chain st t ts)"
proof (induction n arbitrary: t)
  case 0
  show ?case by (simp add: walk_chain.simps [of 0] split: option.split)
next
  case (Suc n)
  show ?case
  proof (cases "rt_previous_task_id t")
    case None
    have "chain st t []" using None by simp
    then have "\<exists>ts. length ts \<le> Suc n \<and> chain st t ts" by (metis le0 list.size(3))
    with None show ?thesis by (simp add: walk_chain.simps [of "Suc n"])
  next
    case (Some k)
    have l: "(\<exists>ts. length ts \<le> Suc n \<and> chain st t ts) \<longleftrightarrow>
        (\<exists>p. get_task st k = Some p \<and> (\<exists>ps. length ps \<le> n \<and> chain st p ps))"
    proof
      assume "\<exists>ts. length ts \<le> Suc n \<and> chain st t ts"
      then obtain ts where ts: "length ts \<le> Suc n" "chain st t ts" by blast
      with Some show "\<exists>p. get_task st k = Some p \<and> (\<exists>ps. length ps \<le> n \<and> chain st p ps)"
        by (cases ts) auto
    next
      assume "\<exists>p. get_task st k = Some p \<and> (\<exists>ps. length ps \<le> n \<and> chain st p ps)"
      then obtain p ps where "get_task st k = Some p" "length ps \<le> n" "chain st p ps" by blast
      with Some have "length (p # ps) \<le> Suc n \<and> chain st t (p # ps)" by simp
      then show "\<exists>ts. length ts \<le> Suc n \<and> chain st t ts" by blast
    qed
    show ?thesis
      unfolding l using Some Suc.IH by (simp add: walk_chain.simps [of "Suc n"] split: option.split)
  qed
qed

lemma walk_chain_error:
  "walk_chain n st t = Inl e \<Longrightarrow>
     e = invalid_previous \<or> e = err CONTEXT_LENGTH_EXCEEDED ''Context chain depth exceeds the maximum.'' 400"
  by (induction n st t rule: walk_chain.induct)
    (subst (asm) (2) walk_chain.simps, auto split: option.splits nat.splits)


section \<open>The context of a conversation\<close>

text \<open>
  What a stored task says of its conversation: the context it was created with, and the items of
  its own \<open>input\<close>.
\<close>

definition stored :: "request_task \<Rightarrow> obj" where
  "stored t = (case loads (rt_normalized_request_json t) of Some v \<Rightarrow> obj_of v | None \<Rightarrow> [])"

definition list_of :: "json \<Rightarrow> json list" where
  "list_of v = (case v of JList xs \<Rightarrow> xs | _ \<Rightarrow> [])"

definition stored_context :: "request_task \<Rightarrow> json list" where
  "stored_context t = list_of (oget (stored t) ''context'')"

definition stored_turn :: "request_task \<Rightarrow> json list" where
  "stored_turn t =
     (case oget (stored t) ''input'' of
        JStr s \<Rightarrow> [JObj [(u ''type'', S ''message''), (u ''role'', S ''user''), (u ''content'', JStr s)]]
      | JList xs \<Rightarrow> xs
      | _ \<Rightarrow> [])"

definition readable :: "request_task \<Rightarrow> bool" where
  "readable t \<longleftrightarrow> (\<exists>d. loads (rt_normalized_request_json t) = Some (JObj d) \<and>
     oget d ''context'' = JList (stored_context t)) \<and> wf_items (stored_context t)"

definition inherited :: "store \<Rightarrow> request_task \<Rightarrow> json list" where
  "inherited st t =
     (case rt_previous_task_id t of
        None \<Rightarrow> []
      | Some k \<Rightarrow>
          (case get_task st k of None \<Rightarrow> [] | Some p \<Rightarrow> stored_context p @ response_items p))"

definition linked :: "store \<Rightarrow> request_task \<Rightarrow> bool" where
  "linked st t \<longleftrightarrow>
     (\<forall>k. rt_previous_task_id t = Some k \<longrightarrow>
        (\<exists>p. get_task st k = Some p \<and> rt_response_public_id p \<noteq> None \<and> rt_state p = COMPLETED)) \<and>
     (rt_response_public_id t \<noteq> None \<longrightarrow>
        readable t \<and> stored_context t = inherited st t @ stored_turn t)"

definition contexts_ok :: "store \<Rightarrow> bool" where
  "contexts_ok st \<longleftrightarrow> (\<forall>t \<in> set (st_tasks st). linked st t)"

text \<open>The whole conversation: every ancestor's input and reply, the oldest first.\<close>

definition transcript :: "request_task list \<Rightarrow> json list" where
  "transcript ts = concat (map (\<lambda>a. stored_turn a @ response_items a) (rev ts))"

lemma linked_frame:
  assumes "linked st t" "\<And>k p. get_task st k = Some p \<Longrightarrow> rt_state p = COMPLETED \<Longrightarrow> get_task st' k = Some p"
  shows "linked st' t"
proof (cases "rt_previous_task_id t")
  case None
  with assms(1) show ?thesis by (simp add: linked_def inherited_def)
next
  case (Some k)
  obtain p where p: "get_task st k = Some p" "rt_response_public_id p \<noteq> None" "rt_state p = COMPLETED"
    using assms(1) Some unfolding linked_def by blast
  with assms(2) have "get_task st' k = Some p" by blast
  with assms(1) Some p show ?thesis by (simp add: linked_def inherited_def)
qed

lemma linked_same:
  assumes "linked st t" "same_identity t t'"
  shows "linked st t'"
proof -
  have "rt_normalized_request_json t' = rt_normalized_request_json t"
    "rt_previous_task_id t' = rt_previous_task_id t" "rt_response_public_id t' = rt_response_public_id t"
    using assms(2) by (simp_all add: same_identity_def)
  moreover from this have "stored_context t' = stored_context t" "stored_turn t' = stored_turn t"
    "inherited st t' = inherited st t" "readable t' = readable t"
    by (simp_all add: stored_context_def stored_turn_def stored_def inherited_def readable_def)
  ultimately show ?thesis using assms(1) by (simp add: linked_def)
qed

lemma later_completed:
  assumes "later st st'" "get_task st k = Some p" "rt_state p = COMPLETED"
  shows "get_task st' k = Some p"
proof -
  have "is_terminal (rt_state p)" using assms(3) by (simp add: task_state_defs)
  with later_rank [OF assms(1,2)] show ?thesis by blast
qed

text \<open>No other operation on the tasks touches a conversation.\<close>

lemma contexts_step:
  assumes "contexts_ok st" "tasks_step st st'"
  shows "contexts_ok st'"
  unfolding contexts_ok_def
proof
  fix t' assume "t' \<in> set (st_tasks st')"
  then obtain i where i: "i < length (st_tasks st')" "t' = st_tasks st' ! i" by (auto simp: in_set_conv_nth)
  then have r: "row_step (st_tasks st ! i) t'" "st_tasks st ! i \<in> set (st_tasks st)"
    using assms(2) by (auto simp: tasks_step_def list_all2_conv_all_nth)
  have "linked st (st_tasks st ! i)" using assms(1) r(2) unfolding contexts_ok_def by blast
  then have "linked st t'" by (rule linked_same) (rule row_step_identity [OF r(1)])
  then show "linked st' t'"
    by (rule linked_frame) (rule later_completed [OF tasks_step_later [OF assms(2)]])
qed

text \<open>Along a chain of ancestors the contexts add up to the transcript.\<close>

lemma chain_context:
  assumes "contexts_ok st"
  shows "linked st t \<Longrightarrow> rt_response_public_id t \<noteq> None \<Longrightarrow> chain st t ts \<Longrightarrow>
    stored_context t = transcript ts @ stored_turn t"
proof (induction ts arbitrary: t)
  case Nil
  then show ?case by (simp add: linked_def inherited_def transcript_def)
next
  case (Cons p ps)
  obtain k where k: "rt_previous_task_id t = Some k" "get_task st k = Some p" "chain st p ps"
    using Cons.prems(3) by auto
  have "rt_response_public_id p \<noteq> None" using Cons.prems(1) k(1,2) unfolding linked_def by fastforce
  moreover have "linked st p" using assms get_task_Some [OF k(2)] unfolding contexts_ok_def by blast
  ultimately have "stored_context p = transcript ps @ stored_turn p" using Cons.IH k(3) by blast
  moreover have "stored_context t = (stored_context p @ response_items p) @ stored_turn t"
    using Cons.prems(1,2) k(1,2) by (simp add: linked_def inherited_def)
  ultimately show ?case by (simp add: transcript_def)
qed

lemma stored_normalized:
  assumes "rt_normalized_request_json t = dumps (JObj (responses_normalized r ctx))"
    "wf_json (JObj (responses_normalized r ctx))"
  shows "loads (rt_normalized_request_json t) = Some (JObj (responses_normalized r ctx))"
    and "oget (responses_normalized r ctx) ''context'' = JList ctx"
    and "stored_context t = ctx" and "stored_turn t = base_context_items r"
proof -
  show l: "loads (rt_normalized_request_json t) = Some (JObj (responses_normalized r ctx))"
    using loads_dumps [OF assms(2)] assms(1) by simp
  show c: "oget (responses_normalized r ctx) ''context'' = JList ctx"
    by (simp add: responses_normalized_def oget_def)
  have i: "oget (responses_normalized r ctx) ''input'' = json_input (rr_input r)"
    by (simp add: responses_normalized_def oget_def u_def)
  show "stored_context t = ctx" "stored_turn t = base_context_items r"
    using l c i
    by (simp_all add: stored_context_def stored_turn_def stored_def list_of_def json_input_def
        base_context_items_def split: responses_input.split)
qed

text \<open>What a child of a readable parent is normalized to.\<close>

lemma build_responses:
  assumes "build_normalized (PResponses r) previous p = Inr n"
    "\<And>t. previous = Some t \<Longrightarrow> readable t"
  shows "n = responses_normalized r
    ((case previous of None \<Rightarrow> [] | Some t \<Rightarrow> stored_context t @ response_items t) @ base_context_items r)"
proof (cases previous)
  case None
  with assms(1) show ?thesis by (auto simp: build_normalized_def bindr_Inr_iff with_budget_def Let_def)
next
  case (Some t)
  obtain d where d: "loads (rt_normalized_request_json t) = Some (JObj d)" "oget d ''context'' = JList (stored_context t)"
    using assms(2) [OF Some] unfolding readable_def by blast
  have "parent_context t = Inr (stored_context t)"
    by (simp add: parent_context_def d or_else_def iterate_def)
  with Some assms(1) show ?thesis
    by (auto simp: build_normalized_def bindr_Inr_iff with_budget_def Let_def)
qed

text \<open>The values that \<open>json.dumps\<close> and \<open>json.loads\<close> carry unchanged.\<close>

lemma wf_items_append [simp]: "wf_items (xs @ ys) \<longleftrightarrow> wf_items xs \<and> wf_items ys"
  by (induction xs) auto

lemma wf_items_all: "wf_items xs \<longleftrightarrow> (\<forall>x \<in> set xs. wf_json x)"
  by (induction xs) auto

lemma wf_response_items: "wf_items (response_items t)"
  by (auto simp: response_items_def reply_output_items_def wf_items_all message_item_def reasoning_item_def
      call_item_def split: option.splits)

lemma wf_normalized:
  "wf_json (JObj (responses_normalized r ctx)) \<longleftrightarrow>
     wf_json (JObj (responses_normalized r [])) \<and> wf_items ctx"
  by (auto simp: responses_normalized_def)

lemma wf_base_items: "wf_json (JObj (responses_normalized r [])) \<Longrightarrow> wf_items (base_context_items r)"
  by (auto simp: responses_normalized_def base_context_items_def json_input_def split: responses_input.splits)

lemma previous_of_Some:
  assumes "previous_of (PResponses r) key st = Inr (Some t)" "tasks_ok st"
  shows "get_task st (rt_id t) = Some t" and "rt_response_public_id t \<noteq> None" and "rt_state t = COMPLETED"
proof -
  obtain rid where rid: "resolve_previous st rid key = Inr t"
    using assms(1) by (auto simp: previous_of_def bindr_Inr_iff split: option.splits)
  have f: "find_response st rid = Some t" "rt_state t = COMPLETED"
    using rid by (auto simp: resolve_previous_def bindr_Inr_iff split: option.splits if_splits)
  have m: "t \<in> set (st_tasks st)" "rt_response_public_id t = Some rid"
    using find_SomeD [OF f(1) [unfolded find_response_def]] by simp_all
  show "get_task st (rt_id t) = Some t" using m(1) assms(2) get_task_member by (simp add: tasks_ok_def)
  show "rt_response_public_id t \<noteq> None" "rt_state t = COMPLETED" using m(2) f(2) by simp_all
qed

lemma create_responses_linked:
  assumes "gateway_ok st" "contexts_ok st" "delivery_frame dt"
    "create_task now rnd dt cs ca key owner OPENAI_RESPONSES (PResponses r) raw h st = Inr (st', task)"
    "wf_json (JObj (responses_normalized r []))"
  shows "contexts_ok st'" and "linked st' task" and "rt_response_public_id task \<noteq> None"
    and "stored_turn task = base_context_items r"
proof -
  obtain m pr n st1 where
    "assert_protocol_strategy OPENAI_RESPONSES (ak_reply_strategy key) = Inr ()"
    "resolve_model ca key (parsed_model (PResponses r)) = Some m"
    and c: "previous_of (PResponses r) key st = Inr pr"
      "build_normalized (PResponses r) pr OPENAI_RESPONSES = Inr n" "acquire_slot now key owner st = Inr st1"
      "task = new_task now rnd key owner OPENAI_RESPONSES (PResponses r) (fm_id m) pr raw h n st1"
    and "\<forall>t \<in> set (st_tasks st1). rt_public_id t \<noteq> rt_public_id task \<and>
        (rt_response_public_id t \<noteq> None \<longrightarrow> rt_response_public_id t \<noteq> rt_response_public_id task)"
    and c5: "st' = deliver dt cs task (add_event (rt_id task) EV_CREATED ACTOR_SYSTEM None
        (Some (created_payload OPENAI_RESPONSES (PResponses r))) (st1\<lparr>st_tasks := st_tasks st1 @ [task]\<rparr>))"
    by (rule create_task_Inr [OF assms(4)])
  have fr: "st_tasks st' = st_tasks st1 @ [task]" "st_users st' = st_users st1"
    using deliver_frame [OF assms(3)] c5 by (simp_all add: add_event_def)
  have own: "holding owner task" "task_ok task" "rt_id task = fresh_id rt_id (st_tasks st1)"
    "rt_previous_task_id task = map_option rt_id pr" "rt_normalized_request_json task = dumps (JObj n)"
    using new_task_ok by (simp_all add: c(4) holding_def)
  show rid: "rt_response_public_id task \<noteq> None" by (simp add: c(4) new_task_def)
  note k = created_store [OF assms(1) c(3) own(2,3,1) fr]
  have ok: "tasks_ok st" using assms(1) by (simp add: gateway_ok_def)
  have keep: "get_task st' j = Some q" if "get_task st j = Some q" "rt_state q = COMPLETED" for j q
    using later_completed [OF k(4) that] .
  have par: "get_task st (rt_id t) = Some t \<and> rt_response_public_id t \<noteq> None \<and> rt_state t = COMPLETED \<and> readable t"
    if "pr = Some t" for t
  proof -
    note q = previous_of_Some [OF c(1) [unfolded that] ok]
    have "linked st t" using q(1) assms(2) get_task_Some unfolding contexts_ok_def by blast
    with q show ?thesis by (simp add: linked_def)
  qed
  let ?ctx = "(case pr of None \<Rightarrow> [] | Some t \<Rightarrow> stored_context t @ response_items t) @ base_context_items r"
  have n: "n = responses_normalized r ?ctx" by (rule build_responses [OF c(2)]) (use par in blast)
  have wf: "wf_items ?ctx"
    using par wf_response_items wf_base_items [OF assms(5)] by (cases pr) (auto simp: readable_def)
  then have "wf_json (JObj (responses_normalized r ?ctx))" using wf_normalized assms(5) by blast
  note sn = stored_normalized [OF own(5) [unfolded n] this]
  show turn: "stored_turn task = base_context_items r" by (rule sn(4))
  have inh: "inherited st' task = (case pr of None \<Rightarrow> [] | Some t \<Rightarrow> stored_context t @ response_items t)"
    using par keep own(4) by (cases pr) (simp_all add: inherited_def)
  have "readable task" using sn(1-3) wf by (simp add: readable_def)
  moreover have "\<exists>p. get_task st' j = Some p \<and> rt_response_public_id p \<noteq> None \<and> rt_state p = COMPLETED"
    if "rt_previous_task_id task = Some j" for j
    using that own(4) par keep by (cases pr) auto
  ultimately show l: "linked st' task" by (simp add: linked_def inh sn(3) turn)
  have "linked st' t" if "t \<in> set (st_tasks st)" for t
    by (rule linked_frame [of st]) (use assms(2) that keep in \<open>simp_all add: contexts_ok_def\<close>)
  with l show "contexts_ok st'" by (simp add: contexts_ok_def k(6))
qed


section \<open>Sample requests\<close>

definition sample_responses :: "ustr option \<Rightarrow> responses_request" where
  "sample_responses previous = \<lparr>rr_store = None, rr_model = u ''m'', rr_input = InputItems [JBool True],
     rr_instructions = None, rr_previous_response_id = previous, rr_stream = False, rr_tools = JNull,
     rr_options = [], rr_raw = []\<rparr>"

text \<open>A finished first turn, whose reply said \<open>hi\<close>, and its database.\<close>

definition sample_turn :: request_task where
  "sample_turn = sample_task\<lparr>rt_response_public_id := Some (u ''resp_1''), rt_protocol := OPENAI_RESPONSES,
     rt_normalized_request_json := dumps (JObj (responses_normalized (sample_responses None) [JBool True])),
     rt_state := COMPLETED, rt_response_payload := Some sample_draft,
     rt_slot_released_at := Some 1, rt_completed_at := Some 1\<rparr>"

definition sample_history :: store where
  "sample_history = sample_store\<lparr>st_users := [sample_user\<lparr>us_active_task_count := 0\<rparr>], st_tasks := [sample_turn]\<rparr>"

lemma sample_turn_simps [simp]:
  "rt_id sample_turn = 1" "rt_state sample_turn = COMPLETED" "rt_api_key_id sample_turn = 3"
  "rt_response_public_id sample_turn = Some (u ''resp_1'')" "rt_previous_task_id sample_turn = None"
  "rt_response_payload sample_turn = Some sample_draft" "rt_slot_released_at sample_turn = Some 1"
  "rt_normalized_request_json sample_turn =
     dumps (JObj (responses_normalized (sample_responses None) [JBool True]))"
  "rt_completed_at sample_turn = Some 1" "rt_public_id sample_turn = u ''req_1''"
  by (simp_all add: sample_turn_def) (simp_all add: sample_task_def)

lemma sample_history_simps [simp]:
  "st_users sample_history = [sample_user\<lparr>us_active_task_count := 0\<rparr>]" "st_tasks sample_history = [sample_turn]"
  by (simp_all add: sample_history_def)

lemma sample_responses_simps [simp]:
  "rr_model (sample_responses p) = u ''m''" "rr_previous_response_id (sample_responses p) = p"
  "rr_raw (sample_responses p) = []" "rr_stream (sample_responses p) = False"
  "base_context_items (sample_responses p) = [JBool True]"
  by (simp_all add: sample_responses_def base_context_items_def)

lemma sample_wf: "wf_json (JObj (responses_normalized (sample_responses p) [JBool True]))"
  "wf_json (JObj (responses_normalized (sample_responses p) []))"
  by (simp_all add: responses_normalized_def sample_responses_def json_input_def json_opt_def oget_def without_def)

lemmas sample_turn_stored =
  stored_normalized [of sample_turn "sample_responses None" "[JBool True]", OF _ sample_wf(1), simplified]

lemma sample_history_get: "get_task sample_history k = (if k = 1 then Some sample_turn else None)"
  by (simp add: get_task_def get_row_def)

lemma sample_history_ok: "gateway_ok sample_history" "contexts_ok sample_history"
proof -
  have "task_ok sample_turn" by (simp add: task_ok_def task_state_defs)
  then show "gateway_ok sample_history"
    by (simp add: gateway_ok_def tasks_ok_def ledger_ok_def user_ok_def held_slots_def holding_def
        MAX_ACTIVE_TASKS_PER_USER_def)
  have "readable sample_turn" using sample_turn_stored(1-3) by (simp add: readable_def)
  moreover have "inherited sample_history sample_turn = []" by (simp add: inherited_def)
  ultimately show "contexts_ok sample_history"
    using sample_turn_stored(3,4) by (simp add: contexts_ok_def linked_def)
qed

lemma sample_model: "\<exists>r. resolve_model sample_catalog_rows sample_key (u ''m'') = Some r"
  by (simp add: resolve_model_def effective_models_def visible_models_def key_selected_models_def joined_def
      by_order_def sample_catalog_rows_def Let_def)

lemma sample_acquire: "\<exists>st1. acquire_slot 5 sample_key 7 sample_history = Inr st1 \<and> st_tasks st1 = [sample_turn]"
  by (simp add: acquire_slot_def get_user_def get_row_def atomic_acquire_slot_def update_users_def sql_update_def
      MAX_ACTIVE_TASKS_PER_USER_def)

lemma sample_previous: "previous_of (PResponses (sample_responses (Some (u ''resp_1'')))) sample_key sample_history = Inr (Some sample_turn)"
  by (simp add: previous_of_def resolve_previous_def find_response_def walk_chain.simps)

lemma sample_budget: "enforce_context_budget ([JBool True] @ response_items sample_turn @ [JBool True]) = Inr ()"
  by (simp add: enforce_context_budget_def context_item_count_def context_json_bytes_def utf8_length_def
      MAX_EXPANDED_ITEMS_def MAX_EXPANDED_CONTEXT_BYTES_def response_items_def reply_output_items_def message_item_def
      dumps_compact_def u_def quote_def escape_char_def utf8_width_def surrogate_def truthy_text_def)

lemma sample_build:
  "\<exists>n. build_normalized (PResponses (sample_responses (Some (u ''resp_1'')))) (Some sample_turn) OPENAI_RESPONSES = Inr n"
proof -
  obtain d where d: "loads (rt_normalized_request_json sample_turn) = Some (JObj d)" "oget d ''context'' = JList [JBool True]"
    using sample_turn_stored(1,2) by simp
  have "parent_context sample_turn = Inr [JBool True]" unfolding parent_context_def d(1) by (simp add: d(2) or_else_def iterate_def)
  moreover have "build_caller_tool_catalog OPENAI_RESPONSES [] = \<lparr>ctc_definitions = [], ctc_policy = parse_policy OPENAI_RESPONSES JNull []\<rparr>"
    by (simp add: build_caller_tool_catalog_def parse_tools_def)
  ultimately show ?thesis using sample_budget
    by (simp add: build_normalized_def with_budget_def assert_unique_tool_names_def Let_def)
qed

definition sample_secret :: "nat \<Rightarrow> ustr" where "sample_secret i = [i]"

lemma sample_create:
  "\<exists>st' task. create_task 5 sample_secret (\<lambda>_ _ st. st) [] sample_catalog_rows sample_key 7 OPENAI_RESPONSES
     (PResponses (sample_responses (Some (u ''resp_1'')))) [] [] sample_history = Inr (st', task)"
proof -
  obtain n where n: "build_normalized (PResponses (sample_responses (Some (u ''resp_1'')))) (Some sample_turn) OPENAI_RESPONSES = Inr n"
    using sample_build by blast
  obtain r where r: "resolve_model sample_catalog_rows sample_key (u ''m'') = Some r" using sample_model by blast
  obtain st1 where st1: "acquire_slot 5 sample_key 7 sample_history = Inr st1" "st_tasks st1 = [sample_turn]"
    using sample_acquire by blast
  let ?t = "new_task 5 sample_secret sample_key 7 OPENAI_RESPONSES (PResponses (sample_responses (Some (u ''resp_1''))))
     (fm_id r) (Some sample_turn) [] [] n st1"
  have "rt_public_id ?t = u ''t_'' @ [0]" by (simp add: new_task_def task_public_id_def st1(2) sample_secret_def u_def)
  moreover have "rt_response_public_id ?t = Some (u ''resp_'' @ [4])" by (simp add: new_task_def sample_secret_def)
  ultimately have "insert_task ?t st1 = Inr (st1\<lparr>st_tasks := st_tasks st1 @ [?t]\<rparr>)"
    by (simp add: insert_task_Inr st1(2) u_def)
  then show ?thesis
    by (simp add: create_task_def assert_protocol_strategy_def r sample_previous n st1(1) Let_def)
qed

lemma sample_delivery: "delivery_frame (\<lambda>_ _ st. st)"
  by (simp add: delivery_frame_def)


theorem create_task_admitted_witness:
  "\<exists>st' task. create_task 5 sample_secret (\<lambda>_ _ st. st) [] sample_catalog_rows sample_key 7 OPENAI_RESPONSES
     (PResponses (sample_responses (Some (u ''resp_1'')))) [] [] sample_history = Inr (st', task) \<and>
     gateway_ok st' \<and> held_slots 7 st' = 1 \<and> get_task st' (rt_id task) = Some task"
proof -
  obtain st' task where c: "create_task 5 sample_secret (\<lambda>_ _ st. st) [] sample_catalog_rows sample_key 7
     OPENAI_RESPONSES (PResponses (sample_responses (Some (u ''resp_1'')))) [] [] sample_history = Inr (st', task)"
    using sample_create by blast
  have "held_slots 7 sample_history = 0" by (simp add: held_slots_def holding_def)
  with create_task_admitted [OF sample_history_ok(1) sample_delivery c] c show ?thesis by auto
qed


end
