(* ===== verification/Sweeper.thy ===== *)
theory Sweeper
  imports Creation
begin

text \<open>
  Convergence of tasks whose caller is gone: one round of \<open>TaskSweeper.sweep_once\<close>
  (\<open>app/services/task_sweeper.py\<close>) and \<open>cancel_active_tasks\<close> (\<open>app/services/task_lifecycle.py\<close>).
  Rows are selected once and processed one by one, each in a transaction of its own: the row the
  loop holds is the one that was read, also when the store has moved on since. One instant \<open>now\<close>
  stands for all the readings of the clock in a round.
\<close>

definition FALLBACK_CLAIM_GRACE :: instant where "FALLBACK_CLAIM_GRACE = seconds (2 * 15)"
definition STALE_FORWARD_GRACE :: instant where "STALE_FORWARD_GRACE = seconds 600 + FALLBACK_CLAIM_GRACE"
definition STALE_OUTPUT_GRACE :: instant where "STALE_OUTPUT_GRACE = seconds 600"
definition SWEEP_BATCH_LIMIT :: nat where "SWEEP_BATCH_LIMIT = 200"

section \<open>The sweep\<close>

text \<open>A comparison with a null column is not true.\<close>

definition deadline_by :: "instant \<Rightarrow> request_task \<Rightarrow> bool" where
  "deadline_by limit t \<longleftrightarrow> (case rt_human_deadline_at t of None \<Rightarrow> False | Some d \<Rightarrow> d \<le> limit)"

definition overdue :: "instant \<Rightarrow> request_task \<Rightarrow> bool" where
  "overdue now t \<longleftrightarrow>
     ((rt_state t = WAITING_HUMAN \<and> deadline_by now t \<and>
        (rt_reply_strategy_snapshot t = HUMAN \<or> deadline_by (now - FALLBACK_CLAIM_GRACE) t)) \<or>
      (rt_state t = FORWARDING_LLM \<and> rt_updated_at t \<le> now - STALE_FORWARD_GRACE)) \<and>
     rt_slot_released_at t = None"

definition stale_output :: "instant \<Rightarrow> request_task \<Rightarrow> bool" where
  "stale_output now t \<longleftrightarrow>
     rt_state t \<in> {RESPONSE_READY, RESPONDING} \<and> rt_updated_at t \<le> now - STALE_OUTPUT_GRACE \<and>
     rt_slot_released_at t = None"

definition batch :: "(request_task \<Rightarrow> bool) \<Rightarrow> store \<Rightarrow> request_task list" where
  "batch cond st = take SWEEP_BATCH_LIMIT (sort_key rt_id (filter cond (st_tasks st)))"

record sweep_counts =
  sc_timed_out :: nat
  sc_failed :: nat
  sc_cancelled :: nat

definition sweep_target :: "request_task \<Rightarrow> task_state" where
  "sweep_target task =
     (if rt_state task = FORWARDING_LLM \<or> rt_reply_strategy_snapshot task = LLM then FAILED else TIMED_OUT)"

definition sweep_overdue :: "instant \<Rightarrow> request_task \<Rightarrow> store \<times> sweep_counts \<Rightarrow> store \<times> sweep_counts" where
  "sweep_overdue now task p =
     (let (st, counts) = p; target = sweep_target task
      in case finalize now task target (Some [rt_state task]) None st of
           Inl e \<Rightarrow> (st, counts)
         | Inr (st', won) \<Rightarrow>
             (st', if \<not> won then counts
                   else if target = FAILED then counts\<lparr>sc_failed := sc_failed counts + 1\<rparr>
                   else counts\<lparr>sc_timed_out := sc_timed_out counts + 1\<rparr>))"

definition sweep_stale :: "instant \<Rightarrow> request_task \<Rightarrow> store \<times> sweep_counts \<Rightarrow> store \<times> sweep_counts" where
  "sweep_stale now task p =
     (let (st, counts) = p;
          (st', won) = cancel_caller_disconnected now (rt_id task) (u ''stale_output_swept'') st
      in (st', if won then counts\<lparr>sc_cancelled := sc_cancelled counts + 1\<rparr> else counts))"

definition sweep_once :: "instant \<Rightarrow> store \<Rightarrow> store \<times> sweep_counts" where
  "sweep_once now st =
     (let (st1, counts) = fold (sweep_overdue now) (batch (overdue now) st)
            (st, \<lparr>sc_timed_out = 0, sc_failed = 0, sc_cancelled = 0\<rparr>)
      in fold (sweep_stale now) (batch (stale_output now) st1) (st1, counts))"

section \<open>Shutdown and recovery\<close>

definition live :: "request_task \<Rightarrow> bool" where
  "live t \<longleftrightarrow> \<not> is_terminal (rt_state t) \<and> rt_slot_released_at t = None"

definition live_ids :: "store \<Rightarrow> int list" where
  "live_ids st = take 200 (map rt_id (filter live (st_tasks st)))"

definition cancel_one :: "instant \<Rightarrow> ustr \<Rightarrow> int \<Rightarrow> store \<times> nat \<Rightarrow> store \<times> nat" where
  "cancel_one now reason task_id p =
     (let (st, n) = p; (st', won) = cancel_caller_disconnected now task_id reason st
      in (st', n + of_bool won))"

text \<open>A cancellation, whatever the store: the rows that match become terminal.\<close>

lemma cancel_tasks:
  "st_tasks (fst (cancel_caller_disconnected now k reason st)) =
     map (\<lambda>t. if rt_id t = k \<and> live t then cancel_values now reason t else t) (st_tasks st)"
proof -
  have "st_tasks (fst (repo_cancel_caller_disconnected now k reason st)) =
      map (\<lambda>t. if rt_id t = k \<and> live t then cancel_values now reason t else t) (st_tasks st)"
    by (simp add: repo_cancel_caller_disconnected_def split_beta update_tasks_tasks live_def task_state_defs
        cong: if_cong)
  then show ?thesis
    by (simp add: cancel_caller_disconnected_def split_beta Let_def split: option.split)
qed

lemma cancel_values_dead: "\<not> live (cancel_values now reason t)"
  by (simp add: live_def)

lemma rowcount_kill:
  assumes "\<And>t. c t \<Longrightarrow> \<not> P (f t)"
  shows "rowcount P (map (\<lambda>t. if c t then f t else t) rows) \<le> rowcount P rows"
    and "\<exists>t \<in> set rows. c t \<and> P t \<Longrightarrow> rowcount P (map (\<lambda>t. if c t then f t else t) rows) < rowcount P rows"
proof -
  show le: "rowcount P (map (\<lambda>t. if c t then f t else t) rows) \<le> rowcount P rows" for rows
    using assms by (induction rows) auto
  show "\<exists>t \<in> set rows. c t \<and> P t \<Longrightarrow> rowcount P (map (\<lambda>t. if c t then f t else t) rows) < rowcount P rows"
  proof (induction rows)
    case (Cons r rs)
    then show ?case using assms le [of rs] by (cases "c r \<and> P r") auto
  qed simp
qed

lemma cancel_one_live: "rowcount live (st_tasks (fst (cancel_one now reason k p))) \<le> rowcount live (st_tasks (fst p))"
  using rowcount_kill(1) [of "\<lambda>t. rt_id t = k \<and> live t" live "cancel_values now reason"]
  by (simp add: cancel_one_def split_beta Let_def cancel_tasks cancel_values_dead)

lemma cancel_fold_live:
  "rowcount live (st_tasks (fst (fold (cancel_one now reason) ks p))) \<le> rowcount live (st_tasks (fst p))"
proof (induction ks arbitrary: p)
  case (Cons k ks)
  from Cons.IH [of "cancel_one now reason k p"] cancel_one_live [of now reason k p] show ?case by simp
qed simp

lemma cancel_round_decreases:
  assumes "live_ids st \<noteq> []"
  shows "rowcount live (st_tasks (fst (fold (cancel_one now reason) (live_ids st) (st, n))))
    < rowcount live (st_tasks st)"
proof -
  obtain k ks where ks: "live_ids st = k # ks" using assms by (cases "live_ids st") auto
  then have "k \<in> set (live_ids st)" by simp
  then have ex: "\<exists>t \<in> set (st_tasks st). (rt_id t = k \<and> live t) \<and> live t"
    unfolding live_ids_def by (elim in_set_takeD [elim_format]) auto
  have "rowcount live (st_tasks (fst (cancel_one now reason k (st, n)))) < rowcount live (st_tasks st)"
    using rowcount_kill(2) [of "\<lambda>t. rt_id t = k \<and> live t" live "cancel_values now reason", OF _ ex]
    by (simp add: cancel_one_def split_beta Let_def cancel_tasks cancel_values_dead)
  with cancel_fold_live [of now reason ks "cancel_one now reason k (st, n)"] ks show ?thesis by simp
qed

text \<open>The \<open>while True\<close> loop: every round cancels, so it ends.\<close>

function cancel_loop :: "instant \<Rightarrow> ustr \<Rightarrow> store \<Rightarrow> nat \<Rightarrow> store \<times> nat" where
  "cancel_loop now reason st cancelled =
     (if live_ids st = [] then (st, cancelled)
      else
        (let p = fold (cancel_one now reason) (live_ids st) (st, cancelled)
         in cancel_loop now reason (fst p) (snd p)))"
  by pat_completeness auto
termination
  by (relation "measure (\<lambda>(now, reason, st, cancelled). rowcount live (st_tasks st))")
    (simp_all add: case_prod_beta cancel_round_decreases)

declare cancel_loop.simps [simp del]

definition cancel_active_tasks :: "instant \<Rightarrow> ustr \<Rightarrow> store \<Rightarrow> store \<times> nat" where
  "cancel_active_tasks now reason st = cancel_loop now reason st 0"

section \<open>What shutdown leaves\<close>

text \<open>
  Any number of legal steps on the tasks, as \<open>tasks_step\<close> is one: it keeps the conversations
  and moves every row forward.
\<close>

definition evolves :: "store \<Rightarrow> store \<Rightarrow> bool" where
  "evolves = tasks_step\<^sup>*\<^sup>*"

lemma evolves_refl [simp]: "evolves st st"
  by (simp add: evolves_def)

lemma evolves_step: "evolves a b \<Longrightarrow> tasks_step b c \<Longrightarrow> evolves a c"
  unfolding evolves_def by (rule rtranclp.rtrancl_into_rtrancl)

lemma evolves_trans: "evolves a b \<Longrightarrow> evolves b c \<Longrightarrow> evolves a c"
  unfolding evolves_def by (rule rtranclp_trans)

lemma evolves_later: "evolves a b \<Longrightarrow> later a b"
  unfolding evolves_def by (induction rule: rtranclp_induct) (auto intro: later_trans tasks_step_later)

lemma evolves_contexts: "evolves a b \<Longrightarrow> contexts_ok a \<Longrightarrow> contexts_ok b"
  unfolding evolves_def by (induction rule: rtranclp_induct) (auto intro: contexts_step)

definition settled :: "store \<Rightarrow> nat \<Rightarrow> store \<times> nat \<Rightarrow> bool" where
  "settled st0 n0 p \<longleftrightarrow> gateway_ok (fst p) \<and> evolves st0 (fst p) \<and>
     snd p + rowcount live (st_tasks (fst p)) = n0"

lemma open_is_live: "tasks_ok st \<Longrightarrow> t \<in> set (st_tasks st) \<Longrightarrow> live t \<longleftrightarrow> rt_slot_released_at t = None"
  by (auto simp: tasks_ok_def task_ok_def live_def)

lemma cancel_one_settled:
  assumes "settled st0 n0 p"
  shows "settled st0 n0 (cancel_one now reason k p)"
proof -
  obtain st n where p: "p = (st, n)" by fastforce
  obtain st' won where c: "cancel_caller_disconnected now k reason st = (st', won)" by fastforce
  have g: "gateway_ok st" "evolves st0 st" "n + rowcount live (st_tasks st) = n0"
    using assms by (simp_all add: settled_def p)
  have ok: "tasks_ok st" using g(1) by (simp add: gateway_ok_def)
  then have d: "distinct (map rt_id (st_tasks st))" by (simp add: tasks_ok_def)
  note k = cancel_ok [OF g(1) c]
  have t': "st_tasks st' = map (\<lambda>t. if rt_id t = k \<and> live t then cancel_values now reason t else t) (st_tasks st)"
    using cancel_tasks [of now k reason st] c by simp
  have "of_bool won + rowcount live (st_tasks st') = rowcount live (st_tasks st)"
  proof (cases won)
    case False
    with k show ?thesis by simp
  next
    case True
    then obtain t where t: "get_task st k = Some t" "rt_slot_released_at t = None"
      using k by (cases "get_task st k") auto
    have m: "t \<in> set (st_tasks st)" "rt_id t = k" using get_task_Some [OF t(1)] by simp_all
    then have l: "live t" using open_is_live [OF ok] t(2) by blast
    show ?thesis
      using rowcount_update_one [OF d m, of live live "cancel_values now reason", OF l] True l
      by (simp add: t' cancel_values_dead)
  qed
  then show ?thesis using k g by (simp add: settled_def p cancel_one_def c evolves_step)
qed

lemma cancel_fold_settled: "settled st0 n0 p \<Longrightarrow> settled st0 n0 (fold (cancel_one now reason) ks p)"
  by (induction ks arbitrary: p) (simp_all add: cancel_one_settled)

lemma cancel_loop_settled:
  "settled st0 n0 (st, n) \<Longrightarrow>
     settled st0 n0 (cancel_loop now reason st n) \<and> live_ids (fst (cancel_loop now reason st n)) = []"
proof (induction now reason st n rule: cancel_loop.induct)
  case (1 now reason st n)
  show ?case
  proof (cases "live_ids st = []")
    case True
    with "1.prems" show ?thesis by (simp add: cancel_loop.simps [of now reason st n])
  next
    case False
    let ?p = "fold (cancel_one now reason) (live_ids st) (st, n)"
    have "settled st0 n0 (fst ?p, snd ?p)" using cancel_fold_settled [OF "1.prems"] by simp
    from "1.IH" [OF False refl this] False show ?thesis
      by (simp add: cancel_loop.simps [of now reason st n] Let_def)
  qed
qed

lemma no_live_ids: "live_ids st = [] \<longleftrightarrow> rowcount live (st_tasks st) = 0"
  by (auto simp: live_ids_def rowcount_def)

text \<open>
  C19. Startup and shutdown leave nothing open. The cancellation loop ends, whatever the store
  holds; it cancels every task that was open and counts each once, so afterwards no task is open,
  no user holds a slot and every counter is zero; finished tasks keep their result, and every
  conversation stays intact.
\<close>

theorem recovery_closes_everything:
  assumes "gateway_ok st" "cancel_active_tasks now reason st = (st', n)"
  shows "gateway_ok st' \<and> later st st' \<and> (contexts_ok st \<longrightarrow> contexts_ok st') \<and>
    n = rowcount live (st_tasks st) \<and>
    (\<forall>t \<in> set (st_tasks st'). is_terminal (rt_state t) \<and> rt_slot_released_at t \<noteq> None) \<and>
    (\<forall>x \<in> set (st_users st'). us_active_task_count x = 0)"
proof -
  have "settled st (rowcount live (st_tasks st)) (st, 0)" using assms(1) by (simp add: settled_def)
  from cancel_loop_settled [OF this, of now reason]
  have s: "settled st (rowcount live (st_tasks st)) (st', n)" "live_ids st' = []"
    using assms(2) by (simp_all add: cancel_active_tasks_def)
  have ok: "tasks_ok st'" "ledger_ok st'" "evolves st st'" "gateway_ok st'"
    using s(1) by (simp_all add: settled_def gateway_ok_def)
  have z: "rowcount live (st_tasks st') = 0" using s(2) no_live_ids by blast
  then have rel: "rt_slot_released_at t \<noteq> None" if "t \<in> set (st_tasks st')" for t
    using open_is_live [OF ok(1) that] that by (simp add: rowcount_0_iff)
  then have trm: "is_terminal (rt_state t)" if "t \<in> set (st_tasks st')" for t
    using rel [OF that] that ok(1) unfolding tasks_ok_def task_ok_def by blast
  have "us_active_task_count x = 0" if "x \<in> set (st_users st')" for x
  proof -
    have "held_slots (us_id x) st' = 0" using rel by (auto simp: held_slots_def rowcount_0_iff holding_def)
    with ledger_user [OF ok(2) that] show ?thesis by (simp add: user_ok_def)
  qed
  moreover have "n = rowcount live (st_tasks st)" using s(1) z by (simp add: settled_def)
  ultimately show ?thesis using ok evolves_later evolves_contexts rel trm by blast
qed

theorem recovery_closes_everything_witness:
  "\<exists>st'. cancel_active_tasks 5 (u ''process_restarted'') sample_store = (st', 1) \<and>
     (\<forall>x \<in> set (st_users st'). us_active_task_count x = 0)"
proof -
  obtain st' n where c: "cancel_active_tasks 5 (u ''process_restarted'') sample_store = (st', n)" by fastforce
  have "gateway_ok sample_store" by (simp add: gateway_ok_def sample_ledger_ok)
  moreover have "rowcount live (st_tasks sample_store) = 1" by (simp add: live_def task_state_defs)
  ultimately show ?thesis using recovery_closes_everything [OF _ c] c by auto
qed

section \<open>What a round of the sweeper does\<close>

definition timed_out_row :: "instant \<Rightarrow> request_task \<Rightarrow> request_task" where
  "timed_out_row now t =
     with_error (terminal_public_error_code (sweep_target t)) (terminal_values now (sweep_target t) t)"

definition swept_row :: "instant \<Rightarrow> request_task \<Rightarrow> request_task" where
  "swept_row now t = cancel_values now (u ''stale_output_swept'') t"

lemma swept_ids [simp]: "rt_id (timed_out_row now t) = rt_id t" "rt_id (swept_row now t) = rt_id t"
  by (simp_all add: timed_out_row_def swept_row_def terminal_values_id cancel_values_def)

lemma swept_closed:
  "rt_slot_released_at (timed_out_row now t) \<noteq> None" "rt_slot_released_at (swept_row now t) \<noteq> None"
  by (simp_all add: timed_out_row_def swept_row_def terminal_values_released)

lemma batch_props:
  "set (batch c st) \<subseteq> {t \<in> set (st_tasks st). c t}"
  "tasks_ok st \<Longrightarrow> distinct (map rt_id (batch c st))"
  "length (batch c st) = min 200 (rowcount c (st_tasks st))"
proof -
  show "set (batch c st) \<subseteq> {t \<in> set (st_tasks st). c t}" by (auto simp: batch_def dest: in_set_takeD)
  show "length (batch c st) = min 200 (rowcount c (st_tasks st))"
    by (simp add: batch_def SWEEP_BATCH_LIMIT_def rowcount_def)
  assume "tasks_ok st"
  then have "distinct (map rt_id (filter c (st_tasks st)))" by (simp add: tasks_ok_def distinct_map_filter)
  then have "distinct (map rt_id (sort_key rt_id (filter c (st_tasks st))))" by (simp add: distinct_map)
  then show "distinct (map rt_id (batch c st))" by (simp add: batch_def flip: take_map)
qed

lemma overdue_states: "overdue now t \<Longrightarrow> rt_state t \<in> {WAITING_HUMAN, FORWARDING_LLM}"
  by (auto simp: overdue_def)

lemma sweep_sources: "overdue now t \<Longrightarrow> release_sources (sweep_target t) (Some [rt_state t])"
  using overdue_states [of now t] by (auto simp: release_sources_def sweep_target_def task_state_defs)

text \<open>One row of the first batch, whatever happened to the other rows before.\<close>

lemma sweep_overdue_step:
  assumes "gateway_ok st" "t \<in> set (st_tasks st)" "overdue now t"
  shows "\<exists>st' c'. sweep_overdue now t (st, c) = (st', c') \<and> gateway_ok st' \<and> tasks_step st st' \<and>
    st_tasks st' = map (\<lambda>x. if x = t then timed_out_row now x else x) (st_tasks st) \<and>
    sc_timed_out c' + sc_failed c' = Suc (sc_timed_out c + sc_failed c) \<and> sc_cancelled c' = sc_cancelled c"
proof -
  let ?s = "sweep_target t"
  have ok: "tasks_ok st" using assms(1) by (simp add: gateway_ok_def)
  then have d: "distinct (map rt_id (st_tasks st))" by (simp add: tasks_ok_def)
  have g: "get_task st (rt_id t) = Some t" using get_task_member [OF d assms(2)] .
  have src: "release_sources ?s (Some [rt_state t])" by (rule sweep_sources [OF assms(3)])
  have trm: "is_terminal ?s" using src by (simp add: release_sources_def)
  have cc: "can_close (Some [rt_state t]) t" using assms(3) by (simp add: can_close_def source_ok_def overdue_def)
  obtain st' where f: "finalize now t ?s (Some [rt_state t]) None st = Inr (st', True)"
      "st_tasks st' = map (\<lambda>x. if rt_id x = rt_id t
         then with_error (public_code_of ?s None) (terminal_values now ?s x) else x) (st_tasks st)"
    using finalize_win [OF ok trm g cc] by blast
  have own: "rt_owner_user_id x = rt_owner_user_id t" if "get_task st (rt_id t) = Some x" for x
    using that g by simp
  note k = finalize_ok [OF assms(1) src f(1) own]
  have same: "rt_id x = rt_id t \<longleftrightarrow> x = t" if "x \<in> set (st_tasks st)" for x
    using get_task_member [OF d that] g by (metis option.inject)
  have "st_tasks st' = map (\<lambda>x. if x = t then timed_out_row now x else x) (st_tasks st)"
    unfolding f(2) using same by (intro map_cong) (auto simp: timed_out_row_def public_code_of_def)
  then show ?thesis using k(1,2) f(1) by (simp add: sweep_overdue_def)
qed

lemma sweep_stale_step:
  assumes "gateway_ok st" "t \<in> set (st_tasks st)" "stale_output now t"
  shows "\<exists>st' c'. sweep_stale now t (st, c) = (st', c') \<and> gateway_ok st' \<and> tasks_step st st' \<and>
    st_tasks st' = map (\<lambda>x. if x = t then swept_row now x else x) (st_tasks st) \<and>
    sc_cancelled c' = Suc (sc_cancelled c) \<and> sc_timed_out c' = sc_timed_out c \<and> sc_failed c' = sc_failed c"
proof -
  have ok: "tasks_ok st" using assms(1) by (simp add: gateway_ok_def)
  then have d: "distinct (map rt_id (st_tasks st))" by (simp add: tasks_ok_def)
  have g: "get_task st (rt_id t) = Some t" using get_task_member [OF d assms(2)] .
  have r: "rt_slot_released_at t = None" using assms(3) by (simp add: stale_output_def)
  obtain st' where f: "cancel_caller_disconnected now (rt_id t) (u ''stale_output_swept'') st = (st', True)"
      "st_tasks st' = map (\<lambda>x. if rt_id x = rt_id t then cancel_values now (u ''stale_output_swept'') x else x) (st_tasks st)"
    using cancel_win [OF ok g r] by blast
  note k = cancel_ok [OF assms(1) f(1)]
  have same: "rt_id x = rt_id t \<longleftrightarrow> x = t" if "x \<in> set (st_tasks st)" for x
    using get_task_member [OF d that] g by (metis option.inject)
  have "st_tasks st' = map (\<lambda>x. if x = t then swept_row now x else x) (st_tasks st)"
    unfolding f(2) using same by (intro map_cong) (auto simp: swept_row_def)
  then show ?thesis using k f(1) by (simp add: sweep_stale_def)
qed

text \<open>Replacing the rows of a batch one by one is replacing them at once.\<close>

lemma map_replace:
  assumes "distinct (map rt_id (t # ts))" "\<And>x. rt_id (f x) = rt_id x"
  shows "map (\<lambda>x. if x \<in> set ts then f x else x) (map (\<lambda>x. if x = t then f x else x) rows) =
    map (\<lambda>x. if x \<in> set (t # ts) then f x else x) rows"
proof -
  have "f t \<notin> set ts" using assms by (metis distinct.simps(2) image_eqI list.set_map list.simps(9))
  then show ?thesis using assms(1) by auto
qed

text \<open>
  The interface of a batch: a step that handles one selected row on any store that still has it,
  replaces just this row, and adds one to its tally.
\<close>

locale row_sweep =
  fixes step :: "request_task \<Rightarrow> store \<times> 'c \<Rightarrow> store \<times> 'c"
    and row :: "request_task \<Rightarrow> request_task"
    and chosen :: "request_task \<Rightarrow> bool"
    and tally :: "'c \<Rightarrow> nat"
    and other :: "'c \<Rightarrow> nat"
  assumes row_id: "rt_id (row t) = rt_id t"
    and step_ok: "gateway_ok st \<Longrightarrow> t \<in> set (st_tasks st) \<Longrightarrow> chosen t \<Longrightarrow>
      \<exists>st' c'. step t (st, c) = (st', c') \<and> gateway_ok st' \<and> tasks_step st st' \<and>
        st_tasks st' = map (\<lambda>x. if x = t then row x else x) (st_tasks st) \<and>
        tally c' = Suc (tally c) \<and> other c' = other c"
begin

lemma fold_ok:
  assumes "gateway_ok st" "distinct (map rt_id ts)" "set ts \<subseteq> {t \<in> set (st_tasks st). chosen t}"
  shows "\<exists>st' c'. fold step ts (st, c) = (st', c') \<and> gateway_ok st' \<and> evolves st st' \<and>
    st_tasks st' = map (\<lambda>x. if x \<in> set ts then row x else x) (st_tasks st) \<and>
    tally c' = tally c + length ts \<and> other c' = other c"
  using assms
proof (induction ts arbitrary: st c)
  case Nil
  then show ?case by simp
next
  case (Cons t ts)
  have t: "t \<in> set (st_tasks st)" "chosen t" using Cons.prems(3) by simp_all
  obtain st1 c1 where s: "step t (st, c) = (st1, c1)" "gateway_ok st1" "tasks_step st st1"
      "st_tasks st1 = map (\<lambda>x. if x = t then row x else x) (st_tasks st)"
      "tally c1 = Suc (tally c)" "other c1 = other c"
    using step_ok [OF Cons.prems(1) t] by blast
  have keep: "set ts \<subseteq> {t \<in> set (st_tasks st1). chosen t}"
  proof
    fix x assume x: "x \<in> set ts"
    then have "x \<noteq> t" using Cons.prems(2) by auto
    moreover have m: "x \<in> set (st_tasks st)" "chosen x" using x Cons.prems(3) by auto
    ultimately have "x \<in> set (st_tasks st1)"
      unfolding s(4) set_map using imageI [OF m(1), of "\<lambda>x. if x = t then row x else x"] by simp
    with m(2) show "x \<in> {t \<in> set (st_tasks st1). chosen t}" by simp
  qed
  have d: "distinct (map rt_id ts)" using Cons.prems(2) by simp
  obtain st2 c2 where r: "fold step ts (st1, c1) = (st2, c2)" "gateway_ok st2" "evolves st1 st2"
      "st_tasks st2 = map (\<lambda>x. if x \<in> set ts then row x else x) (st_tasks st1)"
      "tally c2 = tally c1 + length ts" "other c2 = other c1"
    using Cons.IH [OF s(2) d keep, of c1] by blast
  have "st_tasks st2 = map (\<lambda>x. if x \<in> set (t # ts) then row x else x) (st_tasks st)"
    unfolding r(4) s(4) by (rule map_replace [OF Cons.prems(2) row_id])
  moreover have "evolves st st2" using evolves_trans [OF evolves_step [OF evolves_refl s(3)] r(3)] .
  ultimately show ?case using r(1,2,5,6) s(1,5,6) by simp
qed

end

interpretation deadline_sweep:
  row_sweep "sweep_overdue now" "timed_out_row now" "overdue now"
    "\<lambda>c. sc_timed_out c + sc_failed c" sc_cancelled for now
  by unfold_locales (simp, rule sweep_overdue_step)

interpretation output_sweep:
  row_sweep "sweep_stale now" "swept_row now" "stale_output now"
    sc_cancelled "\<lambda>c. sc_timed_out c + sc_failed c" for now
proof
  fix now st t c assume "gateway_ok st" "t \<in> set (st_tasks st)" "stale_output now t"
  from sweep_stale_step [OF this, of c]
  show "\<exists>st' c'. sweep_stale now t (st, c) = (st', c') \<and> gateway_ok st' \<and> tasks_step st st' \<and>
        st_tasks st' = map (\<lambda>x. if x = t then swept_row now x else x) (st_tasks st) \<and>
        sc_cancelled c' = Suc (sc_cancelled c) \<and> sc_timed_out c' + sc_failed c' = sc_timed_out c + sc_failed c"
    by (elim exE conjE) simp
qed simp

lemma stale_not_overdue: "stale_output now t \<Longrightarrow> \<not> overdue now t"
  by (auto simp: stale_output_def overdue_def)

lemma closed_not_stale: "rt_slot_released_at t \<noteq> None \<Longrightarrow> \<not> stale_output now t \<and> \<not> overdue now t"
  by (simp add: stale_output_def overdue_def)

lemma batch_after:
  assumes "st_tasks st1 = map (\<lambda>x. if x \<in> set (batch (overdue now) st) then timed_out_row now x else x) (st_tasks st)"
  shows "batch (stale_output now) st1 = batch (stale_output now) st"
proof -
  have "filter (stale_output now) (map (\<lambda>x. if x \<in> B then timed_out_row now x else x) rows) =
      filter (stale_output now) rows" if "\<forall>x \<in> B. overdue now x" for B rows
    using that closed_not_stale [OF swept_closed(1), of now now] stale_not_overdue [of now] by (induction rows) auto
  from this [of "set (batch (overdue now) st)"] have "filter (stale_output now) (st_tasks st1) = filter (stale_output now) (st_tasks st)"
    unfolding assms using batch_props(1) [of "overdue now" st] by blast
  then show ?thesis by (simp add: batch_def)
qed

lemma sweep_once_result:
  assumes "gateway_ok st" "sweep_once now st = (st', counts)"
  shows "gateway_ok st' \<and> evolves st st' \<and>
    st_tasks st' = map (\<lambda>x. if x \<in> set (batch (overdue now) st) then timed_out_row now x
       else if x \<in> set (batch (stale_output now) st) then swept_row now x else x) (st_tasks st) \<and>
    sc_timed_out counts + sc_failed counts = min 200 (rowcount (overdue now) (st_tasks st)) \<and>
    sc_cancelled counts = min 200 (rowcount (stale_output now) (st_tasks st))"
proof -
  let ?O = "batch (overdue now) st" and ?S = "batch (stale_output now) st"
  let ?c0 = "\<lparr>sc_timed_out = 0, sc_failed = 0, sc_cancelled = 0\<rparr>"
  have ok: "tasks_ok st" using assms(1) by (simp add: gateway_ok_def)
  obtain st1 c1 where a: "fold (sweep_overdue now) ?O (st, ?c0) = (st1, c1)" "gateway_ok st1" "evolves st st1"
      "st_tasks st1 = map (\<lambda>x. if x \<in> set ?O then timed_out_row now x else x) (st_tasks st)"
      "sc_timed_out c1 + sc_failed c1 = sc_timed_out ?c0 + sc_failed ?c0 + length ?O"
      "sc_cancelled c1 = sc_cancelled ?c0"
    using deadline_sweep.fold_ok [OF assms(1) batch_props(2) [OF ok] batch_props(1), of now ?c0] by blast
  note b1 = batch_after [OF a(4)]
  have ok1: "tasks_ok st1" using a(2) by (simp add: gateway_ok_def)
  obtain st2 c2 where b: "fold (sweep_stale now) ?S (st1, c1) = (st2, c2)" "gateway_ok st2" "evolves st1 st2"
      "st_tasks st2 = map (\<lambda>x. if x \<in> set ?S then swept_row now x else x) (st_tasks st1)"
      "sc_cancelled c2 = sc_cancelled c1 + length ?S" "sc_timed_out c2 + sc_failed c2 = sc_timed_out c1 + sc_failed c1"
    using output_sweep.fold_ok [OF a(2) batch_props(2) [OF ok1] batch_props(1), of now c1] unfolding b1 by blast
  have e: "st' = st2" "counts = c2" using assms(2) by (simp_all add: sweep_once_def a(1) b1 b(1))
  have "timed_out_row now x \<notin> set ?S" for x
    using closed_not_stale [OF swept_closed(1)] batch_props(1) [of "stale_output now" st] by blast
  then have "st_tasks st2 = map (\<lambda>x. if x \<in> set ?O then timed_out_row now x
       else if x \<in> set ?S then swept_row now x else x) (st_tasks st)"
    unfolding b(4) a(4) by simp
  moreover have "evolves st st2" using evolves_trans [OF a(3) b(3)] .
  ultimately show ?thesis using a(5,6) b(2,5,6) e batch_props(3) by simp
qed

text \<open>What is left of a kind of row when the rows of its batch are closed.\<close>

lemma rowcount_split: "rowcount c rows = rowcount (\<lambda>x. c x \<and> P x) rows + rowcount (\<lambda>x. c x \<and> \<not> P x) rows"
  by (induction rows) simp_all

lemma rowcount_members:
  assumes "distinct rows" "distinct b" "set b \<subseteq> {x \<in> set rows. c x}"
  shows "rowcount (\<lambda>x. c x \<and> x \<in> set b) rows = length b"
proof -
  have "set (filter (\<lambda>x. c x \<and> x \<in> set b) rows) = set b" using assms(3) by auto
  then show ?thesis
    using distinct_card [of "filter (\<lambda>x. c x \<and> x \<in> set b) rows"] distinct_card [OF assms(2)] assms(1)
    by (simp add: rowcount_def)
qed

lemma rowcount_closed:
  assumes "distinct rows" "set b \<subseteq> {x \<in> set rows. c x}" "distinct b"
    "\<And>x. x \<in> set b \<Longrightarrow> \<not> c (f x)" "\<And>x. x \<in> set rows \<Longrightarrow> x \<notin> set b \<Longrightarrow> c (f x) \<longleftrightarrow> c x"
  shows "rowcount c (map f rows) = rowcount c rows - length b"
proof -
  have "rowcount c (map f rows) = rowcount (\<lambda>x. c (f x)) rows" by (simp add: rowcount_def filter_map comp_def)
  also have "\<dots> = rowcount (\<lambda>x. c x \<and> x \<notin> set b) rows"
    by (rule rowcount_cong) (use assms(4,5) in blast)
  finally show ?thesis
    using rowcount_split [of c rows "\<lambda>x. x \<in> set b"] rowcount_members [OF assms(1,3,2)] by simp
qed

lemma sweep_backlog:
  assumes "gateway_ok st" "sweep_once now st = (st', counts)"
  shows "rowcount (overdue now) (st_tasks st') = rowcount (overdue now) (st_tasks st) - 200"
    and "rowcount (stale_output now) (st_tasks st') = rowcount (stale_output now) (st_tasks st) - 200"
proof -
  let ?O = "batch (overdue now) st" and ?S = "batch (stale_output now) st"
  let ?f = "\<lambda>x. if x \<in> set ?O then timed_out_row now x else if x \<in> set ?S then swept_row now x else x"
  have ok: "tasks_ok st" using assms(1) by (simp add: gateway_ok_def)
  then have d: "distinct (st_tasks st)" by (simp add: tasks_ok_def distinct_map)
  have db: "distinct (batch c st)" for c using batch_props(2) [OF ok] by (simp add: distinct_map)
  have t: "st_tasks st' = map ?f (st_tasks st)" using sweep_once_result [OF assms] by blast
  have inO: "overdue now x" if "x \<in> set ?O" for x using that batch_props(1) by blast
  have inS: "stale_output now x" if "x \<in> set ?S" for x using that batch_props(1) by blast
  have closed: "\<not> overdue now (timed_out_row now x) \<and> \<not> stale_output now (timed_out_row now x)"
      "\<not> overdue now (swept_row now x) \<and> \<not> stale_output now (swept_row now x)" for x
    using closed_not_stale swept_closed by blast+
  have "rowcount (overdue now) (map ?f (st_tasks st)) = rowcount (overdue now) (st_tasks st) - length ?O"
    by (rule rowcount_closed [OF d batch_props(1) db]) (use inS stale_not_overdue closed in auto)
  then show "rowcount (overdue now) (st_tasks st') = rowcount (overdue now) (st_tasks st) - 200"
    by (simp add: t batch_props(3))
  have "rowcount (stale_output now) (map ?f (st_tasks st)) = rowcount (stale_output now) (st_tasks st) - length ?S"
    by (rule rowcount_closed [OF d batch_props(1) db]) (use inO stale_not_overdue closed in auto)
  then show "rowcount (stale_output now) (st_tasks st') = rowcount (stale_output now) (st_tasks st) - 200"
    by (simp add: t batch_props(3))
qed

lemma sweep_keeps:
  assumes "gateway_ok st" "sweep_once now st = (st', counts)" "get_task st k = Some t"
    "\<not> overdue now t" "\<not> stale_output now t"
  shows "get_task st' k = Some t"
proof -
  let ?f = "\<lambda>x. if x \<in> set (batch (overdue now) st) then timed_out_row now x
       else if x \<in> set (batch (stale_output now) st) then swept_row now x else x"
  have t: "st_tasks st' = map ?f (st_tasks st)" using sweep_once_result [OF assms(1,2)] by blast
  have nb: "t \<notin> set (batch (overdue now) st)" "t \<notin> set (batch (stale_output now) st)"
    using batch_props(1) assms(4,5) by blast+
  have "get_task st' k = map_option ?f (get_task st k)"
    unfolding get_task_def t by (rule get_row_map) simp
  then show ?thesis using assms(3) nb by simp
qed

text \<open>
  C17. One round of the sweeper closes exactly the abandoned tasks. The first two hundred overdue
  ones time out, or fail when they were being forwarded; the first two hundred whose output was
  never taken are cancelled; the counts it reports are those numbers; every other row stays as
  it is, and slots, counters and conversations stay in order.
\<close>

theorem sweep_exact:
  assumes "gateway_ok st" "sweep_once now st = (st', counts)"
  shows "gateway_ok st' \<and> later st st' \<and> (contexts_ok st \<longrightarrow> contexts_ok st') \<and>
    st_tasks st' = map (\<lambda>t. if t \<in> set (batch (overdue now) st) then timed_out_row now t
       else if t \<in> set (batch (stale_output now) st) then swept_row now t else t) (st_tasks st) \<and>
    sc_timed_out counts + sc_failed counts = min 200 (rowcount (overdue now) (st_tasks st)) \<and>
    sc_cancelled counts = min 200 (rowcount (stale_output now) (st_tasks st))"
  using sweep_once_result [OF assms] evolves_later evolves_contexts by blast

lemma sample_gateway: "gateway_ok sample_store"
  by (simp add: gateway_ok_def sample_ledger_ok)

lemma sample_overdue: "overdue (seconds 61) sample_task" "\<not> stale_output (seconds 61) sample_task"
  by (simp_all add: overdue_def deadline_by_def seconds_def stale_output_def)

theorem sweep_exact_witness:
  "\<exists>st' counts. sweep_once (seconds 61) sample_store = (st', counts) \<and>
     map rt_state (st_tasks st') = [TIMED_OUT] \<and> sc_timed_out counts + sc_failed counts = 1"
proof -
  obtain st' counts where s: "sweep_once (seconds 61) sample_store = (st', counts)" by fastforce
  have b: "batch (overdue (seconds 61)) sample_store = [sample_task]"
    by (simp add: batch_def SWEEP_BATCH_LIMIT_def sample_overdue)
  have "rt_state (timed_out_row (seconds 61) sample_task) = TIMED_OUT"
    by (simp add: timed_out_row_def sweep_target_def terminal_values_def bump_def)
  with sweep_exact [OF sample_gateway s] s show ?thesis
    by (simp add: b sample_overdue)
qed

definition sweeps :: "nat \<Rightarrow> instant \<Rightarrow> store \<Rightarrow> store" where
  "sweeps n now st = ((\<lambda>st. fst (sweep_once now st)) ^^ n) st"

lemma sweeps_Suc: "sweeps (Suc n) now st = fst (sweep_once now (sweeps n now st))"
  by (simp add: sweeps_def)

lemma sweeps_backlog:
  assumes "gateway_ok st"
  shows "gateway_ok (sweeps n now st) \<and> evolves st (sweeps n now st) \<and>
    rowcount (overdue now) (st_tasks (sweeps n now st)) = rowcount (overdue now) (st_tasks st) - 200 * n \<and>
    rowcount (stale_output now) (st_tasks (sweeps n now st)) = rowcount (stale_output now) (st_tasks st) - 200 * n"
proof (induction n)
  case 0
  then show ?case using assms by (simp add: sweeps_def)
next
  case (Suc n)
  obtain st' counts where s: "sweep_once now (sweeps n now st) = (st', counts)" by fastforce
  have g: "gateway_ok (sweeps n now st)" using Suc by blast
  have e: "evolves st st'" using Suc sweep_once_result [OF g s] evolves_trans by blast
  show ?case using Suc sweep_once_result [OF g s] sweep_backlog [OF g s] e s
    by (simp add: sweeps_Suc add.commute [of 200])
qed

text \<open>
  C18. The sweeper converges: however many tasks were abandoned, enough rounds leave none. After
  \<open>n\<close> rounds at most two hundred times \<open>n\<close> tasks of each kind have been closed, so when the backlog
  is no larger no task is overdue and no output is stale, and each user's slots are again
  exactly the tasks that are open.
\<close>

theorem sweep_converges:
  assumes "gateway_ok st" "rowcount (overdue now) (st_tasks st) \<le> 200 * n"
    "rowcount (stale_output now) (st_tasks st) \<le> 200 * n"
  shows "(\<forall>t \<in> set (st_tasks (sweeps n now st)). \<not> overdue now t \<and> \<not> stale_output now t) \<and>
    gateway_ok (sweeps n now st) \<and> later st (sweeps n now st)"
proof -
  note b = sweeps_backlog [OF assms(1), of n now]
  have "rowcount (overdue now) (st_tasks (sweeps n now st)) = 0"
    "rowcount (stale_output now) (st_tasks (sweeps n now st)) = 0" using b assms(2,3) by simp_all
  then have "\<forall>t \<in> set (st_tasks (sweeps n now st)). \<not> overdue now t \<and> \<not> stale_output now t"
    by (simp add: rowcount_0_iff)
  with b evolves_later show ?thesis by blast
qed

theorem sweep_converges_witness:
  "\<not> list_ex (overdue (seconds 61)) (st_tasks (sweeps 1 (seconds 61) sample_store))"
  using sweep_converges [OF sample_gateway, of "seconds 61" 1] by (auto simp: sample_overdue list_ex_iff)

text \<open>
  The sweeper never overtakes a reply. It acts on the row it read; if the task has moved to
  another state in the meantime (a reply was accepted, or forwarding began) it changes nothing,
  neither the store nor its counts.
\<close>

theorem sweep_yields:
  assumes "tasks_ok st" "overdue now t" "get_task st (rt_id t) = Some t'" "rt_state t' \<noteq> rt_state t"
  shows "sweep_overdue now t (st, counts) = (st, counts)"
proof -
  have "is_terminal (sweep_target t)" using sweep_sources [OF assms(2)] by (simp add: release_sources_def)
  moreover have "\<not> can_close (Some [rt_state t]) t'" using assms(4) by (simp add: can_close_def source_ok_def)
  ultimately have "finalize now t (sweep_target t) (Some [rt_state t]) None st = Inr (st, False)"
    using assms(3) by (intro finalize_miss [OF assms(1)]) simp_all
  then show ?thesis by (simp add: sweep_overdue_def Let_def)
qed

theorem sweep_yields_witness:
  "let st = fst (first_reply_wins 5 1 7 1 sample_draft sample_store); c = \<lparr>sc_timed_out = 0, sc_failed = 0, sc_cancelled = 0\<rparr>
   in get_task st 1 \<noteq> Some sample_task \<and> sweep_overdue (seconds 61) sample_task (st, c) = (st, c)"
proof -
  let ?st = "fst (first_reply_wins 5 1 7 1 sample_draft sample_store)"
  have ok: "tasks_ok ?st" by (rule first_reply_wins_step(2)) simp
  have g: "get_task ?st (rt_id sample_task) = Some (ready_values 5 sample_draft sample_task)"
    by (subst first_reply_wins_tasks) simp_all
  have ne: "rt_state (ready_values 5 sample_draft sample_task) \<noteq> rt_state sample_task" by simp
  then have "ready_values 5 sample_draft sample_task \<noteq> sample_task" by metis
  with sweep_yields [OF ok sample_overdue(1) g ne] g show ?thesis by (simp add: Let_def)
qed

end
