(* ===== verification/Task_Service.thy ===== *)
theory Task_Service
  imports Samples Caller_Tools
begin

text \<open>
  \<open>TaskService\<close> (\<open>app/services/task_service.py\<close>) with its endpoints of \<open>app/api/tasks.py\<close>:
  saving, updating and deleting drafts, and the atomic submission of a reply. The row \<open>task\<close>
  and the user \<open>owner\<close> are the objects the endpoint read at the start of the request, so they
  may be older than the store the operation runs on; every race is decided on the store.
  An exception leaves the store as it was (the session is rolled back).
\<close>

section \<open>Guards\<close>

definition get_owned_task :: "int \<Rightarrow> user \<Rightarrow> store \<Rightarrow> request_task result" where
  "get_owned_task task_id owner st =
     (case get_task st task_id of
        None \<Rightarrow> Inl (err NOT_FOUND ''task not found'' 404)
      | Some task \<Rightarrow>
          if us_role owner \<noteq> ADMIN \<and> rt_owner_user_id task \<noteq> us_id owner
          then Inl (err NOT_FOUND ''task not found'' 404) else Inr task)"

definition assert_owner :: "request_task \<Rightarrow> user \<Rightarrow> unit result" where
  "assert_owner task owner =
     raise_if (us_role owner \<noteq> ADMIN \<and> rt_owner_user_id task \<noteq> us_id owner)
       (err NOT_FOUND ''task not found'' 404)"

definition assert_editable :: "request_task \<Rightarrow> unit result" where
  "assert_editable task =
     raise_if (rt_state task \<noteq> WAITING_HUMAN)
       (err_public CONFLICT ''the task has ended and cannot be edited'' 409 ''task_already_resolved'')"

definition assert_writable :: "request_task \<Rightarrow> user \<Rightarrow> unit result" where
  "assert_writable task owner =
     bindr (assert_owner task owner) (\<lambda>_.
     bindr (raise_if (us_role owner = ADMIN)
              (err FORBIDDEN ''administrators cannot edit drafts or reply'' 403)) (\<lambda>_.
     bindr (raise_if (\<not> us_is_active owner) (err FORBIDDEN ''the account is disabled'' 403)) (\<lambda>_.
     assert_editable task)))"

definition validate_reply_draft ::
  "schema_validator \<Rightarrow> request_task \<Rightarrow> reply_draft \<Rightarrow> bool \<Rightarrow> reply_draft result" where
  "validate_reply_draft ie task draft strict =
     (let calls = map CallModel (rd_tool_calls draft); catalog = catalog_for_task task
      in bindr (if strict then validate_full ie catalog calls else validate_structural ie catalog calls)
           (\<lambda>_. Inr draft))"

definition assert_reply_tool_names_declared ::
  "schema_validator \<Rightarrow> request_task \<Rightarrow> reply_tool_call list \<Rightarrow> unit result" where
  "assert_reply_tool_names_declared ie task tool_calls =
     (if tool_calls = [] then Inr ()
      else validate_structural ie (catalog_for_task task) (map CallModel tool_calls))"

definition assert_tool_call_warning_acknowledged ::
  "request_task \<Rightarrow> reply_draft \<Rightarrow> store \<Rightarrow> unit result" where
  "assert_tool_call_warning_acknowledged task draft st =
     (let refuse = Inl (err_public CONFLICT ''confirm the tool call warning first'' 409
                          ''tool_call_warning_required'')
      in if rd_tool_calls draft = [] then Inr ()
         else
           (case get_inbox_state (rt_id task) st of
              None \<Rightarrow> refuse
            | Some inbox \<Rightarrow>
                if ti_tool_call_warning_acknowledged_at inbox \<noteq> None then Inr () else refuse))"

section \<open>The columns of a draft\<close>

definition strip_or_none :: "ustr option \<Rightarrow> ustr option" where
  "strip_or_none t =
     (case t of None \<Rightarrow> None | Some s \<Rightarrow> if s = [] \<or> strip s = [] then None else Some (strip s))"

definition call_json :: "reply_tool_call \<Rightarrow> json" where
  "call_json c = JObj [(u ''id'', JStr (rtc_id c)), (u ''name'', JStr (rtc_name c)),
     (u ''arguments'', JObj (rtc_arguments c))]"

record draft_columns =
  dc_reasoning :: "ustr option"
  dc_tool_calls_json :: ustr
  dc_final_text :: "ustr option"

definition draft_payload_of :: "reply_draft \<Rightarrow> draft_columns" where
  "draft_payload_of draft =
     \<lparr>dc_reasoning = strip_or_none (rd_reasoning draft),
       dc_tool_calls_json = dumps (JList (map call_json (rd_tool_calls draft))),
       dc_final_text = strip_or_none (rd_final_text draft)\<rparr>"

text \<open>
  \<open>ReplyDraft.model_validate\<close> on the dictionary of \<open>draft_payload\<close>: the declared types of
  \<open>ReplyToolCall\<close>, with \<open>arguments\<close> defaulting to the empty dictionary.
\<close>

definition call_of_json :: "json \<Rightarrow> reply_tool_call option" where
  "call_of_json v =
     (case v of
        JObj d \<Rightarrow>
          (case (oget d ''id'', oget d ''name'') of
             (JStr i, JStr n) \<Rightarrow>
               (if \<not> ohas d ''arguments'' then Some \<lparr>rtc_id = i, rtc_name = n, rtc_arguments = []\<rparr>
                else
                  (case oget d ''arguments'' of
                     JObj a \<Rightarrow> Some \<lparr>rtc_id = i, rtc_name = n, rtc_arguments = a\<rparr>
                   | _ \<Rightarrow> None))
           | _ \<Rightarrow> None)
      | _ \<Rightarrow> None)"

fun calls_of_json :: "json list \<Rightarrow> reply_tool_call list option" where
  "calls_of_json [] = Some []"
| "calls_of_json (v # vs) =
     (case call_of_json v of
        None \<Rightarrow> None
      | Some c \<Rightarrow> map_option (\<lambda>cs. c # cs) (calls_of_json vs))"

definition draft_from_row :: "task_draft \<Rightarrow> reply_draft result" where
  "draft_from_row row =
     (case stored_calls row of
        JList vs \<Rightarrow>
          (case calls_of_json vs of
             None \<Rightarrow> Inl (PyError ValueError)
           | Some cs \<Rightarrow> Inr \<lparr>rd_reasoning = td_reasoning_text row, rd_tool_calls = cs,
                           rd_final_text = td_final_text row\<rparr>)
      | _ \<Rightarrow> Inl (PyError ValueError))"

section \<open>Drafts\<close>

definition create_manual_draft ::
  "instant \<Rightarrow> request_task \<Rightarrow> user \<Rightarrow> draft_columns \<Rightarrow> store \<Rightarrow> (store \<times> task_draft) result" where
  "create_manual_draft now task owner p st =
     (case create_draft now (rt_id task) (us_id owner) MANUAL (dc_reasoning p) (dc_tool_calls_json p)
             (dc_final_text p) st of
        Inr r \<Rightarrow> Inr r
      | Inl (PyError IntegrityError) \<Rightarrow>
          (let st' = fst (update_active_draft_fields now (rt_id task) (dc_reasoning p)
                       (dc_tool_calls_json p) (dc_final_text p) st)
           in case get_active_draft (rt_id task) st' of
                None \<Rightarrow> Inl (PyError IntegrityError)
              | Some row \<Rightarrow> Inr (st', row))
      | Inl e \<Rightarrow> Inl e)"

definition reply_audit :: "string \<Rightarrow> int \<Rightarrow> user \<Rightarrow> request_task \<Rightarrow> obj \<Rightarrow> audit_log" where
  "reply_audit resource_type resource_id owner task metadata =
     \<lparr>al_action = ''task.reply_submitted'', al_resource_type = resource_type,
       al_resource_id = resource_id, al_actor_user_id = Some (us_id owner),
       al_owner_user_id = Some (rt_owner_user_id task), al_metadata = metadata\<rparr>"

definition save_draft ::
  "schema_validator \<Rightarrow> instant \<Rightarrow> request_task \<Rightarrow> user \<Rightarrow> reply_draft \<Rightarrow> store \<Rightarrow>
   (store \<times> task_draft) result" where
  "save_draft ie now task owner draft0 st =
     bindr (assert_writable task owner) (\<lambda>_.
     bindr (validate_reply_draft ie task draft0 False) (\<lambda>draft.
     (let p = draft_payload_of draft;
          (st1, updated) = update_active_draft_fields now (rt_id task) (dc_reasoning p)
                             (dc_tool_calls_json p) (dc_final_text p) st
      in bindr (if updated then
                  (case get_active_draft (rt_id task) st1 of
                     Some row \<Rightarrow> Inr (st1, row)
                   | None \<Rightarrow> create_manual_draft now task owner p st1)
                else create_manual_draft now task owner p st1)
           (\<lambda>(st2, row).
              Inr (add_audit (reply_audit ''task_draft'' (td_id row) owner task
                     [(u ''fields'', JList [S ''reasoning'', S ''tool_calls'', S ''final_text'']),
                      (u ''action'', S ''draft_saved'')]) st2, row)))))"

definition own_editing_draft ::
  "request_task \<Rightarrow> user \<Rightarrow> int \<Rightarrow> string \<Rightarrow> store \<Rightarrow> task_draft result" where
  "own_editing_draft task owner draft_id message st =
     (case get_draft draft_id st of
        None \<Rightarrow> Inl (err NOT_FOUND ''draft not found'' 404)
      | Some row \<Rightarrow>
          if td_task_id row \<noteq> rt_id task \<or> td_owner_user_id row \<noteq> us_id owner
          then Inl (err NOT_FOUND ''draft not found'' 404)
          else if td_state row \<noteq> EDITING then Inl (err CONFLICT message 409)
          else Inr row)"

definition update_draft ::
  "schema_validator \<Rightarrow> instant \<Rightarrow> request_task \<Rightarrow> user \<Rightarrow> int \<Rightarrow> reply_draft \<Rightarrow> int \<Rightarrow> store \<Rightarrow>
   (store \<times> task_draft option) result" where
  "update_draft ie now task owner draft_id draft0 expected_version st =
     bindr (assert_writable task owner) (\<lambda>_.
     bindr (validate_reply_draft ie task draft0 False) (\<lambda>draft.
     bindr (own_editing_draft task owner draft_id ''the draft was submitted and cannot be changed'' st) (\<lambda>row.
     (let p = draft_payload_of draft;
          (st1, ok) = update_draft_fields now draft_id expected_version (dc_reasoning p)
                        (dc_tool_calls_json p) (dc_final_text p) st
      in if \<not> ok then
           Inl (err_text CONFLICT
             (u ''draft version mismatch (current version='' @
              (case get_draft draft_id st1 of Some d \<Rightarrow> int_str (td_version d) | None \<Rightarrow> u ''deleted'') @ u '')'')
             409 (Some (u ''draft_version_conflict'')))
         else Inr (st1, get_draft draft_id st1)))))"

definition delete_draft :: "request_task \<Rightarrow> user \<Rightarrow> int \<Rightarrow> store \<Rightarrow> store result" where
  "delete_draft task owner draft_id st =
     bindr (assert_writable task owner) (\<lambda>_.
     bindr (own_editing_draft task owner draft_id ''the draft was submitted and cannot be deleted'' st) (\<lambda>row.
     Inr (remove_draft (td_id row) st)))"

section \<open>Submission\<close>

definition source_payload :: "int option \<Rightarrow> obj" where
  "source_payload source_draft_id =
     [(u ''source'', S ''web''),
      (u ''source_draft_id'', (case source_draft_id of None \<Rightarrow> JNull | Some i \<Rightarrow> JInt i))]"

definition submit_reply ::
  "schema_validator \<Rightarrow> instant \<Rightarrow> request_task \<Rightarrow> user \<Rightarrow> reply_draft \<Rightarrow> int option \<Rightarrow> store \<Rightarrow>
   (store \<times> bool) result" where
  "submit_reply ie now task owner draft0 source_draft_id st =
     bindr (assert_writable task owner) (\<lambda>_.
     bindr (validate_reply_draft ie task draft0 True) (\<lambda>draft.
     bindr (assert_tool_call_warning_acknowledged task draft st) (\<lambda>_.
     (let (st1, accepted) = first_reply_wins now (rt_id task) (rt_owner_user_id task) (rt_version task) draft st
      in if accepted then
           (let st2 = add_event (rt_id task) EV_REPLY_SUBMITTED ACTOR_USER (Some (us_id owner))
                        (Some (source_payload source_draft_id)) st1;
                st3 = (case source_draft_id of
                         None \<Rightarrow> st2
                       | Some i \<Rightarrow> fst (mark_draft_state now i SUBMITTED st2))
            in Inr (add_audit (reply_audit ''request_task'' (rt_id task) owner task
                      [(u ''fields'', JList [S ''response_payload'']), (u ''source'', S ''web'')]) st3, True))
         else
           Inr (add_audit (reply_audit ''request_task'' (rt_id task) owner task
                  [(u ''fields'', JList [S ''response_payload'']), (u ''source'', S ''web''),
                   (u ''result'', S ''late'')])
                (add_event (rt_id task) EV_REPLY_REJECTED_LATE ACTOR_USER (Some (us_id owner))
                  (Some (source_payload source_draft_id)) st1), False)))))"

text \<open>
  The endpoint: the task is read in the same transaction, so it is the row of the store. A late
  reply is committed (its event and audit row stay) and then answered with 409.
\<close>

definition post_reply ::
  "schema_validator \<Rightarrow> instant \<Rightarrow> int \<Rightarrow> user \<Rightarrow> reply_draft \<Rightarrow> int option \<Rightarrow> store \<Rightarrow>
   store \<times> request_task result" where
  "post_reply ie now task_id owner draft source_draft_id st =
     (case get_owned_task task_id owner st of
        Inl e \<Rightarrow> (st, Inl e)
      | Inr task \<Rightarrow>
          if is_empty_draft draft then (st, Inl (err VALIDATION_FAILED ''the reply is empty'' 422))
          else
            (case submit_reply ie now task owner draft source_draft_id st of
               Inl e \<Rightarrow> (st, Inl e)
             | Inr (st', accepted) \<Rightarrow>
                 if \<not> accepted then
                   (st', Inl (err_public CONFLICT ''the task was already answered'' 409 ''task_already_resolved''))
                 else (st', (case get_task st' task_id of
                               None \<Rightarrow> Inl (PyError KeyError) | Some t \<Rightarrow> Inr t))))"

definition mark_task_seen ::
  "instant \<Rightarrow> int \<Rightarrow> user \<Rightarrow> int option \<Rightarrow> store \<Rightarrow> store result" where
  "mark_task_seen now task_id owner last_seen st =
     bindr (get_owned_task task_id owner st) (\<lambda>task.
     bindr (raise_if (rt_owner_user_id task \<noteq> us_id owner) (err FORBIDDEN ''only the owner can mark as read'' 403)) (\<lambda>_.
     Inr (upsert_seen now (rt_id task) (us_id owner) last_seen st)))"

definition result_draft :: "request_task \<Rightarrow> reply_draft option" where
  "result_draft task = rt_response_payload task"

section \<open>What the guards admit\<close>

definition may_write :: "request_task \<Rightarrow> user \<Rightarrow> bool" where
  "may_write task owner \<longleftrightarrow> us_role owner \<noteq> ADMIN \<and> rt_owner_user_id task = us_id owner \<and>
     us_is_active owner \<and> rt_state task = WAITING_HUMAN"

definition warning_acknowledged :: "request_task \<Rightarrow> store \<Rightarrow> bool" where
  "warning_acknowledged task st \<longleftrightarrow>
     (case get_inbox_state (rt_id task) st of
        None \<Rightarrow> False | Some i \<Rightarrow> ti_tool_call_warning_acknowledged_at i \<noteq> None)"

lemma assert_writable_iff: "assert_writable task owner = Inr x \<longleftrightarrow> may_write task owner"
  by (auto simp: assert_writable_def assert_owner_def assert_editable_def may_write_def bindr_Inr_iff)

lemma acknowledged_iff:
  "assert_tool_call_warning_acknowledged task d st = Inr x \<longleftrightarrow>
     rd_tool_calls d = [] \<or> warning_acknowledged task st"
  by (simp add: assert_tool_call_warning_acknowledged_def warning_acknowledged_def Let_def split: option.split)

lemma validate_reply_draft_iff:
  "validate_reply_draft ie task d strict = Inr x \<longleftrightarrow> x = d \<and>
     (let calls = map CallModel (rd_tool_calls d); cat = catalog_for_task task
      in if strict then compliant ie cat calls
         else list_all (valid_call ie cat) calls \<and> distinct (map call_id_of calls))"
  by (cases strict) (auto simp: validate_reply_draft_def Let_def bindr_Inr_iff validate_full_accepts
      validate_structural_iff)

definition submit_store ::
  "instant \<Rightarrow> request_task \<Rightarrow> user \<Rightarrow> reply_draft \<Rightarrow> store \<Rightarrow> store" where
  "submit_store now task owner d st =
     fst (first_reply_wins now (rt_id task) (rt_owner_user_id task) (rt_version task) d st)"

definition accepted_store ::
  "instant \<Rightarrow> request_task \<Rightarrow> user \<Rightarrow> int option \<Rightarrow> store \<Rightarrow> store" where
  "accepted_store now task owner src st1 =
     (let st2 = add_event (rt_id task) EV_REPLY_SUBMITTED ACTOR_USER (Some (us_id owner))
                  (Some (source_payload src)) st1
      in add_audit (reply_audit ''request_task'' (rt_id task) owner task
           [(u ''fields'', JList [S ''response_payload'']), (u ''source'', S ''web'')])
         (case src of None \<Rightarrow> st2 | Some i \<Rightarrow> fst (mark_draft_state now i SUBMITTED st2)))"

definition late_store :: "request_task \<Rightarrow> user \<Rightarrow> int option \<Rightarrow> store \<Rightarrow> store" where
  "late_store task owner src st1 =
     add_audit (reply_audit ''request_task'' (rt_id task) owner task
      [(u ''fields'', JList [S ''response_payload'']), (u ''source'', S ''web''), (u ''result'', S ''late'')])
      (add_event (rt_id task) EV_REPLY_REJECTED_LATE ACTOR_USER (Some (us_id owner))
        (Some (source_payload src)) st1)"

lemma submit_reply_iff:
  "submit_reply ie now task owner d src st = Inr (st', acc) \<longleftrightarrow>
     may_write task owner \<and> compliant ie (catalog_for_task task) (map CallModel (rd_tool_calls d)) \<and>
     (rd_tool_calls d = [] \<or> warning_acknowledged task st) \<and>
     acc = snd (first_reply_wins now (rt_id task) (rt_owner_user_id task) (rt_version task) d st) \<and>
     st' = (if acc then accepted_store now task owner src (submit_store now task owner d st)
            else late_store task owner src (submit_store now task owner d st))"
proof (cases "first_reply_wins now (rt_id task) (rt_owner_user_id task) (rt_version task) d st")
  case (Pair st1 b)
  then show ?thesis
    by (cases b) (auto simp: submit_reply_def bindr_Inr_iff assert_writable_iff validate_reply_draft_iff
        acknowledged_iff submit_store_def accepted_store_def late_store_def Let_def)
qed

lemma accepted_store_tasks: "st_tasks (accepted_store now task owner src st1) = st_tasks st1"
  by (simp add: accepted_store_def Let_def mark_draft_state_def split_beta split: option.split)

lemma late_store_tasks: "st_tasks (late_store task owner src st1) = st_tasks st1"
  by (simp add: late_store_def)

lemma submit_reply_result:
  assumes "submit_reply ie now task owner d src st = Inr (st', acc)"
  shows "may_write task owner"
    and "compliant ie (catalog_for_task task) (map CallModel (rd_tool_calls d))"
    and "rd_tool_calls d = [] \<or> warning_acknowledged task st"
    and "acc = snd (first_reply_wins now (rt_id task) (rt_owner_user_id task) (rt_version task) d st)"
    and "st_tasks st' = st_tasks (submit_store now task owner d st)"
  using assms by (simp_all add: submit_reply_iff accepted_store_tasks late_store_tasks)

lemma submit_reply_late:
  assumes "submit_reply ie now task owner d src st = Inr (st', False)" "tasks_ok st"
  shows "st' = late_store task owner src st"
proof -
  have "submit_store now task owner d st = st"
    using submit_reply_result(4) [OF assms(1)] assms(2)
    by (simp add: submit_store_def first_reply_wins_miss)
  with assms(1) show ?thesis by (simp add: submit_reply_iff)
qed

lemma submit_reply_later:
  assumes "submit_reply ie now task owner d src st = Inr (st', acc)" "tasks_ok st"
  shows "later st st'" and "tasks_ok st'"
proof -
  have "later st (submit_store now task owner d st)" "tasks_ok (submit_store now task owner d st)"
    using assms(2) first_reply_wins_step tasks_step_later by (auto simp: submit_store_def)
  then show "later st st'" "tasks_ok st'"
    using submit_reply_result(5) [OF assms(1)] later_trans later_same tasks_ok_cong by blast+
qed

lemma submit_reply_accepted:
  assumes "submit_reply ie now task owner d src st = Inr (st', True)" "tasks_ok st"
  obtains t where "get_task st (rt_id task) = Some t" "rt_state t = WAITING_HUMAN"
    "rt_version t = rt_version task" "get_task st' (rt_id task) = Some (ready_values now d t)"
    "\<And>j. j \<noteq> rt_id task \<Longrightarrow> get_task st' j = get_task st j"
proof -
  have win: "snd (first_reply_wins now (rt_id task) (rt_owner_user_id task) (rt_version task) d st)"
    using submit_reply_result(4) [OF assms(1)] by simp
  have g: "get_task st' j = get_task (submit_store now task owner d st) j" for j
    using submit_reply_result(5) [OF assms(1)] get_task_cong by metis
  obtain t where t: "get_task st (rt_id task) = Some t" "rt_owner_user_id t = rt_owner_user_id task"
      "rt_state t = WAITING_HUMAN" "rt_version t = rt_version task"
    using win first_reply_wins_iff [OF assms(2)] by blast
  show ?thesis
    by (rule that [of t]) (use t in \<open>simp_all add: g submit_store_def first_reply_wins_tasks [OF assms(2)]\<close>)
qed

text \<open>The sample task accepts the sample reply.\<close>

lemma sample_catalog: "catalog_for_task sample_task =
    \<lparr>ctc_definitions = [], ctc_policy = policy_of CHOICE_AUTO\<rparr>"
proof -
  have "loads (dumps (JObj [])) = Some (JObj [])" by (rule loads_dumps) simp
  moreover have "dumps (JObj []) = u ''{}''" by (simp add: dumps_def u_def)
  ultimately have "loads (u ''{}'') = Some (JObj [])" by simp
  then show ?thesis
    by (simp add: catalog_for_task_def build_caller_tool_catalog_def parse_tools_def parse_policy_def
        parse_chat_choice_def choice_word_def or_else_def openai_choice_def policy_of_def
        ascii_lower_def lower_char_def u_def)
qed

lemma sample_accepted:
  "submit_reply ie 5 sample_task sample_user sample_draft None sample_store =
     Inr (accepted_store 5 sample_task sample_user None
       (submit_store 5 sample_task sample_user sample_draft sample_store), True)"
  by (simp add: submit_reply_iff may_write_def compliant_def sample_catalog policy_allows_def policy_of_def
      first_reply_wins_iff)

lemma sample_late:
  "submit_reply ie 5 (sample_task\<lparr>rt_version := 0\<rparr>) sample_user sample_draft None sample_store =
     Inr (late_store (sample_task\<lparr>rt_version := 0\<rparr>) sample_user None sample_store, False)"
proof -
  let ?t = "sample_task\<lparr>rt_version := 0\<rparr>"
  have c: "catalog_for_task ?t = catalog_for_task sample_task" by (simp add: catalog_for_task_def)
  have l: "\<not> snd (first_reply_wins 5 1 7 0 sample_draft sample_store)"
    by (simp add: first_reply_wins_iff)
  then have "submit_store 5 ?t sample_user sample_draft sample_store = sample_store"
    by (simp add: submit_store_def first_reply_wins_miss)
  with l c show ?thesis
    by (simp add: submit_reply_iff may_write_def compliant_def sample_catalog policy_allows_def policy_of_def)
qed



text \<open>
  A late reply changes nothing but the log: when the submission answers that it came late,
  the tasks, the drafts, the inbox and the users are those of before, and exactly one event
  \<open>REPLY_REJECTED_LATE\<close> of the submitter and one audit row are appended.
\<close>

theorem late_reply_only_logs:
  assumes "tasks_ok st" "submit_reply ie now task owner d src st = Inr (st', False)"
  shows "st_tasks st' = st_tasks st \<and> st_drafts st' = st_drafts st \<and> st_inbox st' = st_inbox st \<and>
     st_users st' = st_users st \<and> length (st_audit st') = Suc (length (st_audit st)) \<and>
     (\<exists>e. st_events st' = st_events st @ [e] \<and> te_event_type e = EV_REPLY_REJECTED_LATE \<and>
        te_task_id e = rt_id task \<and> te_actor_user_id e = Some (us_id owner))"
  unfolding submit_reply_late [OF assms(2,1)]
  by (simp add: late_store_def add_event_def add_audit_def)

theorem late_reply_only_logs_witness:
  "st_tasks (late_store (sample_task\<lparr>rt_version := 0\<rparr>) sample_user None sample_store) = [sample_task]"
  using late_reply_only_logs [OF sample_tasks_ok sample_late] by simp

section \<open>The draft table\<close>

text \<open>The primary key, and the partial unique index on the draft in editing.\<close>

definition drafts_ok :: "store \<Rightarrow> bool" where
  "drafts_ok st \<longleftrightarrow> distinct (map td_id (st_drafts st)) \<and>
     distinct (map td_task_id (filter (\<lambda>d. td_state d = EDITING) (st_drafts st)))"

lemma drafts_ok_cong: "st_drafts st' = st_drafts st \<Longrightarrow> drafts_ok st' = drafts_ok st"
  by (simp add: drafts_ok_def)

lemma editing_map_distinct:
  assumes "\<And>d. td_task_id (g d) = td_task_id d" "\<And>d. td_state (g d) = EDITING \<Longrightarrow> td_state d = EDITING"
    "distinct (map td_task_id (filter (\<lambda>d. td_state d = EDITING) ds))"
  shows "distinct (map td_task_id (filter (\<lambda>d. td_state d = EDITING) (map g ds)))"
proof -
  have sub: "td_task_id ` {x \<in> set (map g ds). td_state x = EDITING} \<subseteq>
      td_task_id ` {x \<in> set ds. td_state x = EDITING}" for ds
    using assms(1,2) by force
  from assms(3) show ?thesis
  proof (induction ds)
    case (Cons a ds)
    then show ?case using assms(1,2) sub [of ds] by (auto split: if_splits)
  qed simp
qed

lemma update_drafts_ok:
  assumes "drafts_ok st" "\<And>d. td_id (f d) = td_id d" "\<And>d. td_task_id (f d) = td_task_id d"
    "\<And>d. td_state (f d) = EDITING \<Longrightarrow> td_state d = EDITING \<or> \<not> c d"
  shows "drafts_ok (fst (update_drafts c f st))"
proof -
  let ?g = "\<lambda>d. if c d then f d else d"
  have "map td_id (map ?g (st_drafts st)) = map td_id (st_drafts st)"
    by (simp add: assms(2))
  moreover have "distinct (map td_task_id (filter (\<lambda>d. td_state d = EDITING) (map ?g (st_drafts st))))"
    by (rule editing_map_distinct) (use assms in \<open>auto simp: drafts_ok_def split: if_splits\<close>)
  ultimately show ?thesis using assms(1) by (simp only: drafts_ok_def update_drafts_drafts simp_thms)
qed

lemma create_draft_ok:
  assumes "drafts_ok st" "create_draft now k o' src r c f st = Inr (st', row)"
  shows "drafts_ok st'" "row \<in> set (st_drafts st')"
proof -
  have "\<not> active_draft_exists k st" and st': "st_drafts st' = st_drafts st @ [row]"
    and row: "td_id row = fresh_id td_id (st_drafts st)" "td_task_id row = k"
    using assms(2) by (auto simp: create_draft_def Let_def split: if_splits)
  then have "k \<notin> td_task_id ` {d \<in> set (st_drafts st). td_state d = EDITING}"
    by (auto simp: active_draft_exists_def list_ex_iff)
  with assms(1) st' row show "drafts_ok st'"
    using fresh_id_notin [of td_id "st_drafts st"] by (auto simp: drafts_ok_def)
  show "row \<in> set (st_drafts st')" by (simp add: st')
qed

lemma active_at_most_one:
  "drafts_ok st \<Longrightarrow> rowcount (\<lambda>d. td_task_id d = k \<and> td_state d = EDITING) (st_drafts st) \<le> 1"
  using rowcount_le_key [of td_task_id "filter (\<lambda>d. td_state d = EDITING) (st_drafts st)" k "\<lambda>_. True"]
  by (simp add: drafts_ok_def rowcount_def conj_commute)

lemma active_draft_unique:
  assumes "drafts_ok st" "d \<in> set (st_drafts st)" "td_task_id d = k" "td_state d = EDITING"
  shows "get_active_draft k st = Some d"
proof -
  let ?A = "filter (\<lambda>d. td_task_id d = k \<and> td_state d = EDITING) (st_drafts st)"
  have "length ?A \<le> 1" using active_at_most_one [OF assms(1), of k] by (simp add: rowcount_def)
  moreover have "d \<in> set ?A" using assms by simp
  ultimately have "?A = [d]" by (cases ?A) auto
  then show ?thesis by (simp add: get_active_draft_def recent_first_def)
qed

lemma get_active_draft_Some:
  assumes "get_active_draft k st = Some d"
  shows "d \<in> set (st_drafts st) \<and> td_task_id d = k \<and> td_state d = EDITING"
proof -
  let ?A = "filter (\<lambda>d. td_task_id d = k \<and> td_state d = EDITING) (st_drafts st)"
  have "d \<in> set (recent_first ?A)"
    using assms by (auto simp: get_active_draft_def split: list.splits)
  then show ?thesis by (simp add: recent_first_def)
qed

text \<open>A saved draft: the row in editing of the task, with the given columns.\<close>

definition holds_columns :: "draft_columns \<Rightarrow> task_draft \<Rightarrow> bool" where
  "holds_columns p d \<longleftrightarrow> td_reasoning_text d = dc_reasoning p \<and>
     td_tool_calls_json d = dc_tool_calls_json p \<and> td_final_text d = dc_final_text p"

definition saved_in :: "int \<Rightarrow> draft_columns \<Rightarrow> task_draft \<Rightarrow> store \<Rightarrow> store \<Rightarrow> bool" where
  "saved_in k p row st st' \<longleftrightarrow> drafts_ok st' \<and> get_active_draft k st' = Some row \<and> holds_columns p row \<and>
     st_tasks st' = st_tasks st \<and>
     filter (\<lambda>d. td_task_id d \<noteq> k) (st_drafts st') = filter (\<lambda>d. td_task_id d \<noteq> k) (st_drafts st)"

lemma filter_map_other: "(\<And>x. P (g x) = P x) \<Longrightarrow> (\<And>x. P x \<Longrightarrow> g x = x) \<Longrightarrow> filter P (map g xs) = filter P xs"
  by (induction xs) auto

lemma update_active_saved:
  assumes "drafts_ok st" "update_active_draft_fields now k r c f st = (st1, True)"
  shows "\<exists>row. saved_in k \<lparr>dc_reasoning = r, dc_tool_calls_json = c, dc_final_text = f\<rparr> row st st1"
proof -
  let ?C = "\<lambda>d. td_task_id d = k \<and> td_state d = EDITING" and ?F = "set_draft_fields now r c f"
  have st1: "st1 = fst (update_drafts ?C ?F st)" and n: "rowcount ?C (st_drafts st) = 1"
    using assms(2) by (auto simp: update_active_draft_fields_def update_drafts_drafts split: prod.splits)
      (metis update_drafts_drafts(2) snd_conv One_nat_def)
  have ok: "drafts_ok st1"
    unfolding st1 by (rule update_drafts_ok [OF assms(1)]) (simp_all add: set_draft_fields_def)
  obtain d where d: "d \<in> set (st_drafts st)" "?C d"
    using n rowcount_pos_iff [of ?C "st_drafts st"] by auto
  then have "?F d \<in> set (st_drafts st1)"
    unfolding st1 update_drafts_drafts by (auto intro!: image_eqI [of _ _ d])
  moreover have "?C (?F d)" using d(2) by (simp add: set_draft_fields_def)
  ultimately have "get_active_draft k st1 = Some (?F d)"
    using active_draft_unique [OF ok] by blast
  moreover have "filter (\<lambda>d. td_task_id d \<noteq> k) (st_drafts st1) = filter (\<lambda>d. td_task_id d \<noteq> k) (st_drafts st)"
    unfolding st1 update_drafts_drafts by (rule filter_map_other) (auto simp: set_draft_fields_def)
  ultimately show ?thesis
    using ok by (auto simp: saved_in_def holds_columns_def set_draft_fields_def st1)
qed

lemma update_active_missed:
  assumes "drafts_ok st" "update_active_draft_fields now k r c f st = (st1, False)"
  shows "st1 = st" "\<not> active_draft_exists k st"
proof -
  let ?C = "\<lambda>d. td_task_id d = k \<and> td_state d = EDITING"
  have "rowcount ?C (st_drafts st) \<noteq> 1" and st1: "st1 = fst (update_drafts ?C (set_draft_fields now r c f) st)"
    using assms(2) by (auto simp: update_active_draft_fields_def split: prod.splits)
      (metis update_drafts_drafts(2) snd_conv One_nat_def)
  then have "rowcount ?C (st_drafts st) = 0" using active_at_most_one [OF assms(1), of k] by linarith
  then have none: "\<forall>d \<in> set (st_drafts st). \<not> ?C d" by (simp add: rowcount_0_iff)
  then have "map (\<lambda>d. if ?C d then set_draft_fields now r c f d else d) (st_drafts st) = st_drafts st"
    by (intro map_update_none) blast
  then show "st1 = st" by (simp add: st1 update_drafts_def sql_update_def)
  show "\<not> active_draft_exists k st" using none by (auto simp: active_draft_exists_def list_ex_iff)
qed

lemma create_manual_saved:
  assumes "drafts_ok st" "\<not> active_draft_exists (rt_id task) st"
    "create_manual_draft now task owner p st = Inr (st1, row)"
  shows "saved_in (rt_id task) p row st st1"
proof -
  have c: "create_draft now (rt_id task) (us_id owner) MANUAL (dc_reasoning p) (dc_tool_calls_json p)
      (dc_final_text p) st = Inr (st1, row)"
    using assms(2,3) by (auto simp: create_manual_draft_def create_draft_def Let_def)
  have row: "td_task_id row = rt_id task" "td_state row = EDITING" "holds_columns p row"
      "st_drafts st1 = st_drafts st @ [row]" "st_tasks st1 = st_tasks st"
    using c assms(2) by (auto simp: create_draft_def Let_def holds_columns_def)
  have "get_active_draft (rt_id task) st1 = Some row"
    using active_draft_unique [OF create_draft_ok(1) [OF assms(1) c] create_draft_ok(2) [OF assms(1) c]] row
    by simp
  with row create_draft_ok(1) [OF assms(1) c] show ?thesis by (simp add: saved_in_def)
qed

lemma save_draft_saved:
  assumes "drafts_ok st" "save_draft ie now task owner d st = Inr (st', row)"
  shows "saved_in (rt_id task) (draft_payload_of d) row st st'" "may_write task owner"
proof -
  let ?p = "draft_payload_of d"
  have eta: "\<lparr>dc_reasoning = dc_reasoning ?p, dc_tool_calls_json = dc_tool_calls_json ?p,
      dc_final_text = dc_final_text ?p\<rparr> = ?p"
    by simp
  obtain st1 b where upd: "update_active_draft_fields now (rt_id task) (dc_reasoning ?p)
      (dc_tool_calls_json ?p) (dc_final_text ?p) st = (st1, b)" by fastforce
  have w: "may_write task owner" and v: "validate_reply_draft ie task d False = Inr d"
    using assms(2) by (auto simp: save_draft_def bindr_Inr_iff assert_writable_iff validate_reply_draft_iff)
  then show "may_write task owner" by simp
  have "\<exists>st2. st' = add_audit (reply_audit ''task_draft'' (td_id row) owner task
           [(u ''fields'', JList [S ''reasoning'', S ''tool_calls'', S ''final_text'']),
            (u ''action'', S ''draft_saved'')]) st2 \<and> saved_in (rt_id task) ?p row st st2"
  proof (cases b)
    case True
    then obtain row1 where r1: "saved_in (rt_id task) ?p row1 st st1"
      using update_active_saved [OF assms(1), of now "rt_id task" "dc_reasoning ?p"
          "dc_tool_calls_json ?p" "dc_final_text ?p" st1] upd by (auto simp: eta)
    then have "get_active_draft (rt_id task) st1 = Some row1" by (simp add: saved_in_def)
    with True r1 assms(2) upd v w show ?thesis
      by (auto simp: save_draft_def bindr_Inr_iff)
  next
    case False
    then have upd': "update_active_draft_fields now (rt_id task) (dc_reasoning ?p)
        (dc_tool_calls_json ?p) (dc_final_text ?p) st = (st1, False)" using upd by simp
    have miss: "st1 = st" "\<not> active_draft_exists (rt_id task) st"
      by (rule update_active_missed [OF assms(1) upd'])+
    with False assms(2) upd v w obtain st2 where "create_manual_draft now task owner ?p st = Inr (st2, row)"
      "st' = add_audit (reply_audit ''task_draft'' (td_id row) owner task
           [(u ''fields'', JList [S ''reasoning'', S ''tool_calls'', S ''final_text'']),
            (u ''action'', S ''draft_saved'')]) st2"
      by (auto simp: save_draft_def bindr_Inr_iff)
    with create_manual_saved [OF assms(1) miss(2)] show ?thesis by blast
  qed
  then obtain st2 where "saved_in (rt_id task) ?p row st st2" "st_drafts st' = st_drafts st2"
      "st_tasks st' = st_tasks st2"
    by auto
  then show "saved_in (rt_id task) ?p row st st'"
    by (simp add: saved_in_def drafts_ok_def get_active_draft_def)
qed

definition normalized :: "reply_draft \<Rightarrow> reply_draft" where
  "normalized d = \<lparr>rd_reasoning = strip_or_none (rd_reasoning d), rd_tool_calls = rd_tool_calls d,
     rd_final_text = strip_or_none (rd_final_text d)\<rparr>"

definition storable_calls :: "reply_draft \<Rightarrow> bool" where
  "storable_calls d \<longleftrightarrow> list_all (\<lambda>c. wf_json (JObj (rtc_arguments c))) (rd_tool_calls d)"

lemma calls_of_json_map: "calls_of_json (map call_json cs) = Some cs"
  by (induction cs) (simp_all add: call_of_json_def call_json_def)

lemma wf_items_calls: "list_all (\<lambda>c. wf_json (JObj (rtc_arguments c))) cs \<Longrightarrow> wf_items (map call_json cs)"
  by (induction cs) (simp_all add: call_json_def)

lemma stored_calls_round:
  assumes "holds_columns (draft_payload_of d) row" "storable_calls d"
  shows "draft_from_row row = Inr (normalized d)"
proof -
  let ?v = "JList (map call_json (rd_tool_calls d))"
  have j: "td_tool_calls_json row = dumps ?v"
    using assms(1) by (simp add: holds_columns_def draft_payload_of_def)
  have "loads (dumps ?v) = Some ?v"
    by (rule loads_dumps) (use assms(2) in \<open>simp add: storable_calls_def wf_items_calls\<close>)
  moreover have "dumps ?v \<noteq> []" by (simp add: dumps_def)
  ultimately have "stored_calls row = ?v" by (simp add: stored_calls_def j)
  with assms(1) show ?thesis
    by (simp add: draft_from_row_def calls_of_json_map normalized_def holds_columns_def draft_payload_of_def)
qed

text \<open>
  C16. What is saved is what is restored. After \<open>save_draft\<close> the task has exactly one draft in
  editing, the row returned; reading it back gives the draft with its texts stripped; the
  drafts of other tasks and all tasks are untouched; and the index on drafts still holds.
\<close>

theorem save_draft_restores:
  assumes "drafts_ok st" "save_draft ie now task owner d st = Inr (st', row)" "storable_calls d"
  shows "get_active_draft (rt_id task) st' = Some row \<and> draft_from_row row = Inr (normalized d) \<and>
     rowcount (\<lambda>x. td_task_id x = rt_id task \<and> td_state x = EDITING) (st_drafts st') = 1 \<and>
     filter (\<lambda>x. td_task_id x \<noteq> rt_id task) (st_drafts st') =
       filter (\<lambda>x. td_task_id x \<noteq> rt_id task) (st_drafts st) \<and>
     st_tasks st' = st_tasks st \<and> drafts_ok st'"
proof -
  have s: "saved_in (rt_id task) (draft_payload_of d) row st st'"
    by (rule save_draft_saved(1) [OF assms(1,2)])
  have "0 < rowcount (\<lambda>x. td_task_id x = rt_id task \<and> td_state x = EDITING) (st_drafts st')"
    unfolding rowcount_pos_iff using s get_active_draft_Some by (auto simp: saved_in_def)
  moreover have "drafts_ok st'" using s by (simp add: saved_in_def)
  ultimately have "rowcount (\<lambda>x. td_task_id x = rt_id task \<and> td_state x = EDITING) (st_drafts st') = 1"
    using active_at_most_one [of st' "rt_id task"] by linarith
  with s stored_calls_round [OF _ assms(3)] show ?thesis by (auto simp: saved_in_def)
qed

text \<open>The first draft of the sample task.\<close>

definition sample_row :: task_draft where
  "sample_row = \<lparr>td_id = 1, td_task_id = 1, td_owner_user_id = 7, td_source = MANUAL, td_state = EDITING,
     td_reasoning_text = None, td_tool_calls_json = u ''[]'', td_final_text = Some (u ''hi''),
     td_updated_at = 5, td_version = 1\<rparr>"

definition sample_saved :: store where
  "sample_saved = add_audit (reply_audit ''task_draft'' 1 sample_user sample_task
      [(u ''fields'', JList [S ''reasoning'', S ''tool_calls'', S ''final_text'']),
       (u ''action'', S ''draft_saved'')]) (sample_store\<lparr>st_drafts := [sample_row]\<rparr>)"

lemma sample_may_write: "may_write sample_task sample_user"
  by (simp add: may_write_def)

lemma sample_valid: "validate_reply_draft ie sample_task sample_draft False = Inr sample_draft"
  by (simp add: validate_reply_draft_iff)

lemma strip_hi: "strip (u ''hi'') = u ''hi''"
  by (simp add: strip_def lstrip_def rstrip_def u_def py_space_def)

lemma sample_save:
  "save_draft ie 5 sample_task sample_user sample_draft sample_store = Inr (sample_saved, sample_row)"
proof -
  have p: "draft_payload_of sample_draft =
      \<lparr>dc_reasoning = None, dc_tool_calls_json = u ''[]'', dc_final_text = Some (u ''hi'')\<rparr>"
    by (simp add: draft_payload_of_def strip_or_none_def strip_hi) (simp add: dumps_def u_def)
  have u: "update_active_draft_fields 5 1 None (u ''[]'') (Some (u ''hi'')) sample_store = (sample_store, False)"
    by (simp add: update_active_draft_fields_def update_drafts_def sql_update_def sample_store_def)
  have c: "create_manual_draft 5 sample_task sample_user (draft_payload_of sample_draft) sample_store =
      Inr (sample_store\<lparr>st_drafts := [sample_row]\<rparr>, sample_row)"
    by (simp add: create_manual_draft_def create_draft_def active_draft_exists_def p sample_row_def fresh_id_def Let_def)
  have w: "assert_writable sample_task sample_user = Inr ()"
    by (simp add: assert_writable_iff sample_may_write)
  have i: "td_id sample_row = 1" by (simp add: sample_row_def)
  show ?thesis
    using c u w sample_valid [of ie] by (simp add: save_draft_def p i sample_saved_def)
qed

theorem save_draft_restores_witness:
  "draft_from_row sample_row = Inr (normalized sample_draft) \<and> get_active_draft 1 sample_saved = Some sample_row"
  using save_draft_restores [of sample_store "\<lambda>s a. Inr []" 5 sample_task sample_user sample_draft
      sample_saved sample_row]
  by (simp add: sample_save drafts_ok_def storable_calls_def)

section \<open>Optimistic locking\<close>

lemma own_editing_draft_Inr:
  "own_editing_draft task owner i m st = Inr row \<longleftrightarrow>
     get_draft i st = Some row \<and> td_task_id row = rt_id task \<and> td_owner_user_id row = us_id owner \<and>
     td_state row = EDITING"
  by (auto simp: own_editing_draft_def split: option.split)

lemma update_draft_fields_row:
  assumes "drafts_ok st" "get_draft i st = Some row" "td_state row = EDITING"
  shows "update_draft_fields now i v r c f st =
     (if td_version row = v
      then (fst (update_drafts (\<lambda>d. td_id d = i \<and> td_state d = EDITING \<and> td_version d = v)
                  (set_draft_fields now r c f) st), True)
      else (st, False))"
proof -
  let ?C = "\<lambda>d. td_state d = EDITING \<and> td_version d = v"
  have n: "rowcount (\<lambda>d. td_id d = i \<and> ?C d) (st_drafts st) = (if td_version row = v then 1 else 0)"
    using rowcount_get_row [of td_id "st_drafts st" i ?C] assms by (simp add: drafts_ok_def get_draft_def)
  have miss: "map (\<lambda>d. if td_id d = i \<and> ?C d then set_draft_fields now r c f d else d) (st_drafts st) =
      st_drafts st" if "td_version row \<noteq> v"
    using n that by (intro map_update_none) (simp add: rowcount_0_iff)
  show ?thesis
    using n miss by (simp add: update_draft_fields_def update_drafts_def sql_update_def)
qed

text \<open>
  Drafts are edited under an optimistic lock: for a draft of the user in editing, an update
  with another version than the stored one is refused with 409 \<open>draft_version_conflict\<close>, and
  one with the stored version writes exactly this row, raises its version by one and reads
  back as the draft with its texts stripped.
\<close>

theorem update_draft_optimistic_lock:
  assumes "drafts_ok st" "may_write task owner" "validate_reply_draft ie task d False = Inr d"
    "own_editing_draft task owner i ''the draft was submitted and cannot be changed'' st = Inr row"
    "storable_calls d"
  shows "if td_version row = v
    then \<exists>st' row'. update_draft ie now task owner i d v st = Inr (st', Some row') \<and>
           td_version row' = v + 1 \<and> draft_from_row row' = Inr (normalized d) \<and>
           st_tasks st' = st_tasks st \<and> drafts_ok st' \<and>
           (\<forall>j. j \<noteq> i \<longrightarrow> get_draft j st' = get_draft j st)
    else \<exists>m. update_draft ie now task owner i d v st =
           Inl (err_text CONFLICT m 409 (Some (u ''draft_version_conflict'')))"
proof -
  let ?p = "draft_payload_of d"
  let ?f = "set_draft_fields now (dc_reasoning ?p) (dc_tool_calls_json ?p) (dc_final_text ?p)"
  let ?C = "\<lambda>x. td_id x = i \<and> td_state x = EDITING \<and> td_version x = v"
  have row: "get_draft i st = Some row" "td_state row = EDITING"
    using assms(4) by (simp_all add: own_editing_draft_Inr)
  note upd = update_draft_fields_row [OF assms(1) row, of now v "dc_reasoning ?p"
      "dc_tool_calls_json ?p" "dc_final_text ?p"]
  have w: "assert_writable task owner = Inr ()" using assms(2) by (simp add: assert_writable_iff)
  show ?thesis
  proof (cases "td_version row = v")
    case False
    then show ?thesis using upd w assms(3,4) by (simp add: update_draft_def split_beta Let_def) blast
  next
    case True
    define st' where "st' = fst (update_drafts ?C ?f st)"
    have g: "get_draft j st' = map_option (\<lambda>x. if ?C x then ?f x else x) (get_draft j st)" for j
      unfolding st'_def get_draft_def update_drafts_drafts
      by (rule get_row_map) (simp add: set_draft_fields_def)
    have id: "td_id row = i" using row(1) by (auto simp: get_draft_def dest: get_row_Some)
    have "get_draft i st' = Some (?f row)" using g [of i] row id True by simp
    moreover have "update_draft ie now task owner i d v st = Inr (st', get_draft i st')"
      using upd w assms(3,4) True by (simp add: update_draft_def st'_def split_beta Let_def)
    moreover have "draft_from_row (?f row) = Inr (normalized d)"
      by (rule stored_calls_round [OF _ assms(5)]) (simp add: holds_columns_def set_draft_fields_def)
    moreover have "drafts_ok st'"
      unfolding st'_def by (rule update_drafts_ok [OF assms(1)]) (simp_all add: set_draft_fields_def)
    moreover have "get_draft j st' = get_draft j st" if "j \<noteq> i" for j
      using g [of j] that by (cases "get_draft j st") (auto simp: get_draft_def dest: get_row_Some)
    moreover have "st_tasks st' = st_tasks st" by (simp add: st'_def)
    moreover have "td_version (?f row) = v + 1" using True by (simp add: set_draft_fields_def)
    ultimately show ?thesis using True by auto
  qed
qed

theorem update_draft_optimistic_lock_witness:
  "\<exists>st' row'. update_draft (\<lambda>s a. Inr []) 6 sample_task sample_user 1 sample_draft 1 sample_saved =
     Inr (st', Some row') \<and> td_version row' = 2"
proof -
  have "drafts_ok sample_saved" by (simp add: drafts_ok_def sample_saved_def add_audit_def)
  moreover have "own_editing_draft sample_task sample_user 1
      ''the draft was submitted and cannot be changed'' sample_saved = Inr sample_row"
    by (simp add: own_editing_draft_Inr sample_saved_def add_audit_def get_draft_def get_row_def sample_row_def)
  ultimately show ?thesis
    using update_draft_optimistic_lock [of sample_saved sample_task sample_user "\<lambda>s a. Inr []" sample_draft 1
        sample_row 1 6] sample_may_write sample_valid
    by (auto simp: storable_calls_def sample_row_def)
qed

section \<open>The endpoint\<close>

lemma submit_reply_current:
  assumes "tasks_ok st" "get_task st k = Some t" "may_write t owner" "rt_id t = k"
    "compliant ie (catalog_for_task t) (map CallModel (rd_tool_calls d))"
    "rd_tool_calls d = [] \<or> warning_acknowledged t st"
  shows "submit_reply ie now t owner d src st =
      Inr (accepted_store now t owner src (submit_store now t owner d st), True)"
    and "get_task (accepted_store now t owner src (submit_store now t owner d st)) k = Some (ready_values now d t)"
proof -
  have win: "snd (first_reply_wins now (rt_id t) (rt_owner_user_id t) (rt_version t) d st)"
    unfolding first_reply_wins_iff [OF assms(1)] using assms(2-4) unfolding may_write_def by blast
  then show eq: "submit_reply ie now t owner d src st =
      Inr (accepted_store now t owner src (submit_store now t owner d st), True)"
    unfolding submit_reply_iff using assms(3,5,6) by simp
  obtain t' where "get_task st (rt_id t) = Some t'"
    "get_task (accepted_store now t owner src (submit_store now t owner d st)) (rt_id t) = Some (ready_values now d t')"
    by (rule submit_reply_accepted [OF eq assms(1)])
  with assms(2,4) show "get_task (accepted_store now t owner src (submit_store now t owner d st)) k =
      Some (ready_values now d t)" by simp
qed

definition reply_decision ::
  "schema_validator \<Rightarrow> instant \<Rightarrow> int \<Rightarrow> user \<Rightarrow> reply_draft \<Rightarrow> store \<Rightarrow> request_task result" where
  "reply_decision ie now k owner d st =
    (case get_task st k of
       None \<Rightarrow> Inl (err NOT_FOUND ''task not found'' 404)
     | Some t \<Rightarrow>
         if us_role owner \<noteq> ADMIN \<and> rt_owner_user_id t \<noteq> us_id owner
         then Inl (err NOT_FOUND ''task not found'' 404)
         else if is_empty_draft d then Inl (err VALIDATION_FAILED ''the reply is empty'' 422)
         else if us_role owner = ADMIN
         then Inl (err FORBIDDEN ''administrators cannot edit drafts or reply'' 403)
         else if \<not> us_is_active owner then Inl (err FORBIDDEN ''the account is disabled'' 403)
         else if rt_state t \<noteq> WAITING_HUMAN
         then Inl (err_public CONFLICT ''the task has ended and cannot be edited'' 409 ''task_already_resolved'')
         else
           (case validate_full ie (catalog_for_task t) (map CallModel (rd_tool_calls d)) of
              Inl e \<Rightarrow> Inl e
            | Inr _ \<Rightarrow>
                if rd_tool_calls d \<noteq> [] \<and> \<not> warning_acknowledged t st
                then Inl (err_public CONFLICT ''confirm the tool call warning first'' 409
                       ''tool_call_warning_required'')
                else Inr (ready_values now d t)))"

lemma post_reply_is_decision:
  assumes ok: "tasks_ok st"
  shows "snd (post_reply ie now k owner d src st) = reply_decision ie now k owner d st \<and>
    (is_ok (reply_decision ie now k owner d st) \<or> fst (post_reply ie now k owner d src st) = st)"
proof (cases "get_task st k")
  case None
  then show ?thesis by (simp add: post_reply_def reply_decision_def get_owned_task_def)
next
  case (Some t)
  then have id: "rt_id t = k" using get_task_Some by blast
  define v where "v = validate_full ie (catalog_for_task t) (map CallModel (rd_tool_calls d))"
  show ?thesis
  proof (cases "may_write t owner \<and> \<not> is_empty_draft d \<and> is_ok v \<and>
      (rd_tool_calls d = [] \<or> warning_acknowledged t st)")
    case True
    then have c: "compliant ie (catalog_for_task t) (map CallModel (rd_tool_calls d))"
      unfolding v_def is_ok_iff by (metis (full_types) old.unit.exhaust validate_full_accepts)
    then have "v = Inr ()" by (simp add: v_def validate_full_accepts)
    with True Some show ?thesis
      using submit_reply_current [OF ok Some _ id c, of owner now src]
      by (simp add: post_reply_def reply_decision_def get_owned_task_def may_write_def v_def)
  next
    case False
    then show ?thesis
      by (cases v)
        (auto simp: post_reply_def reply_decision_def get_owned_task_def may_write_def Some v_def [symmetric]
          submit_reply_def assert_writable_def assert_owner_def assert_editable_def validate_reply_draft_def
          assert_tool_call_warning_acknowledged_def warning_acknowledged_def split: option.split)
  qed
qed



end
