(* ===== verification/Gateway.thy ===== *)
theory Gateway
  imports Endpoint Creation Sweeper Task_Service
begin

text \<open>
  The gateway as a whole: every transaction that the modelled services and endpoints commit is a
  rule of one step relation, and what holds of the tables along every run of it, in whatever order
  the humans, the callers, the models, the sweeper and the administrators come.
\<close>

section \<open>Writes that keep the slot of a task\<close>

text \<open>
  The interface of an UPDATE that moves a task along but leaves its activity slot with it: the
  ledger does not see it.
\<close>

locale quiet_write =
  fixes guard :: "request_task \<Rightarrow> bool" and change :: "request_task \<Rightarrow> request_task"
  assumes key: "rt_id (change t) = rt_id t"
    and step: "task_ok t \<Longrightarrow> guard t \<Longrightarrow> row_step t (change t) \<and> task_ok (change t)"
    and slot: "rt_slot_released_at (change t) = rt_slot_released_at t"
    and owner: "rt_owner_user_id (change t) = rt_owner_user_id t"
begin

lemma held:
  "held_slots v (fst (update_tasks (\<lambda>t. rt_id t = k \<and> guard t) change st)) = held_slots v st"
proof -
  have "holding v (if rt_id t = k \<and> guard t then change t else t) = holding v t" for t
    by (simp add: holding_def slot owner)
  then have "rowcount (holding v) (map (\<lambda>t. if rt_id t = k \<and> guard t then change t else t) rows) = rowcount (holding v) rows" for rows
    by (induction rows) simp_all
  then show ?thesis by (simp add: held_slots_def update_tasks_tasks)
qed

lemma keeps:
  assumes "gateway_ok st"
  shows "gateway_ok (fst (update_tasks (\<lambda>t. rt_id t = k \<and> guard t) change st)) \<and>
    tasks_step st (fst (update_tasks (\<lambda>t. rt_id t = k \<and> guard t) change st))"
proof -
  let ?st = "fst (update_tasks (\<lambda>t. rt_id t = k \<and> guard t) change st)"
  have ok: "tasks_ok st" "ledger_ok st" using assms by (simp_all add: gateway_ok_def)
  have "tasks_ok ?st" by (rule update_tasks_ok [OF ok(1)]) (use step key in auto)
  moreover have "ledger_ok ?st"
  proof (rule ledger_okI [OF ok(2)])
    fix x assume "x \<in> set (st_users ?st)"
    then have "user_ok st x" using ledger_user [OF ok(2)] by simp
    then show "user_ok ?st x" by (simp add: user_ok_def held)
  qed simp
  moreover have "tasks_step st ?st"
    by (rule update_tasks_step) (use ok(1) step in \<open>auto simp: tasks_ok_def\<close>)
  ultimately show ?thesis by (simp add: gateway_ok_def)
qed

lemma row:
  assumes "tasks_ok st"
  shows "get_task (fst (update_tasks (\<lambda>t. rt_id t = k \<and> guard t) change st)) k =
      map_option (\<lambda>t. if guard t then change t else t) (get_task st k)"
    and "snd (update_tasks (\<lambda>t. rt_id t = k \<and> guard t) change st) =
      (case get_task st k of Some t \<Rightarrow> if guard t then 1 else 0 | None \<Rightarrow> 0)"
proof -
  have d: "distinct (map rt_id (st_tasks st))" using assms by (simp add: tasks_ok_def)
  show "get_task (fst (update_tasks (\<lambda>t. rt_id t = k \<and> guard t) change st)) k =
      map_option (\<lambda>t. if guard t then change t else t) (get_task st k)"
    using update_by_id(2) [OF d key, of k guard k] by simp
  show "snd (update_tasks (\<lambda>t. rt_id t = k \<and> guard t) change st) =
      (case get_task st k of Some t \<Rightarrow> if guard t then 1 else 0 | None \<Rightarrow> 0)"
    by (rule update_by_id(1) [OF d key])
qed

end

interpretation reply_write: quiet_write
  "\<lambda>t. rt_owner_user_id t = w \<and> rt_state t = WAITING_HUMAN \<and> rt_version t = v" "ready_values now d" for w v now d
  by unfold_locales (use ready_step in \<open>auto simp: ready_values_def bump_def\<close>)

interpretation claim_write: quiet_write
  "\<lambda>t. rt_state t = WAITING_HUMAN" "\<lambda>t. bump now (t\<lparr>rt_state := FORWARDING_LLM\<rparr>)" for now
  by unfold_locales (use claim_step in \<open>auto simp: bump_def\<close>)

interpretation accept_write: quiet_write
  "\<lambda>t. rt_owner_user_id t = w \<and> rt_state t = FORWARDING_LLM \<and> rt_version t = v" "ready_values now d" for w v now d
  by unfold_locales (use ready_step in \<open>auto simp: ready_values_def bump_def\<close>)

interpretation respond_write: quiet_write
  "\<lambda>t. rt_state t = RESPONSE_READY \<and> rt_slot_released_at t = None"
  "\<lambda>t. bump now (t\<lparr>rt_state := RESPONDING, rt_response_started_at := Some now\<rparr>)" for now
  by unfold_locales (use respond_step in \<open>auto simp: bump_def\<close>)

section \<open>Invariant transactions\<close>

text \<open>What a transaction must not break: the rows, the ledger of slots and the drafts.\<close>

definition safe :: "store \<Rightarrow> bool" where
  "safe st \<longleftrightarrow> gateway_ok st \<and> drafts_ok st"

definition sound_step :: "store \<Rightarrow> store \<Rightarrow> bool" where
  "sound_step st st' \<longleftrightarrow> safe st' \<and> later st st'"

lemma sound_refl: "safe st \<Longrightarrow> sound_step st st"
  by (simp add: sound_step_def)

lemma sound_trans: "sound_step a b \<Longrightarrow> sound_step b c \<Longrightarrow> sound_step a c"
  unfolding sound_step_def using later_trans by blast

lemma sound_safe: "sound_step a b \<Longrightarrow> safe b"
  by (simp add: sound_step_def)

lemma safe_parts: "safe st \<Longrightarrow> gateway_ok st" "safe st \<Longrightarrow> tasks_ok st" "safe st \<Longrightarrow> ledger_ok st" "safe st \<Longrightarrow> drafts_ok st"
  by (simp_all add: safe_def gateway_ok_def)

text \<open>The three ways in which the services reach it.\<close>

lemma sound_tasks:
  "gateway_ok st' \<Longrightarrow> tasks_step st st' \<Longrightarrow> st_drafts st' = st_drafts st \<Longrightarrow> safe st \<Longrightarrow> sound_step st st'"
  by (simp add: sound_step_def safe_def tasks_step_later drafts_ok_cong [of st' st])

lemma sound_same:
  assumes "st_tasks st' = st_tasks st" "st_users st' = st_users st" "drafts_ok st'" "safe st"
  shows "sound_step st st'"
  using assms tasks_ok_cong [OF assms(1)] ledger_ok_cong [OF assms(1,2)] later_same [OF assms(1)]
  by (simp add: sound_step_def safe_def gateway_ok_def)

lemma sound_frame:
  assumes "sound_step st st1" "st_tasks st' = st_tasks st1" "st_users st' = st_users st1" "st_drafts st' = st_drafts st1"
  shows "sound_step st st'"
  using sound_trans [OF assms(1) sound_same [OF assms(2,3)]] sound_safe [OF assms(1)] drafts_ok_cong [OF assms(4)]
  by (simp add: safe_def)

lemma sound_update:
  assumes "gateway_ok (fst (update_tasks c f st)) \<and> tasks_step st (fst (update_tasks c f st))" "safe st"
  shows "sound_step st (fst (update_tasks c f st))"
  using assms by (intro sound_tasks) simp_all

section \<open>The transactions of the services\<close>

lemma reply_sound: "safe st \<Longrightarrow> sound_step st (fst (first_reply_wins now k w v d st))"
  using sound_update [OF reply_write.keeps [OF safe_parts(1)]] by (simp add: first_reply_wins_def split_beta)

lemma claim_sound: "safe st \<Longrightarrow> sound_step st (fst (claim_fallback now k st))"
  using sound_update [OF claim_write.keeps [OF safe_parts(1)]] by (simp add: claim_fallback_def split_beta)

lemma accept_sound: "safe st \<Longrightarrow> sound_step st (fst (accept_forward_reply now k w v d st))"
  using sound_update [OF accept_write.keeps [OF safe_parts(1)]] by (simp add: accept_forward_reply_def split_beta)

lemma respond_sound: "safe st \<Longrightarrow> sound_step st (fst (start_response now k st))"
  using sound_update [OF respond_write.keeps [OF safe_parts(1)]] by (simp add: start_response_def split_beta)

lemma post_reply_sound:
  assumes "safe st" "post_reply ie now k owner d src st = (st', r)"
  shows "sound_step st st'"
proof -
  have submitted: "sound_step st st1" if s: "submit_reply ie now task owner d src st = Inr (st1, acc)" for task st1 acc
  proof -
    let ?st = "submit_store now task owner d st"
    have base: "sound_step st ?st" using reply_sound [OF assms(1)] by (simp add: submit_store_def)
    have st1: "st1 = (if acc then accepted_store now task owner src ?st else late_store task owner src ?st)"
      using s by (simp add: submit_reply_iff)
    have "st_users st1 = st_users ?st"
      by (simp add: st1 accepted_store_def late_store_def Let_def mark_draft_state_def split_beta split: option.split)
    moreover have "drafts_ok st1"
    proof -
      have "drafts_ok ?st" using base by (simp add: sound_step_def safe_def)
      then show ?thesis
        by (cases src) (auto simp: st1 accepted_store_def late_store_def Let_def mark_draft_state_def split_beta
            drafts_ok_cong [of "add_audit a s" s for a s] drafts_ok_cong [of "add_event a b c d' e s" s for a b c d' e s]
            intro!: update_drafts_ok)
    qed
    ultimately show ?thesis
      using sound_trans [OF base sound_same [OF submit_reply_result(5) [OF s]]] sound_safe [OF base] by blast
  qed
  show ?thesis
  proof (cases "get_owned_task k owner st")
    case (Inl e)
    then show ?thesis using assms sound_refl by (simp add: post_reply_def)
  next
    case (Inr task)
    show ?thesis
    proof (cases "submit_reply ie now task owner d src st")
      case (Inl e)
      then show ?thesis using assms sound_refl \<open>get_owned_task k owner st = Inr task\<close>
        by (auto simp: post_reply_def split: if_splits)
    next
      case (Inr p)
      obtain st1 acc where p: "p = (st1, acc)" by fastforce
      have "st' = st \<or> st' = st1"
        using assms(2) Inr p \<open>get_owned_task k owner st = Inr task\<close> by (auto simp: post_reply_def split: if_splits)
      then show ?thesis using submitted [of task st1 acc] Inr p sound_refl [OF assms(1)] by auto
    qed
  qed
qed

lemma save_draft_users:
  assumes "save_draft ie now task owner d st = Inr (st', row)"
  shows "st_users st' = st_users st"
  using assms
  by (auto simp: save_draft_def bindr_Inr_iff Let_def split_beta update_active_draft_fields_def create_manual_draft_def
      create_draft_def split: if_splits option.splits)

lemma save_draft_sound:
  assumes "safe st" "save_draft ie now task owner d st = Inr (st', row)"
  shows "sound_step st st'"
  using save_draft_saved(1) [OF safe_parts(4) [OF assms(1)] assms(2)] save_draft_users [OF assms(2)] assms(1)
  by (intro sound_same) (simp_all add: saved_in_def)

lemma update_draft_sound:
  assumes "safe st" "update_draft ie now task owner i d v st = Inr (st', row)"
  shows "sound_step st st'"
proof -
  let ?st = "fst (update_drafts (\<lambda>x. td_id x = i \<and> td_state x = EDITING \<and> td_version x = v)
     (set_draft_fields now (dc_reasoning (draft_payload_of d)) (dc_tool_calls_json (draft_payload_of d))
        (dc_final_text (draft_payload_of d))) st)"
  have st': "st' = ?st"
    using assms(2)
    by (auto simp: update_draft_def bindr_Inr_iff Let_def split_beta update_draft_fields_def validate_reply_draft_iff split: if_splits)
  have "drafts_ok ?st"
    by (rule update_drafts_ok [OF safe_parts(4) [OF assms(1)]]) (auto simp: set_draft_fields_def)
  then show ?thesis using assms(1) by (intro sound_same) (simp_all add: st')
qed

lemma remove_draft_ok: "drafts_ok st \<Longrightarrow> drafts_ok (remove_draft i st)"
  by (auto simp: drafts_ok_def remove_draft_def distinct_map_filter filter_filter conj_commute inj_on_def distinct_map)

lemma delete_draft_sound:
  assumes "safe st" "delete_draft task owner i st = Inr st'"
  shows "sound_step st st'"
proof -
  have "\<exists>j. st' = remove_draft j st" using assms(2) by (auto simp: delete_draft_def bindr_Inr_iff)
  then obtain j where st': "st' = remove_draft j st" ..
  show ?thesis
    by (rule sound_same) (use assms(1) remove_draft_ok [OF safe_parts(4)] in \<open>simp_all add: st' remove_draft_def\<close>)
qed

lemma mark_seen_sound:
  assumes "safe st" "mark_task_seen now k owner seen_to st = Inr st'"
  shows "sound_step st st'"
proof -
  have fr: "st_tasks (upsert_seen now j w e st) = st_tasks st" "st_users (upsert_seen now j w e st) = st_users st"
      "st_drafts (upsert_seen now j w e st) = st_drafts st" for j w e
    by (simp_all add: upsert_seen_def put_inbox_def split: option.split)
  have "\<exists>j w e. st' = upsert_seen now j w e st" using assms(2) by (auto simp: mark_task_seen_def bindr_Inr_iff)
  then obtain j w e where st': "st' = upsert_seen now j w e st" by blast
  show ?thesis using sound_frame [OF sound_refl [OF assms(1)] fr] by (simp add: st')
qed

lemma forward_claim_sound:
  assumes "safe st" "forward_claim now task reason st = (st', won)"
  shows "sound_step st st'"
proof -
  have "st' = fst (claim_fallback now (rt_id task) st) \<or>
      (\<exists>p. st' = add_event (rt_id task) EV_FALLBACK ACTOR_SYSTEM None p (fst (claim_fallback now (rt_id task) st)))"
    using assms(2) by (auto simp: forward_claim_def split_beta split: if_splits)
  then show ?thesis using sound_frame [OF claim_sound [OF assms(1)]] claim_sound [OF assms(1)] by auto
qed

lemma forward_finish_sound:
  assumes "safe st" "forward_finish ie now task reason reply st = Inr (st', outcome)"
  shows "sound_step st st'"
proof (cases reply)
  case (Inl e)
  then have "st' = st" using assms(2) by (auto simp: forward_finish_def split: exn.splits)
  then show ?thesis using sound_refl [OF assms(1)] by simp
next
  case (Inr d)
  have acc: "sound_step st (fst (accept_forward_reply now (rt_id task) (rt_owner_user_id task) v d st))" for v
    by (rule accept_sound [OF assms(1)])
  have "st' = st \<or> (\<exists>v. let s = fst (accept_forward_reply now (rt_id task) (rt_owner_user_id task) v d st)
      in st_tasks st' = st_tasks s \<and> st_users st' = st_users s \<and> st_drafts st' = st_drafts s)"
    using assms(2) Inr
    by (auto simp: forward_finish_def forward_accept_def Let_def split_beta split: sum.splits exn.splits option.splits if_splits)
  then show ?thesis using sound_frame [OF acc] sound_refl [OF assms(1)] by (auto simp: Let_def)
qed

section \<open>Closing transactions\<close>

lemma endpoint_sources_ok:
  "state \<in> {TIMED_OUT, COMPLETED, FAILED, CANCELLED} \<Longrightarrow> release_sources state (endpoint_sources state)"
  by (auto simp: endpoint_sources_def release_sources_def task_state_defs)

lemma finalize_sound:
  assumes "safe st" "release_sources s allowed" "get_task st (rt_id task) = Some task"
    "finalize now task s allowed perr st = Inr (st', won)"
  shows "sound_step st st'"
proof -
  have "rt_owner_user_id t = rt_owner_user_id task" if "get_task st (rt_id task) = Some t" for t
    using that assms(3) by simp
  note f = finalize_ok [OF safe_parts(1) [OF assms(1)] assms(2,4) this]
  show ?thesis by (rule sound_tasks [OF f(1-3) assms(1)])
qed

lemma endpoint_finalize_sound:
  assumes "safe st" "state \<in> {TIMED_OUT, COMPLETED, FAILED, CANCELLED}"
    "endpoint_finalize now k state perr st = Inr (st', won)"
  shows "sound_step st st'"
proof (cases "get_task st k")
  case None
  then show ?thesis using assms(1,3) sound_refl by (simp add: endpoint_finalize_def)
next
  case (Some task)
  then have k: "get_task st (rt_id task) = Some task" using get_task_Some [OF Some] by simp
  show ?thesis
    by (rule finalize_sound [OF assms(1) endpoint_sources_ok [OF assms(2)] k])
      (use assms(3) Some in \<open>simp add: endpoint_finalize_def\<close>)
qed

lemma fail_forward_sound:
  assumes "safe st" "fail_forward now k error st = Inr st'"
  shows "sound_step st st'"
proof (cases "get_task st k")
  case None
  then show ?thesis using assms sound_refl by (simp add: fail_forward_def)
next
  case (Some task)
  then have k: "get_task st (rt_id task) = Some task" using get_task_Some [OF Some] by simp
  obtain perr won where "finalize now task FAILED (Some [FORWARDING_LLM]) perr st = Inr (st', won)"
    using assms(2) Some unfolding fail_forward_def by (auto simp: bindr_Inr_iff)
  moreover have "release_sources FAILED (Some [FORWARDING_LLM])" by (simp add: release_sources_def task_state_defs)
  ultimately show ?thesis using finalize_sound [OF assms(1) _ k] by blast
qed

lemma cancel_sound: "safe st \<Longrightarrow> sound_step st (fst (cancel_caller_disconnected now k reason st))"
  using cancel_ok [OF safe_parts(1), of st now k reason "fst (cancel_caller_disconnected now k reason st)"
      "snd (cancel_caller_disconnected now k reason st)"]
  by (intro sound_tasks) simp_all

lemma disconnected_sound: "safe st \<Longrightarrow> sound_step st (cancel_disconnected now k st)"
  using cancel_sound by (simp add: cancel_disconnected_def)

lemma begin_response_sound:
  assumes "safe st" "begin_response now k st = (st', b)"
  shows "sound_step st st'"
proof -
  have "st' = st \<or> (\<exists>j. let s = fst (start_response now j st)
      in st_tasks st' = st_tasks s \<and> st_users st' = st_users s \<and> st_drafts st' = st_drafts s)"
    using assms(2) by (auto simp: begin_response_def mark_responding_def Let_def split_beta split: option.splits if_splits)
  then show ?thesis using sound_frame [OF respond_sound [OF assms(1)]] sound_refl [OF assms(1)] by (auto simp: Let_def)
qed


lemma folded_sound:
  assumes "\<And>x p. safe (fst p) \<Longrightarrow> sound_step (fst p) (fst (f x p))"
  shows "safe (fst p) \<Longrightarrow> sound_step (fst p) (fst (fold f xs p))"
proof (induction xs arbitrary: p)
  case Nil
  then show ?case by (simp add: sound_refl)
next
  case (Cons x xs)
  have "sound_step (fst p) (fst (f x p))" by (rule assms [OF Cons.prems])
  moreover from this have "sound_step (fst (f x p)) (fst (fold f xs (f x p)))" by (intro Cons.IH sound_safe)
  ultimately show ?case using sound_trans by simp
qed

lemma cancel_one_sound: "safe (fst p) \<Longrightarrow> sound_step (fst p) (fst (cancel_one now reason k p))"
  using cancel_sound by (simp add: cancel_one_def split_beta)

lemma cancel_loop_sound: "safe st \<Longrightarrow> sound_step st (fst (cancel_loop now reason st n))"
proof (induction now reason st n rule: cancel_loop.induct)
  case (1 now reason st n)
  let ?p = "fold (cancel_one now reason) (live_ids st) (st, n)"
  have f: "sound_step st (fst ?p)" using folded_sound [OF cancel_one_sound, of "(st, n)"] "1.prems" by simp
  show ?case
  proof (cases "live_ids st = []")
    case True
    then show ?thesis using sound_refl [OF "1.prems"] by (simp add: cancel_loop.simps [of now reason st n])
  next
    case False
    have "sound_step (fst ?p) (fst (cancel_loop now reason (fst ?p) (snd ?p)))"
      by (rule "1.IH" [OF False refl sound_safe [OF f]])
    then show ?thesis using sound_trans [OF f] False by (simp add: cancel_loop.simps [of now reason st n] Let_def)
  qed
qed

lemma sweep_stale_sound: "safe (fst p) \<Longrightarrow> sound_step (fst p) (fst (sweep_stale now t p))"
  using cancel_sound by (simp add: sweep_stale_def split_beta)

lemma finalize_drafts:
  "finalize now task s allowed perr st = Inr (st', won) \<Longrightarrow> st_drafts st' = st_drafts st"
  by (auto simp: finalize_def bindr_Inr_iff release_slot_to_terminal_def Let_def split_beta split: if_splits option.splits)

lemma sweep_overdue_drafts: "st_drafts (fst (sweep_overdue now t p)) = st_drafts (fst p)"
  by (auto simp: sweep_overdue_def Let_def split_beta finalize_drafts split: sum.split)

lemma sweep_once_sound:
  assumes "safe st" "sweep_once now st = (st', counts)"
  shows "sound_step st st'"
proof -
  have sweep: "gateway_ok st'" "later st st'"
    using sweep_once_result [OF safe_parts(1) [OF assms(1)] assms(2)] evolves_later by blast+
  have "st_drafts (fst (fold (sweep_overdue now) ts p)) = st_drafts (fst p)" for ts p
    by (induction ts arbitrary: p) (simp_all add: sweep_overdue_drafts)
  moreover have "st_drafts (fst (fold (sweep_stale now) ts p)) = st_drafts (fst p)" for ts p
    by (induction ts arbitrary: p)
      (simp_all add: sweep_stale_def cancel_caller_disconnected_def repo_cancel_caller_disconnected_def split_beta Let_def
        split: option.split)
  ultimately have "st_drafts (fst (sweep_once now st)) = st_drafts st"
    by (simp add: sweep_once_def split_beta Let_def)
  then show ?thesis using assms(1) sweep by (simp add: sound_step_def safe_def assms(2) drafts_ok_cong [of st' st])
qed

lemma disable_sound:
  assumes "safe st" "disable_user now user actor st = Inr (st', i)"
  shows "sound_step st st'"
proof (cases "us_is_active user")
  case False
  then show ?thesis using assms sound_refl by (simp add: disable_user_def)
next
  case True
  note k = disable_keeps [OF safe_parts(2,3) [OF assms(1)] True assms(2)]
  have "st_drafts st' = st_drafts st" using disable_user_result [OF True assms(2)] by blast
  with k show ?thesis by (intro sound_tasks assms(1)) (simp_all add: gateway_ok_def)
qed

lemma enable_sound: "safe st \<Longrightarrow> sound_step st (enable_user now user actor st)"
proof -
  assume st: "safe st"
  let ?st = "fst (set_active now (us_id user) True None st)"
  have fr: "st_tasks ?st = st_tasks st" "st_drafts ?st = st_drafts st"
    "map us_id (st_users ?st) = map us_id (st_users st)"
    by (simp_all add: set_active_def map_user_ids)
  have "user_ok ?st x" if "x \<in> set (st_users ?st)" for x
  proof -
    have "\<exists>y \<in> set (st_users st). us_id x = us_id y \<and> us_active_task_count x = us_active_task_count y"
      using that unfolding set_active_def update_users_users set_map by (elim imageE, intro bexI) auto
    then obtain y where "y \<in> set (st_users st)" "us_id x = us_id y" "us_active_task_count x = us_active_task_count y" by blast
    moreover from this have "user_ok st y" using ledger_user [OF safe_parts(3) [OF st]] by blast
    ultimately show ?thesis using held_slots_cong [OF fr(1)] by (simp add: user_ok_def)
  qed
  then have "ledger_ok ?st" by (rule ledger_okI [OF safe_parts(3) [OF st] fr(3)])
  then have s: "sound_step st ?st"
    using st tasks_ok_cong [OF fr(1)] later_same [OF fr(1)] drafts_ok_cong [OF fr(2)]
    by (simp add: sound_step_def safe_def gateway_ok_def)
  show ?thesis
  proof (cases "us_is_active user")
    case True
    then show ?thesis using sound_refl [OF st] by (simp add: enable_user_def)
  next
    case False
    show ?thesis by (rule sound_frame [OF s]) (simp_all add: enable_user_def False add_audit_def)
  qed
qed

text \<open>What the code relies on of \<open>DeliveryService.deliver_task\<close>, here for the drafts too.\<close>

definition delivery_quiet :: "(request_task \<Rightarrow> int \<Rightarrow> store \<Rightarrow> store) \<Rightarrow> bool" where
  "delivery_quiet dt \<longleftrightarrow> delivery_frame dt \<and> (\<forall>task c st. st_drafts (dt task c st) = st_drafts st)"

lemma create_sound:
  assumes "safe st" "delivery_quiet dt" "create_task now rnd dt cs ca key w p parsed raw h st = Inr (st', task)"
  shows "sound_step st st'"
proof -
  have dt: "delivery_frame dt" "\<And>task c st. st_drafts (dt task c st) = st_drafts st"
    using assms(2) by (simp_all add: delivery_quiet_def)
  obtain m pr n st1 where
    "assert_protocol_strategy p (ak_reply_strategy key) = Inr ()" "resolve_model ca key (parsed_model parsed) = Some m"
    "previous_of parsed key st = Inr pr" "build_normalized parsed pr p = Inr n"
    and c: "acquire_slot now key w st = Inr st1"
    "task = new_task now rnd key w p parsed (fm_id m) pr raw h n st1"
    and "\<forall>t \<in> set (st_tasks st1). rt_public_id t \<noteq> rt_public_id task \<and>
        (rt_response_public_id t \<noteq> None \<longrightarrow> rt_response_public_id t \<noteq> rt_response_public_id task)"
    and c3: "st' = deliver dt cs task (add_event (rt_id task) EV_CREATED ACTOR_SYSTEM None
        (Some (created_payload p parsed)) (st1\<lparr>st_tasks := st_tasks st1 @ [task]\<rparr>))"
    by (rule create_task_Inr [OF assms(3)])
  have fr: "st_tasks st' = st_tasks st1 @ [task]" "st_users st' = st_users st1" "st_drafts st' = st_drafts st1"
    using deliver_frame [OF dt(1)] dt(2) c3 by (simp_all add: add_event_def deliver_def split: option.split)
  have own: "holding w task" "task_ok task" "rt_id task = fresh_id rt_id (st_tasks st1)"
    using new_task_ok by (simp_all add: c(2) holding_def)
  note k = created_store [OF safe_parts(1) [OF assms(1)] c(1) own(2,3,1) fr(1,2)]
  have "st_drafts st1 = st_drafts st"
    using acquire_slot_Inr [OF safe_parts(3) [OF assms(1)]] c(1) by (auto simp: atomic_acquire_slot_def split_beta)
  then have "drafts_ok st'" using safe_parts(4) [OF assms(1)] fr(3) by (simp add: drafts_ok_cong [of st' st])
  with k(1,4) show ?thesis by (simp add: sound_step_def safe_def)
qed


section \<open>Runs of the gateway\<close>

text \<open>
  One rule for each transaction that the services and endpoints commit, with the guards under which they
  reach it: the row they act on is read in the same transaction. A transaction that raises commits nothing
  and is no step.
\<close>

inductive gateway_step :: "schema_validator \<Rightarrow> store \<Rightarrow> store \<Rightarrow> bool" for ie :: schema_validator where
  created: "delivery_quiet dt \<Longrightarrow> create_task now rnd dt cs ca key w p parsed raw h st = Inr (st', task) \<Longrightarrow> gateway_step ie st st'"
| answered: "post_reply ie now k user d src st = (st', r) \<Longrightarrow> gateway_step ie st st'"
| saved: "get_owned_task k user st = Inr task \<Longrightarrow> save_draft ie now task user d st = Inr (st', row) \<Longrightarrow> gateway_step ie st st'"
| edited: "get_owned_task k user st = Inr task \<Longrightarrow> update_draft ie now task user i d v st = Inr (st', edited_row) \<Longrightarrow> gateway_step ie st st'"
| discarded: "get_owned_task k user st = Inr task \<Longrightarrow> delete_draft task user i st = Inr st' \<Longrightarrow> gateway_step ie st st'"
| seen: "mark_task_seen now k user seen_to st = Inr st' \<Longrightarrow> gateway_step ie st st'"
| claimed: "forward_claim now task reason st = (st', won) \<Longrightarrow> gateway_step ie st st'"
| forwarded: "forward_finish ie now task reason reply st = Inr (st', outcome) \<Longrightarrow> gateway_step ie st st'"
| forward_failed: "fail_forward now k error st = Inr st' \<Longrightarrow> gateway_step ie st st'"
| finished: "state \<in> {TIMED_OUT, COMPLETED, FAILED} \<Longrightarrow> endpoint_finalize now k state perr st = Inr (st', won) \<Longrightarrow>
    gateway_step ie st st'"
| disconnected: "gateway_step ie st (cancel_disconnected now k st)"
| responding: "begin_response now k st = (st', begun) \<Longrightarrow> gateway_step ie st st'"
| swept: "sweep_once now st = (st', counts) \<Longrightarrow> gateway_step ie st st'"
| recovered: "cancel_active_tasks now reason st = (st', n) \<Longrightarrow> gateway_step ie st st'"
| user_disabled: "disable_user now user actor st = Inr (st', impacted) \<Longrightarrow> gateway_step ie st st'"
| user_enabled: "gateway_step ie st (enable_user now user actor st)"

lemma gateway_step_sound: "gateway_step ie st st' \<Longrightarrow> safe st \<Longrightarrow> sound_step st st'"
proof (induction rule: gateway_step.induct)
  case (recovered now reason st st' n)
  then show ?case using cancel_loop_sound [of st now reason 0] by (simp add: cancel_active_tasks_def)
next
  case (finished state now k perr st st' won)
  then show ?case using endpoint_finalize_sound [of st state now k perr st' won] by blast
qed (blast intro: create_sound post_reply_sound save_draft_sound update_draft_sound delete_draft_sound mark_seen_sound
    forward_claim_sound forward_finish_sound fail_forward_sound disconnected_sound begin_response_sound sweep_once_sound
    disable_sound enable_sound)+

lemma run_sound: "(gateway_step ie)\<^sup>*\<^sup>* st st' \<Longrightarrow> safe st \<Longrightarrow> sound_step st st'"
proof (induction rule: rtranclp_induct)
  case base
  then show ?case by (rule sound_refl)
next
  case (step a b)
  then show ?case using gateway_step_sound sound_safe sound_trans by blast
qed




section \<open>A reply that is sent closes its task\<close>

lemma begin_response_ready:
  assumes "safe st" "get_task st k = Some t" "rt_state t = RESPONSE_READY"
  obtains st1 where "begin_response now k st = (st1, True)" "safe st1" "later st st1"
    "get_task st1 k = Some (bump now (t\<lparr>rt_state := RESPONDING, rt_response_started_at := Some now\<rparr>))"
proof -
  have id: "rt_id t = k" using get_task_Some [OF assms(2)] by simp
  have open_row: "rt_slot_released_at t = None"
    using get_task_ok [OF safe_parts(2) [OF assms(1)] assms(2)] assms(3) by (simp add: task_ok_def)
  note r = respond_write.row [OF safe_parts(2) [OF assms(1)]]
  have won: "snd (start_response now k st)" using assms(2,3) open_row by (simp add: start_response_def split_beta r(2))
  define st1 where "st1 = add_event k EV_STREAM ACTOR_SYSTEM None None (fst (start_response now k st))"
  have st1: "begin_response now k st = (st1, True)" "st_tasks st1 = st_tasks (fst (start_response now k st))"
    using assms(2) won id by (simp_all add: begin_response_def mark_responding_def split_beta st1_def add_event_def)
  have "get_task st1 k = Some (bump now (t\<lparr>rt_state := RESPONDING, rt_response_started_at := Some now\<rparr>))"
    using get_task_cong [OF st1(2)] r(1) assms(2,3) open_row by (simp add: start_response_def split_beta)
  moreover have "sound_step st st1" by (rule begin_response_sound [OF assms(1) st1(1)])
  ultimately show ?thesis using that [OF st1(1)] by (simp add: sound_step_def)
qed

text \<open>The last transactions of a response, whatever state they find the task in.\<close>

lemma closing_row:
  assumes "safe st" "get_task st k = Some t" "rt_slot_released_at t = None" "rt_state t \<in> {RESPONSE_READY, RESPONDING}"
  shows "\<exists>st' t'. endpoint_finalize now k COMPLETED None st = Inr (st', True) \<and> safe st' \<and> later st st' \<and>
     get_task st' k = Some t' \<and> rt_state t' = COMPLETED \<and> rt_slot_released_at t' \<noteq> None"
proof -
  have id: "rt_id t = k" and own: "get_task st (rt_id t) = Some t" using get_task_Some [OF assms(2)] assms(2) by auto
  let ?F = "\<lambda>x. with_error (public_code_of COMPLETED None) (terminal_values now COMPLETED x)"
  have trm: "is_terminal COMPLETED" by (simp add: task_state_defs)
  have can: "can_close (endpoint_sources COMPLETED) t"
    using assms(3,4) by (auto simp: can_close_def endpoint_sources_def source_ok_def)
  obtain st' where f: "finalize now t COMPLETED (endpoint_sources COMPLETED) None st = Inr (st', True)"
    "st_tasks st' = map (\<lambda>x. if rt_id x = rt_id t then ?F x else x) (st_tasks st)"
    using finalize_win [OF safe_parts(2) [OF assms(1)] trm own can] by blast
  have e: "endpoint_finalize now k COMPLETED None st = Inr (st', True)"
    using f(1) assms(2) by (simp add: endpoint_finalize_def)
  have "get_task st' k = Some (?F t)"
    using own id by (simp add: get_task_def f(2) get_row_map terminal_values_id)
  moreover have "sound_step st st'"
    by (rule endpoint_finalize_sound [OF assms(1) _ e]) simp
  ultimately show ?thesis
    using e by (intro exI [of _ st'] exI [of _ "?F t"]) (simp add: sound_step_def terminal_values_def bump_def)
qed

lemma disconnect_closes:
  assumes "safe st" "get_task st k = Some t"
  shows "\<exists>t'. get_task (cancel_disconnected now k st) k = Some t' \<and> rt_slot_released_at t' \<noteq> None \<and>
     rt_response_payload t' = rt_response_payload t \<and>
     (if rt_slot_released_at t = None then rt_state t' = CANCELLED else t' = t)"
proof (cases "rt_slot_released_at t = None")
  case True
  have id: "rt_id t = k" using get_task_Some [OF assms(2)] by simp
  obtain st' where c: "cancel_caller_disconnected now k (u ''caller_disconnected'') st = (st', True)"
    "st_tasks st' = map (\<lambda>x. if rt_id x = k then cancel_values now (u ''caller_disconnected'') x else x) (st_tasks st)"
    using cancel_win [OF safe_parts(2) [OF assms(1)] assms(2) True] by blast
  have "get_task st' k = Some (cancel_values now (u ''caller_disconnected'') t)"
    using assms(2) id by (simp add: get_task_def c(2) get_row_map)
  then show ?thesis
    using True by (simp add: cancel_disconnected_def c(1)) (simp add: cancel_values_def terminal_values_def bump_def)
next
  case False
  then have "cancel_caller_disconnected now k (u ''caller_disconnected'') st = (st, False)"
    using assms(2) by (intro cancel_miss safe_parts(2) assms(1)) simp
  then show ?thesis using assms(2) False by (auto simp: cancel_disconnected_def)
qed


definition answered_store :: store where
  "answered_store = fst (first_reply_wins 5 1 7 1 sample_draft sample_store)"

lemma answered_store_facts: "safe answered_store" "get_task answered_store 1 = Some (ready_values 5 sample_draft sample_task)"
proof -
  have "safe sample_store" by (simp add: safe_def gateway_ok_def sample_ledger_ok drafts_ok_def)
  then show "safe answered_store" unfolding answered_store_def by (rule sound_safe [OF reply_sound])
  show "get_task answered_store 1 = Some (ready_values 5 sample_draft sample_task)"
    unfolding answered_store_def by (subst first_reply_wins_tasks) simp_all
qed


text \<open>
  The race of the waiting loop: a reply that is accepted between the read of the loop and its attempt
  to time the task out leaves the caller with 504, and the task in RESPONSE_READY with its slot held. Nothing
  sends the reply any more; the sweeper gives the slot back later.
\<close>

lemma timeout_race:
  "\<exists>st' t. close_overdue (seconds 61) (\<lambda>st. fst (first_reply_wins 5 1 7 1 sample_draft st)) 1 sample_store = Inr (st', Failed timed_out) \<and>
     get_task st' 1 = Some t \<and> rt_state t = RESPONSE_READY \<and> rt_slot_released_at t = None"
proof -
  let ?t = "ready_values 5 sample_draft sample_task"
  have id: "rt_id ?t = 1" by simp
  have "\<not> can_close (endpoint_sources TIMED_OUT) ?t" by (simp add: can_close_def endpoint_sources_def source_ok_def)
  then have "endpoint_finalize (seconds 61) 1 TIMED_OUT None answered_store = Inr (answered_store, False)"
    using answered_store_facts(2) id
    by (simp add: endpoint_finalize_def task_state_defs finalize_miss [OF safe_parts(2) [OF answered_store_facts(1)]])
  then show ?thesis
    using answered_store_facts(2)
    by (simp add: close_overdue_def ready_reply_def answered_store_def [symmetric]) (simp add: ready_values_def bump_def)
qed

end
