(* ===== verification/Commands.thy ===== *)
theory Commands
  imports Store
begin

text \<open>
  The reply commands of instant-messaging users, \<open>app/domain/dsl.py\<close>: slash commands, the
  \<open>#<task_public_id>\<close> target in its two positions, and plain text as the final text of a
  reply. The regular expression \<open>_COMMAND_RE\<close> is written out: a slash, an ASCII letter,
  letters, digits and underscores as long as they last, and the rest of the message.
\<close>

record command =
  cmd_name :: ustr
  cmd_args :: ustr
  cmd_body :: ustr
  cmd_target :: "ustr option"
  cmd_unknown :: bool

definition command_names :: "ustr list" where
  "command_names = [u ''ans'', u ''res'', u ''page'', u ''file'', u ''commit'']"

definition name_start :: "nat \<Rightarrow> bool" where
  "name_start c \<longleftrightarrow> (65 \<le> c \<and> c \<le> 90) \<or> (97 \<le> c \<and> c \<le> 122)"

definition name_char :: "nat \<Rightarrow> bool" where
  "name_char c \<longleftrightarrow> name_start c \<or> (48 \<le> c \<and> c \<le> 57) \<or> c = 95"

text \<open>\<open>_COMMAND_RE.match\<close>: the groups \<open>name\<close> and \<open>rest\<close>.\<close>

fun command_match :: "ustr \<Rightarrow> (ustr \<times> ustr) option" where
  "command_match (s # c # cs) =
     (if s = 47 \<and> name_start c
      then Some (c # takeWhile name_char cs, dropWhile name_char cs) else None)"
| "command_match _ = None"

definition split_target :: "ustr \<Rightarrow> ustr option \<times> ustr" where
  "split_target text =
     (let stripped = strip text
      in if \<not> startswith stripped (u ''#'') then (None, text)
         else
           (let (candidate, rest) = partition_at 32 (drop 1 stripped); candidate = strip candidate
            in if candidate = [] then (None, text) else (Some candidate, strip rest)))"

definition plain_command :: "ustr \<Rightarrow> command" where
  "plain_command name =
     \<lparr>cmd_name = name, cmd_args = [], cmd_body = [], cmd_target = None, cmd_unknown = False\<rparr>"

definition unknown_command :: "ustr \<Rightarrow> command" where
  "unknown_command name = (plain_command name)\<lparr>cmd_unknown := True\<rparr>"

definition lstrip_newlines :: "ustr \<Rightarrow> ustr" where
  "lstrip_newlines s = dropWhile (\<lambda>c. c = 10) s"

definition command_body :: "ustr \<Rightarrow> ustr" where
  "command_body rest =
     (if startswith rest [32] \<or> startswith rest [9] then drop 1 rest else lstrip_newlines rest)"

text \<open>The tokens of the first line: an optional target, then the argument.\<close>

definition line_target :: "ustr list \<Rightarrow> ustr option \<times> ustr list" where
  "line_target tokens =
     (case tokens of
        [] \<Rightarrow> (None, [])
      | t # ts \<Rightarrow> if startswith t (u ''#'') \<and> length t > 1 then (Some (drop 1 t), ts)
                 else (None, tokens))"

definition parse_command :: "ustr \<Rightarrow> command option" where
  "parse_command text =
     (let stripped = strip text
      in if \<not> startswith stripped (u ''/'') then None
         else
           (case command_match stripped of
              None \<Rightarrow> Some (unknown_command [])
            | Some (raw_name, rest) \<Rightarrow>
                let name = ascii_lower raw_name
                in if name \<notin> set command_names then Some (unknown_command name)
                   else if name = u ''ans'' \<or> name = u ''res'' then
                     (let (target, body) = split_target (command_body rest)
                      in Some ((plain_command name)\<lparr>cmd_body := body, cmd_target := target\<rparr>))
                   else
                     (let first_line = fst (partition_at 10 rest);
                          (target, tokens) = line_target (py_split first_line);
                          args = (if tokens = [] then [] else hd tokens)
                      in if name = u ''commit'' then Some ((plain_command name)\<lparr>cmd_target := target\<rparr>)
                         else Some ((plain_command name)\<lparr>cmd_args := args, cmd_target := target\<rparr>))))"

definition is_command_text :: "ustr \<Rightarrow> bool" where
  "is_command_text text \<longleftrightarrow> parse_command text \<noteq> None"

definition extract_task_target :: "ustr \<Rightarrow> ustr option \<times> ustr" where
  "extract_task_target text =
     (let stripped = strip text
      in if \<not> startswith stripped (u ''#'') then (None, stripped)
         else
           (let (public_id, rest) = partition_at 32 (drop 1 stripped)
            in (if strip public_id = [] then None else Some (strip public_id), strip rest)))"

definition parse_reply :: "ustr \<Rightarrow> reply_draft" where
  "parse_reply body =
     \<lparr>rd_reasoning = None, rd_tool_calls = [],
       rd_final_text = (if strip body = [] then None else Some (strip body))\<rparr>"

definition parse_message :: "ustr \<Rightarrow> ustr option \<times> reply_draft" where
  "parse_message text = (let (public_id, body) = extract_task_target text in (public_id, parse_reply body))"

definition dsl_is_empty_draft :: "reply_draft \<Rightarrow> bool" where
  "dsl_is_empty_draft draft \<longleftrightarrow>
     \<not> (case rd_final_text draft of None \<Rightarrow> False | Some t \<Rightarrow> t \<noteq> [] \<and> strip t \<noteq> [])"

section \<open>Texts without white space at their ends\<close>

definition trimmed :: "ustr \<Rightarrow> bool" where
  "trimmed s \<longleftrightarrow> s \<noteq> [] \<and> \<not> py_space (hd s) \<and> \<not> py_space (last s)"

definition token :: "ustr \<Rightarrow> bool" where
  "token s \<longleftrightarrow> s \<noteq> [] \<and> (\<forall>c \<in> set s. \<not> py_space c)"

lemma strip_trimmed: "trimmed s \<Longrightarrow> strip s = s"
proof -
  assume t: "trimmed s"
  then have "lstrip s = s" by (simp add: lstrip_noop trimmed_def)
  moreover have "dropWhile py_space (rev s) = rev s"
    using t by (simp add: dropWhile_eq_self_iff trimmed_def hd_rev)
  ultimately show ?thesis by (simp add: strip_def rstrip_def)
qed

lemma py_space_simps [simp]: "py_space 32" "py_space 9" "py_space 10" "\<not> py_space 35"
  "\<not> py_space 47"
  by (simp_all add: py_space_def)

lemma token_trimmed: "token s \<Longrightarrow> trimmed s"
  by (cases s) (auto simp: token_def trimmed_def)

lemma trimmed_append: "trimmed s \<Longrightarrow> trimmed t \<Longrightarrow> trimmed (s @ w @ t)"
  by (auto simp: trimmed_def)

lemma token_no_32: "token s \<Longrightarrow> \<forall>c \<in> set s. c \<noteq> 32"
  by (auto simp: token_def)

lemma partition_first: "\<forall>c \<in> set s. c \<noteq> k \<Longrightarrow> partition_at k (s @ k # t) = (s, t)"
  by (simp add: partition_at_def takeWhile_append2 dropWhile_append2)

lemma u_hash: "u ''#'' = [35]" and u_slash: "u ''/'' = [47]" and u_blank: "u '' '' = [32]"
  by (simp_all add: u_def)

lemma trimmed_hash: "trimmed s \<Longrightarrow> trimmed (35 # s)"
  by (auto simp: trimmed_def)

lemma split_target_hit:
  assumes "token i" "trimmed body"
  shows "split_target (35 # i @ 32 # body) = (Some i, body)"
proof -
  have "trimmed (35 # i @ [32] @ body)"
    by (intro trimmed_hash trimmed_append token_trimmed assms)
  then have "strip (35 # i @ 32 # body) = 35 # i @ 32 # body" by (simp add: strip_trimmed)
  moreover have "strip i = i" "strip body = body" "i \<noteq> []"
    using assms by (simp_all add: strip_trimmed token_trimmed token_def)
  ultimately show ?thesis
    using partition_first [OF token_no_32 [OF assms(1)], of body]
    by (simp add: split_target_def u_hash startswith_def)
qed

text \<open>
  Targets in the command position and in the front position agree: \<open>/ans #id body\<close>, and
  \<open>#id /ans body\<close> read the way the inbound handler reads it (first the target, then the
  command), give the same task and the same reply text, whatever the case of the command word.
\<close>

theorem target_positions_agree:
  assumes "token i" "trimmed body" "\<not> startswith body (u ''#'')"
  shows "map_option (\<lambda>c. (cmd_target c, cmd_body c)) (parse_command (u ''/ans #'' @ i @ u '' '' @ body))
       = Some (Some i, body) \<and>
     fst (extract_task_target (u ''#'' @ i @ u '' /ANS '' @ body)) = Some i \<and>
     map_option cmd_body (parse_command (snd (extract_task_target (u ''#'' @ i @ u '' /ANS '' @ body))))
       = Some body"
proof -
  have ans: "ascii_lower [97, 110, 115] = u ''ans''" "ascii_lower [65, 78, 83] = u ''ans''"
    by (simp_all add: ascii_lower_def lower_char_def u_def)
  have mem: "u ''ans'' \<in> set command_names" by (simp add: command_names_def)
  have t1: "trimmed (47 # 97 # 110 # 115 # 32 # 35 # i @ 32 # body)"
    using assms(2) by (auto simp: trimmed_def)
  have t2: "trimmed (47 # 65 # 78 # 83 # 32 # body)"
    using assms(2) by (auto simp: trimmed_def)
  have t3: "trimmed (35 # i @ 32 # 47 # 65 # 78 # 83 # 32 # body)"
    using assms(2) by (auto simp: trimmed_def)
  have A: "parse_command (u ''/ans #'' @ i @ u '' '' @ body) =
      Some ((plain_command (u ''ans''))\<lparr>cmd_body := body, cmd_target := Some i\<rparr>)"
    using strip_trimmed [OF t1] ans mem split_target_hit [OF assms(1,2)]
    by (simp add: parse_command_def u_def [of "''/ans #''"] u_slash u_blank startswith_def
        name_start_def name_char_def command_body_def)
  have B: "extract_task_target (u ''#'' @ i @ u '' /ANS '' @ body) =
      (Some i, 47 # 65 # 78 # 83 # 32 # body)"
    using strip_trimmed [OF t3] strip_trimmed [OF t2] assms(1)
      partition_first [OF token_no_32 [OF assms(1)], of "47 # 65 # 78 # 83 # 32 # body"]
    by (simp add: extract_task_target_def u_hash u_def [of "'' /ANS ''"] startswith_def
        strip_trimmed token_trimmed token_def)
  have C: "split_target body = (None, body)"
    using assms(2,3) by (simp add: split_target_def strip_trimmed)
  have D: "parse_command (47 # 65 # 78 # 83 # 32 # body) =
      Some ((plain_command (u ''ans''))\<lparr>cmd_body := body, cmd_target := None\<rparr>)"
    using strip_trimmed [OF t2] ans mem C
    by (simp add: parse_command_def u_slash startswith_def name_start_def name_char_def command_body_def)
  show ?thesis by (simp add: A B D)
qed

theorem target_positions_agree_witness:
  "map_option (\<lambda>c. (cmd_target c, cmd_body c)) (parse_command (u ''/ans #'' @ u ''t1'' @ u '' '' @ u ''yes''))
     = Some (Some (u ''t1''), u ''yes'')"
  by (rule target_positions_agree [of "u ''t1''" "u ''yes''", THEN conjunct1])
    (simp_all add: token_def trimmed_def py_space_def startswith_def u_def)

text \<open>What every parsed command satisfies.\<close>

definition well_formed :: "command \<Rightarrow> bool" where
  "well_formed c \<longleftrightarrow> (cmd_unknown c \<longleftrightarrow> cmd_name c \<notin> set command_names) \<and>
     (cmd_body c = [] \<or> cmd_name c \<in> {u ''ans'', u ''res''}) \<and>
     (cmd_args c = [] \<or> cmd_name c \<in> {u ''page'', u ''file''})"

lemma well_formed_intros:
  "name \<notin> set command_names \<Longrightarrow> well_formed (unknown_command name)"
  "name \<in> {u ''ans'', u ''res''} \<Longrightarrow>
     well_formed ((plain_command name)\<lparr>cmd_body := b, cmd_target := t\<rparr>)"
  "well_formed ((plain_command (u ''commit''))\<lparr>cmd_target := t\<rparr>)"
  "name \<in> {u ''page'', u ''file''} \<Longrightarrow>
     well_formed ((plain_command name)\<lparr>cmd_args := a, cmd_target := t\<rparr>)"
  by (auto simp: well_formed_def unknown_command_def plain_command_def command_names_def)

lemma parse_command_well_formed:
  assumes "parse_command text = Some c"
  shows "well_formed c"
proof (cases "command_match (strip text)")
  case None
  then have "c = unknown_command []"
    using assms by (simp add: parse_command_def Let_def split: if_splits)
  then show ?thesis by (simp add: well_formed_intros command_names_def)
next
  case (Some nr)
  obtain raw rest where nr: "nr = (raw, rest)" by (cases nr)
  define name where "name = ascii_lower raw"
  consider "name \<notin> set command_names" | "name \<in> {u ''ans'', u ''res''}" | "name = u ''commit''"
    | "name \<in> {u ''page'', u ''file''}"
    by (auto simp: command_names_def)
  then show ?thesis
    using assms Some nr
    by cases (auto simp: parse_command_def Let_def command_names_def well_formed_intros
      split: if_splits prod.splits simp flip: name_def)
qed

text \<open>
  Classification of a message: it is a command exactly when its first visible character
  is a slash; a slash word is marked unknown exactly when it is not one of the five commands;
  only \<open>/ans\<close> and \<open>/res\<close> carry a text, only \<open>/page\<close> and \<open>/file\<close> an argument; and a message
  with neither a slash nor a hash is the reply text itself, empty only when it is blank.
\<close>

theorem command_classification:
  "(is_command_text text \<longleftrightarrow> startswith (strip text) (u ''/'')) \<and>
   (\<forall>c. parse_command text = Some c \<longrightarrow>
      (cmd_unknown c \<longleftrightarrow> cmd_name c \<notin> set command_names) \<and>
      (cmd_body c \<noteq> [] \<longrightarrow> cmd_name c \<in> {u ''ans'', u ''res''}) \<and>
      (cmd_args c \<noteq> [] \<longrightarrow> cmd_name c \<in> {u ''page'', u ''file''})) \<and>
   (\<not> startswith (strip text) (u ''#'') \<longrightarrow>
      fst (parse_message text) = None \<and>
      rd_final_text (snd (parse_message text)) = (if blank text then None else Some (strip text)) \<and>
      (dsl_is_empty_draft (snd (parse_message text)) \<longleftrightarrow> blank text))"
proof (intro conjI allI impI)
  show "is_command_text text \<longleftrightarrow> startswith (strip text) (u ''/'')"
    by (simp add: is_command_text_def parse_command_def Let_def split: option.split prod.split)
next
  fix c assume "parse_command text = Some c"
  then have w: "well_formed c" by (rule parse_command_well_formed)
  show "cmd_unknown c \<longleftrightarrow> cmd_name c \<notin> set command_names"
    using w by (simp add: well_formed_def)
  show "cmd_name c \<in> {u ''ans'', u ''res''}" if "cmd_body c \<noteq> []"
    using w that by (simp add: well_formed_def)
  show "cmd_name c \<in> {u ''page'', u ''file''}" if "cmd_args c \<noteq> []"
    using w that by (simp add: well_formed_def)
qed (auto simp: parse_message_def extract_task_target_def parse_reply_def blank_def
    dsl_is_empty_draft_def Let_def)

theorem command_classification_witness:
  "rd_final_text (snd (parse_message (u '' hi ''))) = Some (u ''hi'') \<and>
   \<not> is_command_text (u '' hi '')"
proof -
  have t: "strip (u '' hi '') = u ''hi''"
    by (simp add: strip_def lstrip_def rstrip_def u_def py_space_def)
  have q: "\<not> startswith (strip (u '' hi '')) (u ''#'')" and v: "\<not> startswith (u ''hi'') (u ''/'')"
    unfolding t by (simp_all add: startswith_def u_def)
  have r: "\<not> blank (u '' hi '')" by (simp add: blank_def t)
  note c = command_classification [of "u '' hi ''"]
  show ?thesis
    using c [THEN conjunct1] c [THEN conjunct2, THEN conjunct2, rule_format, OF q] r t v by simp
qed

end
