(* ===== verification/Inbound.thy ===== *)
theory Inbound
  imports Outbound Gateway Commands
begin

text \<open>
  Messages that come in from messaging users, \<open>ConnectionService.handle_inbound\<close>
  (\<open>app/services/connection_service.py\<close>): one receipt per message, the binding of a connection to its user,
  the task a message is meant for, the commands, and the reply itself, which runs under the same rules as
  a reply from the workbench. An exception leaves the database as it was (the session is rolled back).
\<close>

record inbound_message =
  ms_external_message_id :: ustr
  ms_sender_external_id :: ustr
  ms_text :: ustr
  ms_binding_code :: "ustr option"
  ms_reply_to_public_id :: "ustr option"

section \<open>Digests\<close>

text \<open>\<open>hashlib.sha256(s.encode()).hexdigest()\<close>: a lone surrogate cannot be encoded.\<close>

definition sha_text :: "im_env \<Rightarrow> ustr \<Rightarrow> ustr result" where
  "sha_text env s = (if list_ex surrogate s then Inl (PyError ValueError) else Inr (ev_sha256 env s))"

definition sender_fingerprint :: "im_env \<Rightarrow> im_connection \<Rightarrow> inbound_message \<Rightarrow> ustr result" where
  "sender_fingerprint env row m =
     bindr (sha_text env (int_str (ic_id row) @ u '':'' @ ms_sender_external_id m)) (\<lambda>h. Inr (take 32 h))"

definition payload_hash :: "im_env \<Rightarrow> inbound_message \<Rightarrow> ustr result" where
  "payload_hash env m =
     sha_text env (dumps (JObj [
       (u ''reply_to'', case ms_reply_to_public_id m of None \<Rightarrow> JNull | Some r \<Rightarrow> JStr r),
       (u ''sender'', JStr (ms_sender_external_id m)), (u ''text'', JStr (ms_text m))]))"

text \<open>\<open>hmac.compare_digest\<close> on strings takes ASCII only.\<close>

definition compare_digest :: "ustr \<Rightarrow> ustr \<Rightarrow> bool result" where
  "compare_digest a b = (if list_ex (\<lambda>c. c > 127) (a @ b) then Inl (PyError TypeError) else Inr (a = b))"

text \<open>\<open>encoded.split("$", 2)\<close> with three parts, or no match.\<close>

definition verify_salted_digest :: "im_env \<Rightarrow> ustr \<Rightarrow> ustr \<Rightarrow> bool result" where
  "verify_salted_digest env secret encoded =
     (let parts = split_at 36 encoded
      in if length parts < 3 then Inr False
         else (let salt = parts ! 1; expected = join [36] (drop 2 parts)
               in bindr (sha_text env (salt @ u '':'' @ secret)) (\<lambda>actual. compare_digest actual expected)))"

definition verify_binding_code :: "im_env \<Rightarrow> ustr \<Rightarrow> ustr \<Rightarrow> bool result" where
  "verify_binding_code env code encoded = verify_salted_digest env (strip (ev_upper env code)) encoded"

section \<open>The task of a message\<close>

definition find_task_by_public_id :: "im_connection \<Rightarrow> ustr \<Rightarrow> im \<Rightarrow> request_task option" where
  "find_task_by_public_id row public_id s =
     (if public_id = [] then None else get_by_public_id (ic_owner_user_id row) public_id (im_db s))"

definition sole_waiting_task :: "im_connection \<Rightarrow> im \<Rightarrow> request_task option" where
  "sole_waiting_task row s =
     (case filter (\<lambda>t. rt_owner_user_id t = ic_owner_user_id row \<and> rt_state t = WAITING_HUMAN) (st_tasks (im_db s)) of
        [t] \<Rightarrow> Some t | _ \<Rightarrow> None)"

text \<open>
  The target of a message: the quoted task, the target of the command, the \<open>#id\<close> at its start, the only
  waiting task. \<open>None\<close> refuses the message; the text and the command come back as the search leaves them.
\<close>

definition or_sole :: "im_connection \<Rightarrow> im \<Rightarrow> request_task option \<Rightarrow> request_task option" where
  "or_sole row s task = (case task of None \<Rightarrow> sole_waiting_task row s | Some t \<Rightarrow> Some t)"

definition prefix_target ::
  "im_connection \<Rightarrow> im \<Rightarrow> ustr \<Rightarrow> command option \<Rightarrow> request_task option \<times> ustr \<times> command option" where
  "prefix_target row s body cmd =
     (if \<not> startswith body (u ''#'') then (None, body, cmd)
      else
        (let (public_id, rest) = partition_at 32 (drop 1 body)
         in case find_task_by_public_id row public_id s of
              None \<Rightarrow> (None, body, cmd)
            | Some t \<Rightarrow> (Some t, strip rest, (if cmd = None then parse_command (strip rest) else cmd))))"

definition locate_task ::
  "im_connection \<Rightarrow> inbound_message \<Rightarrow> im \<Rightarrow> ustr \<Rightarrow> (request_task option \<times> ustr \<times> command option) option" where
  "locate_task row m s body =
     (let cmd = parse_command body;
          quoted = (case ms_reply_to_public_id m of None \<Rightarrow> [] | Some r \<Rightarrow> r);
          target = (case cmd of None \<Rightarrow> [] | Some c \<Rightarrow> (case cmd_target c of None \<Rightarrow> [] | Some t \<Rightarrow> t))
      in if quoted \<noteq> [] then
           map_option (\<lambda>t. (Some t, body, cmd)) (find_task_by_public_id row quoted s)
         else if target \<noteq> [] then
           map_option (\<lambda>t. (Some t, body, cmd)) (find_task_by_public_id row target s)
         else
           (case prefix_target row s body cmd of (task, body', cmd') \<Rightarrow> Some (or_sole row s task, body', cmd')))"

section \<open>Replies\<close>

definition TOOL_NOTICE :: ustr where
  "TOOL_NOTICE = [22238, 22797, 26410, 28385, 36275, 35843, 29992, 26041, 24037, 20855, 35201, 27714, 65292, 35831, 22312, 32, 87, 101, 98, 32, 24037, 20316, 21488, 26816, 26597, 24037, 20855, 35843, 29992, 21644, 39118, 38505, 30830, 35748, 21518, 25552, 20132, 12290]"

definition validate_im_reply ::
  "im_env \<Rightarrow> im_connection \<Rightarrow> request_task \<Rightarrow> reply_draft \<Rightarrow> im \<Rightarrow> (im \<times> bool) result" where
  "validate_im_reply env row task draft s =
     (case bindr (validate_reply_draft (ev_iter_errors env) task draft True)
             (\<lambda>_. assert_tool_call_warning_acknowledged task draft (im_db s)) of
        Inr _ \<Rightarrow> Inr (s, True)
      | Inl e \<Rightarrow> if is_domain_error e then Inr (send_feedback row TOOL_NOTICE s, False) else Inl e)"

definition im_payload :: "im_connection \<Rightarrow> obj" where
  "im_payload row = [(u ''source'', S ''im''), (u ''connection_id'', JInt (ic_id row))]"

definition im_event :: "im_connection \<Rightarrow> int \<Rightarrow> task_event_type \<Rightarrow> obj \<Rightarrow> im \<Rightarrow> im" where
  "im_event row task_id ty extra =
     on_db (add_event task_id ty ACTOR_IM (Some (ic_owner_user_id row)) (Some (im_payload row @ extra)))"

definition SUBMITTED_NOTICE :: ustr where
  "SUBMITTED_NOTICE = [24050, 25552, 20132, 22238, 22797, 12290]"

definition set_receipt_task :: "inbound_receipt \<Rightarrow> request_task \<Rightarrow> im \<Rightarrow> im" where
  "set_receipt_task receipt task = put_receipt receipt (\<lambda>r. r\<lparr>ir_task_id := Some (rt_id task)\<rparr>)"

definition reply_late :: "im_connection \<Rightarrow> request_task \<Rightarrow> inbound_receipt \<Rightarrow> im \<Rightarrow> im" where
  "reply_late row task receipt s =
     set_receipt_task receipt task
       (im_event row (rt_id task) EV_REPLY_REJECTED_LATE [(u ''payload_hash'', JStr (ir_payload_hash receipt))] s)"

definition plain_reply :: "ustr \<Rightarrow> reply_draft" where
  "plain_reply body = \<lparr>rd_reasoning = None, rd_tool_calls = [], rd_final_text = Some body\<rparr>"

definition im_first_reply :: "im_env \<Rightarrow> request_task \<Rightarrow> reply_draft \<Rightarrow> im \<Rightarrow> im \<times> bool" where
  "im_first_reply env task draft s =
     (let (db, accepted) = first_reply_wins (ev_now env) (rt_id task) (rt_owner_user_id task) (rt_version task)
            draft (im_db s)
      in (s\<lparr>im_db := db\<rparr>, accepted))"

definition submit_plain ::
  "im_env \<Rightarrow> im_connection \<Rightarrow> request_task \<Rightarrow> ustr \<Rightarrow> inbound_receipt \<Rightarrow> im \<Rightarrow> (im \<times> inbound_result) result" where
  "submit_plain env row task body receipt s =
     bindr (validate_im_reply env row task (plain_reply body) s) (\<lambda>(s1, valid).
       if \<not> valid then Inr (s1, UNHANDLED)
       else
         (let (s2, accepted) = im_first_reply env task (plain_reply body) s1
          in if accepted then
               Inr (set_receipt_task receipt task (send_feedback row SUBMITTED_NOTICE
                      (im_event row (rt_id task) EV_REPLY_SUBMITTED [] s2)), ACCEPTED)
             else Inr (reply_late row task receipt s2, LATE)))"

section \<open>Commands\<close>

definition staged_notice :: "bool \<Rightarrow> ustr \<Rightarrow> ustr" where
  "staged_notice reasoning body =
     (if reasoning then [24050, 35760, 24405, 24605, 32771, 65288] else [24050, 35760, 24405, 22238, 31572, 65288]) @ nat_digits (length body) @
     [32, 23383, 65289, 65292, 22238, 22797, 32, 47, 99, 111, 109, 109, 105, 116, 32, 30830, 35748, 25552, 20132]"

definition stage_text :: "instant \<Rightarrow> bool \<Rightarrow> ustr \<Rightarrow> task_draft \<Rightarrow> task_draft" where
  "stage_text now reasoning body d =
     (let d1 = (if reasoning then d\<lparr>td_reasoning_text := Some body\<rparr> else d\<lparr>td_final_text := Some body\<rparr>)
      in d1\<lparr>td_version := td_version d1 + 1, td_updated_at := now\<rparr>)"

definition active_or_new :: "instant \<Rightarrow> request_task \<Rightarrow> store \<Rightarrow> (store \<times> task_draft) result" where
  "active_or_new now task st =
     (case get_active_draft (rt_id task) st of
        Some d \<Rightarrow> Inr (st, d)
      | None \<Rightarrow> create_draft now (rt_id task) (rt_owner_user_id task) MANUAL None (u ''[]'') None st)"

definition stage_draft ::
  "im_env \<Rightarrow> im_connection \<Rightarrow> request_task option \<Rightarrow> command \<Rightarrow> bool \<Rightarrow> inbound_receipt \<Rightarrow> im \<Rightarrow>
   (im \<times> inbound_result) result" where
  "stage_draft env row task cmd reasoning receipt s =
     (case task of
        None \<Rightarrow> Inr (s, UNHANDLED)
      | Some t \<Rightarrow>
          if cmd_body cmd = [] then Inr (s, UNHANDLED)
          else
            bindr (active_or_new (ev_now env) t (im_db s)) (\<lambda>(db, d).
            (let db = fst (update_drafts (\<lambda>r. td_id r = td_id d) (stage_text (ev_now env) reasoning (cmd_body cmd)) db)
             in Inr (set_receipt_task receipt t (send_feedback row (staged_notice reasoning (cmd_body cmd)) (s\<lparr>im_db := db\<rparr>)),
                  ACCEPTED))))"

text \<open>\<open>payload.get("tool_calls") or []\<close>: stored calls that are false count as none.\<close>

definition staged_reply :: "task_draft \<Rightarrow> reply_draft result" where
  "staged_reply d =
     (if truthy (stored_calls d) then draft_from_row d
      else Inr \<lparr>rd_reasoning = td_reasoning_text d, rd_tool_calls = [], rd_final_text = td_final_text d\<rparr>)"

definition nothing_staged :: "reply_draft \<Rightarrow> bool" where
  "nothing_staged d \<longleftrightarrow> \<not> (truthy_text (rd_reasoning d) \<or> truthy_text (rd_final_text d) \<or> rd_tool_calls d \<noteq> [])"

definition commit_draft ::
  "im_env \<Rightarrow> im_connection \<Rightarrow> request_task option \<Rightarrow> inbound_receipt \<Rightarrow> im \<Rightarrow> (im \<times> inbound_result) result" where
  "commit_draft env row task receipt s =
     (case task of
        None \<Rightarrow> Inr (s, UNHANDLED)
      | Some t \<Rightarrow>
          (case get_active_draft (rt_id t) (im_db s) of
             None \<Rightarrow> Inr (s, UNHANDLED)
           | Some d \<Rightarrow>
               bindr (staged_reply d) (\<lambda>draft.
               if nothing_staged draft then Inr (s, UNHANDLED)
               else
                 bindr (validate_im_reply env row t draft s) (\<lambda>(s1, valid).
                 if \<not> valid then Inr (s1, UNHANDLED)
                 else
                   (let (s2, accepted) = im_first_reply env t draft s1
                    in if accepted then
                         (let s3 = on_db (\<lambda>db. fst (mark_draft_state (ev_now env) (td_id d) SUBMITTED db)) s2;
                              s4 = im_event row (rt_id t) EV_REPLY_SUBMITTED [(u ''committed'', JBool True)] s3
                          in Inr (set_receipt_task receipt t (send_feedback row SUBMITTED_NOTICE s4), ACCEPTED))
                       else Inr (reply_late row t receipt s2, LATE))))))"

text \<open>
  \<open>int(text)\<close>: a sign, then decimal digits of any script (Unicode 15), single underscores between them, at
  most 4300 digits. The argument is a word of the message, so it holds no white space.
\<close>

definition zero_digits :: "nat list" where
  "zero_digits = [48, 1632, 1776, 1984, 2406, 2534, 2662, 2790, 2918, 3046, 3174, 3302, 3430, 3558, 3664, 3792,
     3872, 4160, 4240, 6112, 6160, 6470, 6608, 6784, 6800, 6992, 7088, 7232, 7248, 42528, 43216, 43264, 43472,
     43504, 43600, 44016, 65296, 66720, 68912, 69734, 69872, 69942, 70096, 70384, 70736, 70864, 71248, 71360,
     71472, 71904, 72016, 72784, 73040, 73120, 73552, 92768, 92864, 93008, 120782, 120792, 120802, 120812,
     120822, 123200, 123632, 124144, 125264, 130032]"

definition digit_value :: "nat \<Rightarrow> nat option" where
  "digit_value c = map_option (\<lambda>z. c - z) (find (\<lambda>z. z \<le> c \<and> c < z + 10) zero_digits)"

fun int_digits :: "nat \<Rightarrow> nat \<Rightarrow> ustr \<Rightarrow> (nat \<times> nat) option" where
  "int_digits n acc [] = Some (n, acc)"
| "int_digits n acc (c # cs) =
     (if c = 95 then
        (case cs of
           [] \<Rightarrow> None
         | d # ds \<Rightarrow> (case digit_value d of None \<Rightarrow> None | Some v \<Rightarrow> int_digits (n + 1) (10 * acc + v) ds))
      else (case digit_value c of None \<Rightarrow> None | Some v \<Rightarrow> int_digits (n + 1) (10 * acc + v) cs))"

definition py_nat :: "ustr \<Rightarrow> nat option" where
  "py_nat s =
     (case s of
        [] \<Rightarrow> None
      | c # cs \<Rightarrow> if c = 95 then None
                 else (case int_digits 0 0 s of None \<Rightarrow> None | Some (n, v) \<Rightarrow> if n > 4300 then None else Some v))"

definition py_int :: "ustr \<Rightarrow> int option" where
  "py_int s =
     (case s of
        [] \<Rightarrow> None
      | c # cs \<Rightarrow> if c = 45 then map_option (\<lambda>v. - int v) (py_nat cs)
                 else if c = 43 then map_option int (py_nat cs) else map_option int (py_nat s))"

text \<open>\<open>send_page\<close> always ends, see \<open>send_page_returns\<close>.\<close>

definition handle_page_command ::
  "im_env \<Rightarrow> im_connection \<Rightarrow> request_task option \<Rightarrow> command \<Rightarrow> im \<Rightarrow> (im \<times> inbound_result) result" where
  "handle_page_command env row task cmd s =
     (case task of
        None \<Rightarrow> Inr (s, UNHANDLED)
      | Some t \<Rightarrow>
          (case (if cmd_args cmd = [] then Some 1 else py_int (cmd_args cmd)) of
             None \<Rightarrow> Inr (s, UNHANDLED)
           | Some page \<Rightarrow> bindr (the (send_page env row t page s)) (\<lambda>s'. Inr (s', ACCEPTED))))"

definition handle_file_command ::
  "im_env \<Rightarrow> im_connection \<Rightarrow> request_task option \<Rightarrow> command \<Rightarrow> im \<Rightarrow> (im \<times> inbound_result) result" where
  "handle_file_command env row task cmd s =
     (case task of
        None \<Rightarrow> Inr (s, UNHANDLED)
      | Some t \<Rightarrow>
          (let fmt = ascii_lower (if cmd_args cmd = [] then u ''txt'' else cmd_args cmd)
           in if fmt = u ''txt'' then bindr (send_file env row t ''txt'' s) (\<lambda>s'. Inr (s', ACCEPTED))
              else if fmt = u ''md'' then bindr (send_file env row t ''md'' s) (\<lambda>s'. Inr (s', ACCEPTED))
              else Inr (s, UNHANDLED)))"

definition handle_command ::
  "im_env \<Rightarrow> im_connection \<Rightarrow> request_task option \<Rightarrow> command \<Rightarrow> inbound_receipt \<Rightarrow> im \<Rightarrow>
   (im \<times> inbound_result) result" where
  "handle_command env row task cmd receipt s =
     (if cmd_unknown cmd then Inr (s, UNHANDLED)
      else if cmd_name cmd = u ''res'' then stage_draft env row task cmd True receipt s
      else if cmd_name cmd = u ''ans'' then stage_draft env row task cmd False receipt s
      else if cmd_name cmd = u ''commit'' then commit_draft env row task receipt s
      else if cmd_name cmd = u ''page'' then handle_page_command env row task cmd s
      else if cmd_name cmd = u ''file'' then handle_file_command env row task cmd s
      else Inr (s, UNHANDLED))"

section \<open>Messages\<close>

definition WELCOME :: ustr where
  "WELCOME = [36830, 25509, 32465, 23450, 25104, 21151, 65292, 21487, 20197, 24320, 22987, 25509, 25910, 20219, 21153, 12290, 10] @ IM_COMMAND_HELP"

definition NO_TASK :: ustr where
  "NO_TASK = [36825, 26465, 28040, 24687, 27809, 26377, 23545, 24212, 30340, 31561, 24453, 20219, 21153, 12290, 10] @ IM_COMMAND_HELP"

definition first_message :: "im_connection \<Rightarrow> ustr \<Rightarrow> im \<Rightarrow> bool" where
  "first_message row body s \<longleftrightarrow> body \<noteq> [] \<and>
     (case ic_last_authenticated_at row of
        None \<Rightarrow> count_inbound_receipts (ic_id row) s = 1
      | Some since \<Rightarrow> count_inbound_receipts_since (ic_id row) since s = 1)"

definition submit_task_reply ::
  "im_env \<Rightarrow> im_connection \<Rightarrow> inbound_message \<Rightarrow> inbound_receipt \<Rightarrow> im \<Rightarrow> (im \<times> inbound_result) result" where
  "submit_task_reply env row m receipt s =
     (let body = strip (ms_text m)
      in if body = [] then Inr (s, UNHANDLED)
         else
           (case locate_task row m s body of
              None \<Rightarrow> Inr (s, UNHANDLED)
            | Some (task, body, Some cmd) \<Rightarrow> handle_command env row task cmd receipt s
            | Some (Some t, body, None) \<Rightarrow>
                if body = [] then Inr (send_feedback row NO_TASK s, UNHANDLED)
                else submit_plain env row t body receipt s
            | Some (None, body, None) \<Rightarrow>
                Inr (send_feedback row (if first_message row body s then WELCOME else NO_TASK) s, UNHANDLED)))"

definition bound_audit :: "im_connection \<Rightarrow> audit_log" where
  "bound_audit row =
     \<lparr>al_action = ''connection.bound'', al_resource_type = ''im_connection'', al_resource_id = ic_id row,
       al_actor_user_id = None, al_owner_user_id = Some (ic_owner_user_id row),
       al_metadata = [(u ''fields'', JList [S ''bound_external_user_id''])]\<rparr>"

definition im_reply_audit :: "request_task \<Rightarrow> audit_log" where
  "im_reply_audit task =
     \<lparr>al_action = ''task.reply_submitted'', al_resource_type = ''request_task'', al_resource_id = rt_id task,
       al_actor_user_id = None, al_owner_user_id = Some (rt_owner_user_id task),
       al_metadata = [(u ''fields'', JList [S ''response_payload'']), (u ''source'', S ''im'')]\<rparr>"

definition set_result :: "inbound_receipt \<Rightarrow> inbound_result \<Rightarrow> im \<Rightarrow> im" where
  "set_result receipt r = put_receipt receipt (\<lambda>x. x\<lparr>ir_result_code := r\<rparr>)"

definition binding_ok :: "im_env \<Rightarrow> im_connection \<Rightarrow> inbound_message \<Rightarrow> bool result" where
  "binding_ok env row m =
     (case (ms_binding_code m, ic_binding_code_hash row) of
        (Some code, Some encoded) \<Rightarrow>
          if code = [] \<or> encoded = [] then Inr False
          else bindr (verify_binding_code env code encoded) (\<lambda>ok.
            Inr (ok \<and> (case ic_binding_code_expires_at row of None \<Rightarrow> True | Some t \<Rightarrow> t > ev_now env)))
      | _ \<Rightarrow> Inr False)"

definition bind_sender ::
  "im_env \<Rightarrow> im_connection \<Rightarrow> inbound_message \<Rightarrow> inbound_receipt \<Rightarrow> im \<Rightarrow> (im \<times> inbound_result) result" where
  "bind_sender env row m receipt s =
     bindr (binding_ok env row m) (\<lambda>ok.
       if \<not> ok then Inr (set_result receipt UNBOUND s, UNBOUND)
       else Inr (set_result receipt BOUND (on_db (add_audit (bound_audit row))
              (bind_external_user (ev_now env) (ic_id row) (ms_sender_external_id m) s)), BOUND))"

definition reply_audited :: "inbound_receipt \<Rightarrow> inbound_result \<Rightarrow> im \<Rightarrow> im" where
  "reply_audited receipt r s =
     (if r \<noteq> ACCEPTED then s
      else
        (case find (\<lambda>x. ir_id x = ir_id receipt) (im_receipts s) of
           None \<Rightarrow> s
         | Some x \<Rightarrow>
             (case ir_task_id x of
                None \<Rightarrow> s
              | Some i \<Rightarrow>
                  if i = 0 then s
                  else (case get_task (im_db s) i of
                          None \<Rightarrow> s
                        | Some t \<Rightarrow> on_db (add_audit (im_reply_audit t)) s))))"

definition handle_inbound ::
  "im_env \<Rightarrow> im_connection \<Rightarrow> inbound_message \<Rightarrow> im \<Rightarrow> (im \<times> inbound_result) result" where
  "handle_inbound env row m s =
     (if ms_external_message_id m = [] then Inr (s, UNHANDLED)
      else
        bindr (sender_fingerprint env row m) (\<lambda>fingerprint.
        bindr (payload_hash env m) (\<lambda>hash.
        (case record_receipt (ev_now env) (ic_id row) (ms_external_message_id m) fingerprint hash ACCEPTED s of
           None \<Rightarrow> Inr (s, DUPLICATE)
         | Some (s1, receipt) \<Rightarrow>
             (case ic_bound_external_user_id row of
                None \<Rightarrow> bind_sender env row m receipt s1
              | Some bound \<Rightarrow>
                  if ms_sender_external_id m \<noteq> [] \<and> ms_sender_external_id m \<noteq> bound
                  then Inr (set_result receipt UNBOUND s1, UNBOUND)
                  else
                    bindr (submit_task_reply env row m receipt s1) (\<lambda>(s2, r).
                      Inr (reply_audited receipt r (set_result receipt r s2), r)))))))"

text \<open>The callback of the connectors; a rolled back transaction leaves the database as it was.\<close>

definition stop_after_binding :: "im_env \<Rightarrow> int \<Rightarrow> im \<Rightarrow> im" where
  "stop_after_binding env connection_id s =
     put_connection connection_id (\<lambda>c. c\<lparr>ic_state := CONN_STOPPED, ic_next_retry_at := None, ic_updated_at := ev_now env\<rparr>)
       (s\<lparr>im_running := removeAll connection_id (im_running s)\<rparr>)"

definition inbound_handler :: "im_env \<Rightarrow> int \<Rightarrow> inbound_message \<Rightarrow> im \<Rightarrow> im \<times> inbound_result result" where
  "inbound_handler env connection_id m s =
     (case get_connection connection_id s of
        None \<Rightarrow> (s, Inr UNHANDLED)
      | Some row \<Rightarrow>
          (case handle_inbound env row m s of
             Inl e \<Rightarrow> (s, Inl e)
           | Inr (s', r) \<Rightarrow>
               if r = BOUND \<and> \<not> ic_desired_running row then (stop_after_binding env connection_id s', Inr r)
               else (s', Inr r)))"

end
