(* ===== verification/Inbound_Contract.thy ===== *)
theory Inbound_Contract
  imports Inbound
begin

text \<open>
  What a message of a messaging user may do: it is handled once, it reaches only tasks of the owner of the
  connection, only as the bound user, and only as a first compliant reply; everything else it changes is the
  receipts, the drafts, the logs and what is sent back.
\<close>

section \<open>Steps that leave the tasks alone\<close>

definition receipt_keys :: "im \<Rightarrow> (int \<times> int \<times> ustr) list" where
  "receipt_keys s = map (\<lambda>r. (ir_id r, ir_connection_id r, ir_external_message_id r)) (im_receipts s)"

definition same_accounts :: "store \<Rightarrow> store \<Rightarrow> bool" where
  "same_accounts st st' \<longleftrightarrow> st_users st' = st_users st \<and> st_sessions st' = st_sessions st \<and> st_keys st' = st_keys st \<and>
     st_inbox st' = st_inbox st"

definition im_quiet :: "im \<Rightarrow> im \<Rightarrow> bool" where
  "im_quiet s s' \<longleftrightarrow> im_connections s' = im_connections s \<and> im_running s' = im_running s \<and>
     receipt_keys s' = receipt_keys s \<and> same_accounts (im_db s) (im_db s') \<and> st_tasks (im_db s') = st_tasks (im_db s) \<and>
     (drafts_ok (im_db s) \<longrightarrow> drafts_ok (im_db s'))"

named_theorems calm

lemma same_accounts_refl [simp]: "same_accounts st st" by (simp add: same_accounts_def)

lemma same_accounts_trans: "same_accounts a b \<Longrightarrow> same_accounts b c \<Longrightarrow> same_accounts a c"
  by (simp add: same_accounts_def)

lemma calm_refl [simp]: "im_quiet s s" by (simp add: im_quiet_def)

lemma calm_trans: "im_quiet a b \<Longrightarrow> im_quiet b c \<Longrightarrow> im_quiet a c"
  unfolding im_quiet_def using same_accounts_trans by (metis (no_types, lifting))

lemma calm_same: "same_state s s' \<Longrightarrow> im_quiet s s'"
  by (simp add: same_state_def im_quiet_def receipt_keys_def)

lemma calm_feedback [calm]: "im_quiet s (send_feedback row body s)"
  by (rule calm_same) (simp add: same_feedback)

lemma receipt_keys_put: "(\<And>r. (ir_id (f r), ir_connection_id (f r), ir_external_message_id (f r)) =
    (ir_id r, ir_connection_id r, ir_external_message_id r)) \<Longrightarrow> receipt_keys (put_receipt receipt f s) = receipt_keys s"
  by (simp add: receipt_keys_def put_receipt_def sql_update_def)

lemma calm_put_receipt:
  assumes "\<And>r. (ir_id (f r), ir_connection_id (f r), ir_external_message_id (f r)) =
    (ir_id r, ir_connection_id r, ir_external_message_id r)"
  shows "im_quiet s (put_receipt receipt f s)"
  using receipt_keys_put [OF assms, of receipt s] by (simp add: im_quiet_def) (simp add: put_receipt_def)

lemma calm_receipt_task [calm]: "im_quiet s (set_receipt_task receipt task s)"
  unfolding set_receipt_task_def by (rule calm_put_receipt) simp

lemma calm_result [calm]: "im_quiet s (set_result receipt r s)"
  unfolding set_result_def by (rule calm_put_receipt) simp

lemma calm_db:
  assumes "same_accounts (im_db s) db" "st_tasks db = st_tasks (im_db s)" "drafts_ok (im_db s) \<longrightarrow> drafts_ok db"
  shows "im_quiet s (s\<lparr>im_db := db\<rparr>)"
  using assms by (simp add: im_quiet_def receipt_keys_def)

lemma calm_event [calm]: "im_quiet s (im_event row k ty extra s)"
  unfolding im_event_def on_db_def
  by (rule calm_db) (simp_all add: same_accounts_def add_event_def drafts_ok_def)

lemma calm_audit [calm]: "im_quiet s (on_db (add_audit a) s)"
  unfolding on_db_def by (rule calm_db) (simp_all add: same_accounts_def add_audit_def drafts_ok_def)

lemma update_drafts_accounts [simp]: "same_accounts st (fst (update_drafts c f st))"
  by (simp add: same_accounts_def update_drafts_def sql_update_def)

lemma calm_late [calm]: "im_quiet s (reply_late row task receipt s)"
  unfolding reply_late_def by (rule calm_trans [OF calm_event calm_receipt_task])

lemma calm_mark [calm]: "im_quiet s (on_db (\<lambda>db. fst (mark_draft_state now i SUBMITTED db)) s)"
  unfolding on_db_def
  by (rule calm_db) (auto simp: mark_draft_state_def split_beta intro: update_drafts_ok)

lemma calm_audited [calm]: "im_quiet s (reply_audited receipt r s)"
  by (auto simp: reply_audited_def calm_audit split: option.split)

section \<open>The one step that answers a task\<close>

definition answered :: "schema_validator \<Rightarrow> instant \<Rightarrow> int \<Rightarrow> request_task \<Rightarrow> request_task \<Rightarrow> bool" where
  "answered ie now owner t t' \<longleftrightarrow> rt_owner_user_id t = owner \<and> rt_state t = WAITING_HUMAN \<and>
     (\<exists>d. compliant ie (catalog_for_task t) (map CallModel (rd_tool_calls d)) \<and> t' = ready_values now d t)"

definition inbound_effect :: "im_env \<Rightarrow> int \<Rightarrow> im \<Rightarrow> im \<Rightarrow> bool" where
  "inbound_effect env owner s s' \<longleftrightarrow> im_connections s' = im_connections s \<and> im_running s' = im_running s \<and>
     receipt_keys s' = receipt_keys s \<and> same_accounts (im_db s) (im_db s') \<and> sound_step (im_db s) (im_db s') \<and>
     (\<forall>k. get_task (im_db s') k = get_task (im_db s) k \<or>
        (\<exists>t t'. get_task (im_db s) k = Some t \<and> get_task (im_db s') k = Some t' \<and>
           answered (ev_iter_errors env) (ev_now env) owner t t'))"

lemma quiet_effect:
  assumes "safe (im_db s)" "im_quiet s s'"
  shows "inbound_effect env owner s s'"
proof -
  have "sound_step (im_db s) (im_db s')"
    by (rule sound_same) (use assms in \<open>auto simp: im_quiet_def same_accounts_def safe_def\<close>)
  then show ?thesis using assms(2) get_task_cong [of "im_db s'" "im_db s"] by (simp add: inbound_effect_def im_quiet_def)
qed

lemma effect_quiet_trans:
  assumes "inbound_effect env owner s s1" "im_quiet s1 s'"
  shows "inbound_effect env owner s s'"
proof -
  have "sound_step (im_db s1) (im_db s')"
    by (rule sound_same) (use assms in \<open>auto simp: im_quiet_def same_accounts_def inbound_effect_def sound_step_def safe_def\<close>)
  then have "sound_step (im_db s) (im_db s')" using assms(1) sound_trans by (auto simp: inbound_effect_def)
  then show ?thesis
    using assms get_task_cong [of "im_db s'" "im_db s1"]
    by (simp add: inbound_effect_def im_quiet_def same_accounts_def)
qed

lemma quiet_effect_trans:
  assumes "safe (im_db s)" "im_quiet s s1" "inbound_effect env owner s1 s'"
  shows "inbound_effect env owner s s'"
proof -
  have "sound_step (im_db s) (im_db s1)"
    by (rule sound_same) (use assms in \<open>auto simp: im_quiet_def same_accounts_def safe_def\<close>)
  then have "sound_step (im_db s) (im_db s')" using assms(3) sound_trans by (auto simp: inbound_effect_def)
  then show ?thesis
    using assms get_task_cong [of "im_db s1" "im_db s"]
    by (simp add: inbound_effect_def im_quiet_def same_accounts_def)
qed

lemma quiet_safe: "safe (im_db s) \<Longrightarrow> im_quiet s s1 \<Longrightarrow> safe (im_db s1)"
  using quiet_effect by (fastforce simp: inbound_effect_def sound_step_def)

lemma first_reply_effect:
  assumes "safe (im_db s)" "im_first_reply env t d s = (s', won)" "rt_owner_user_id t = owner"
    "catalog_for_task t = catalog_for_task t0" "get_task (im_db s) (rt_id t) = Some t0"
    "compliant (ev_iter_errors env) (catalog_for_task t) (map CallModel (rd_tool_calls d))"
  shows "inbound_effect env owner s s'"
proof -
  let ?db = "fst (first_reply_wins (ev_now env) (rt_id t) (rt_owner_user_id t) (rt_version t) d (im_db s))"
  have s': "s' = s\<lparr>im_db := ?db\<rparr>" using assms(2) by (auto simp: im_first_reply_def split_beta)
  have frame: "same_accounts (im_db s) ?db"
    by (simp add: same_accounts_def first_reply_wins_def split_beta)
  have ok: "tasks_ok (im_db s)" using assms(1) by (rule safe_parts)
  have "get_task ?db k = get_task (im_db s) k \<or>
      (\<exists>t t'. get_task (im_db s) k = Some t \<and> get_task ?db k = Some t' \<and>
         answered (ev_iter_errors env) (ev_now env) owner t t')" for k
    using assms(3-6) by (auto simp: first_reply_wins_tasks [OF ok] answered_def)
  then show ?thesis
    using reply_sound [OF assms(1)] frame by (simp add: inbound_effect_def s' receipt_keys_def)
qed

section \<open>Every way a message is handled\<close>

text \<open>The task that the search found is a row of the owner of the connection.\<close>

definition own_row :: "im_connection \<Rightarrow> im \<Rightarrow> request_task \<Rightarrow> bool" where
  "own_row row s t \<longleftrightarrow> get_task (im_db s) (rt_id t) = Some t \<and> rt_owner_user_id t = ic_owner_user_id row"

lemma own_row_member:
  assumes "safe (im_db s)" "t \<in> set (st_tasks (im_db s))" "rt_owner_user_id t = ic_owner_user_id row"
  shows "own_row row s t"
  using get_task_member [of "im_db s" t] safe_parts(2) [OF assms(1)] assms by (simp add: own_row_def tasks_ok_def)

lemma find_task_own:
  assumes "safe (im_db s)" "find_task_by_public_id row p s = Some t"
  shows "own_row row s t"
  using assms find_Some_iff [of _ "st_tasks (im_db s)" t]
  by (auto simp: find_task_by_public_id_def get_by_public_id_def split: if_splits intro!: own_row_member)

lemma sole_waiting_own:
  assumes "safe (im_db s)" "sole_waiting_task row s = Some t"
  shows "own_row row s t"
proof -
  have "filter (\<lambda>t. rt_owner_user_id t = ic_owner_user_id row \<and> rt_state t = WAITING_HUMAN) (st_tasks (im_db s)) = [t]"
    using assms(2) by (simp add: sole_waiting_task_def split: list.splits)
  then have "t \<in> set (filter (\<lambda>t. rt_owner_user_id t = ic_owner_user_id row \<and> rt_state t = WAITING_HUMAN) (st_tasks (im_db s)))"
    by simp
  then show ?thesis using assms(1) by (auto intro: own_row_member)
qed

lemma locate_own:
  assumes "safe (im_db s)" "locate_task row m s body = Some (Some t, body', cmd)"
  shows "own_row row s t"
proof -
  have "find_task_by_public_id row p s = Some t \<Longrightarrow> own_row row s t" for p
    by (rule find_task_own [OF assms(1)])
  moreover have "sole_waiting_task row s = Some t \<Longrightarrow> own_row row s t" by (rule sole_waiting_own [OF assms(1)])
  moreover have "(\<exists>p. find_task_by_public_id row p s = Some t) \<or> sole_waiting_task row s = Some t"
    using assms(2)
    by (auto simp: locate_task_def prefix_target_def or_sole_def Let_def split_beta split: if_splits option.splits)
  ultimately show ?thesis by blast
qed

lemma own_row_quiet: "im_quiet s s' \<Longrightarrow> own_row row s' t = own_row row s t"
  using get_task_cong [of "im_db s'" "im_db s"] by (simp add: own_row_def im_quiet_def)

lemma validate_im_reply_valid:
  assumes "validate_im_reply env row t d s = Inr (s1, v)"
  shows "im_quiet s s1 \<and> (v \<longrightarrow> compliant (ev_iter_errors env) (catalog_for_task t) (map CallModel (rd_tool_calls d)))"
proof (cases "bindr (validate_reply_draft (ev_iter_errors env) t d True)
    (\<lambda>_. assert_tool_call_warning_acknowledged t d (im_db s))")
  case (Inl e)
  then show ?thesis using assms calm_feedback by (auto simp: validate_im_reply_def split: if_splits)
next
  case (Inr x)
  then have "s1 = s" using assms by (simp add: validate_im_reply_def)
  moreover have "compliant (ev_iter_errors env) (catalog_for_task t) (map CallModel (rd_tool_calls d))"
    using Inr by (auto simp: bindr_Inr_iff validate_reply_draft_iff Let_def)
  ultimately show ?thesis by simp
qed

lemma reply_effect:
  assumes "safe (im_db s)" "own_row row s t" "validate_im_reply env row t d s = Inr (s1, True)"
    "im_first_reply env t d s1 = (s2, won)" "im_quiet s2 s'"
  shows "inbound_effect env (ic_owner_user_id row) s s'"
proof -
  have v: "im_quiet s s1" "compliant (ev_iter_errors env) (catalog_for_task t) (map CallModel (rd_tool_calls d))"
    using validate_im_reply_valid [OF assms(3)] by simp_all
  have own: "get_task (im_db s1) (rt_id t) = Some t" "rt_owner_user_id t = ic_owner_user_id row"
    using assms(2) own_row_quiet [OF v(1), of row t] by (simp_all add: own_row_def)
  have "inbound_effect env (ic_owner_user_id row) s1 s2"
    by (rule first_reply_effect [OF quiet_safe [OF assms(1) v(1)] assms(4) own(2) refl own(1) v(2)])
  then show ?thesis using quiet_effect_trans [OF assms(1) v(1)] effect_quiet_trans [OF _ assms(5)] by blast
qed

lemma submit_plain_effect:
  assumes "safe (im_db s)" "own_row row s t" "submit_plain env row t body receipt s = Inr (s', r)"
  shows "inbound_effect env (ic_owner_user_id row) s s'"
proof -
  obtain s1 v where v: "validate_im_reply env row t (plain_reply body) s = Inr (s1, v)"
    using assms(3) by (auto simp: submit_plain_def bindr_Inr_iff)
  show ?thesis
  proof (cases v)
    case False
    then have "s' = s1" using assms(3) v by (simp add: submit_plain_def)
    then show ?thesis using quiet_effect [OF assms(1)] validate_im_reply_valid [OF v] by blast
  next
    case True
    obtain s2 won where f: "im_first_reply env t (plain_reply body) s1 = (s2, won)" by fastforce
    have q: "im_quiet s2 s'"
      using assms(3) v True f calm_late calm_trans [OF calm_trans [OF calm_event calm_feedback] calm_receipt_task]
      by (auto simp: submit_plain_def split: if_splits)
    show ?thesis by (rule reply_effect [OF assms(1,2) _ f q]) (use v True in simp)
  qed
qed

lemma active_or_new_drafts:
  assumes "active_or_new now t st = Inr (st', d)"
  shows "same_accounts st st' \<and> st_tasks st' = st_tasks st \<and> (drafts_ok st \<longrightarrow> drafts_ok st')"
proof (cases "get_active_draft (rt_id t) st")
  case (Some x)
  then show ?thesis using assms by (simp add: active_or_new_def)
next
  case None
  then have c: "create_draft now (rt_id t) (rt_owner_user_id t) MANUAL None (u ''[]'') None st = Inr (st', d)"
    using assms by (simp add: active_or_new_def)
  then have "same_accounts st st' \<and> st_tasks st' = st_tasks st"
    by (auto simp: create_draft_def same_accounts_def Let_def split: if_splits)
  then show ?thesis using create_draft_ok(1) [OF _ c] by blast
qed

lemma stage_text_keys [simp]: "td_id (stage_text now b body d) = td_id d"
  "td_task_id (stage_text now b body d) = td_task_id d" "td_state (stage_text now b body d) = td_state d"
  by (simp_all add: stage_text_def)

lemma stage_draft_quiet:
  assumes "stage_draft env row task cmd b receipt s = Inr (s', r)"
  shows "im_quiet s s'"
proof (cases "task = None \<or> cmd_body cmd = []")
  case True
  then show ?thesis using assms by (auto simp: stage_draft_def split: option.splits)
next
  case False
  then obtain t where t: "task = Some t" "cmd_body cmd \<noteq> []" by auto
  obtain db d where a: "active_or_new (ev_now env) t (im_db s) = Inr (db, d)"
    using assms t by (auto simp: stage_draft_def bindr_Inr_iff)
  let ?db = "fst (update_drafts (\<lambda>x. td_id x = td_id d) (stage_text (ev_now env) b (cmd_body cmd)) db)"
  have "drafts_ok db \<Longrightarrow> drafts_ok ?db" by (rule update_drafts_ok) simp_all
  then have db: "im_quiet s (s\<lparr>im_db := ?db\<rparr>)"
    using active_or_new_drafts [OF a] same_accounts_trans [OF _ update_drafts_accounts]
    by (intro calm_db) auto
  have "s' = set_receipt_task receipt t (send_feedback row (staged_notice b (cmd_body cmd)) (s\<lparr>im_db := ?db\<rparr>))"
    using assms t a by (simp add: stage_draft_def)
  then show ?thesis using calm_trans [OF calm_trans [OF db calm_feedback] calm_receipt_task] by simp
qed

lemma commit_draft_effect:
  assumes "safe (im_db s)" "\<And>t. task = Some t \<Longrightarrow> own_row row s t" "commit_draft env row task receipt s = Inr (s', r)"
  shows "inbound_effect env (ic_owner_user_id row) s s'"
proof (cases "s' = s")
  case True
  then show ?thesis using quiet_effect [OF assms(1)] by simp
next
  case False
  then obtain t d draft s1 v where t: "task = Some t" "get_active_draft (rt_id t) (im_db s) = Some d"
    "staged_reply d = Inr draft" "\<not> nothing_staged draft" and v: "validate_im_reply env row t draft s = Inr (s1, v)"
    using assms(3) by (auto simp: commit_draft_def bindr_Inr_iff split: option.splits if_splits)
  show ?thesis
  proof (cases v)
    case False
    then have "s' = s1" using assms(3) t v by (simp add: commit_draft_def)
    then show ?thesis using quiet_effect [OF assms(1)] validate_im_reply_valid [OF v] by blast
  next
    case True
    obtain s2 won where f: "im_first_reply env t draft s1 = (s2, won)" by fastforce
    have q: "im_quiet s2 s'"
      using assms(3) t v True f calm_late
        calm_trans [OF calm_trans [OF calm_trans [OF calm_mark calm_event] calm_feedback] calm_receipt_task]
      by (auto simp: commit_draft_def Let_def split: if_splits)
    show ?thesis by (rule reply_effect [OF assms(1) assms(2) [OF t(1)] _ f q]) (use v True in simp)
  qed
qed

lemma page_command_quiet:
  assumes "handle_page_command env row task cmd s = Inr (s', r)"
  shows "im_quiet s s'"
proof (cases task)
  case None
  then show ?thesis using assms by (simp add: handle_page_command_def)
next
  case (Some t)
  have p: "the (send_page env row t page s) = Inr x \<Longrightarrow> send_page env row t page s = Some (Inr x)" for page x
    using send_page_returns [of env row t page s] by auto
  show ?thesis
    using assms Some
    by (auto simp: handle_page_command_def bindr_Inr_iff dest!: p send_page_quiet intro!: calm_same split: option.splits)
qed

lemma file_command_quiet: "handle_file_command env row task cmd s = Inr (s', r) \<Longrightarrow> im_quiet s s'"
  by (auto simp: handle_file_command_def bindr_Inr_iff Let_def dest!: send_file_quiet intro: calm_same
      split: option.splits if_splits)

lemma handle_command_effect:
  assumes "safe (im_db s)" "\<And>t. task = Some t \<Longrightarrow> own_row row s t" "handle_command env row task cmd receipt s = Inr (s', r)"
  shows "inbound_effect env (ic_owner_user_id row) s s'"
proof -
  have "s' = s \<or> stage_draft env row task cmd True receipt s = Inr (s', r) \<or>
      stage_draft env row task cmd False receipt s = Inr (s', r) \<or> commit_draft env row task receipt s = Inr (s', r) \<or>
      handle_page_command env row task cmd s = Inr (s', r) \<or> handle_file_command env row task cmd s = Inr (s', r)"
    using assms(3) by (simp add: handle_command_def split: if_splits)
  then have "im_quiet s s' \<or> commit_draft env row task receipt s = Inr (s', r)"
    by (auto dest: stage_draft_quiet page_command_quiet file_command_quiet)
  then show ?thesis
  proof
    assume "commit_draft env row task receipt s = Inr (s', r)"
    then show ?thesis by (rule commit_draft_effect [OF assms(1), rotated]) (rule assms(2))
  qed (rule quiet_effect [OF assms(1)])
qed

lemma submit_task_reply_effect:
  assumes "safe (im_db s)" "submit_task_reply env row m receipt s = Inr (s', r)"
  shows "inbound_effect env (ic_owner_user_id row) s s'"
proof (cases "strip (ms_text m) = []")
  case True
  then show ?thesis using assms quiet_effect [OF assms(1)] by (simp add: submit_task_reply_def)
next
  case False
  let ?l = "locate_task row m s (strip (ms_text m))"
  have quiet: "s' = s \<Longrightarrow> ?thesis" "s' = send_feedback row n s \<Longrightarrow> ?thesis" for n
    using quiet_effect [OF assms(1)] calm_feedback by simp_all
  show ?thesis
  proof (cases ?l)
    case None
    then show ?thesis using assms(2) False quiet by (simp add: submit_task_reply_def Let_def)
  next
    case (Some p)
    obtain task body cmd where l: "?l = Some (task, body, cmd)" using Some by (cases p) auto
    have own: "\<And>t. task = Some t \<Longrightarrow> own_row row s t" using l locate_own [OF assms(1)] by blast
    show ?thesis
    proof (cases cmd)
      case (Some c)
      then have "handle_command env row task c receipt s = Inr (s', r)"
        using assms(2) False l by (cases task) (simp_all add: submit_task_reply_def Let_def)
      then show ?thesis by (rule handle_command_effect [OF assms(1), rotated]) (rule own)
    next
      case None
      show ?thesis
      proof (cases "task = None \<or> body = []")
        case True
        then show ?thesis using assms(2) False l None quiet
          by (auto simp: submit_task_reply_def Let_def split: option.splits)
      next
        case filled: False
        then obtain t where "task = Some t" by auto
        moreover from this have "submit_plain env row t body receipt s = Inr (s', r)"
          using assms(2) False l None filled by (simp add: submit_task_reply_def Let_def)
        ultimately show ?thesis using submit_plain_effect [OF assms(1)] own by blast
      qed
    qed
  qed
qed

section \<open>One receipt per message\<close>

lemma record_receipt_Some:
  assumes "record_receipt now c e f h code s = Some (s1, receipt)"
  shows "im_quiet s (s1\<lparr>im_receipts := im_receipts s\<rparr>)" "im_db s1 = im_db s" "im_connections s1 = im_connections s"
    "receipt_keys s1 = receipt_keys s @ [(ir_id receipt, c, e)]" "get_receipt c e s = None"
    "im_running s1 = im_running s"
  using assms
  by (auto simp: record_receipt_def Let_def receipt_keys_def im_quiet_def split: option.splits)

lemma get_receipt_iff: "get_receipt c e s \<noteq> None \<longleftrightarrow> (c, e) \<in> snd ` set (receipt_keys s)"
proof -
  have "get_receipt c e s \<noteq> None \<longleftrightarrow> (\<exists>r \<in> set (im_receipts s). is_receipt c e r)"
    using find_None_iff [of "is_receipt c e" "im_receipts s"] by (simp add: get_receipt_def) blast
  then show ?thesis by (auto simp: receipt_keys_def is_receipt_def image_def)
qed

lemma bind_sender_result:
  assumes "bind_sender env row m receipt s = Inr (s', r)"
  shows "receipt_keys s' = receipt_keys s" "st_tasks (im_db s') = st_tasks (im_db s)"
    "same_accounts (im_db s) (im_db s')" "drafts_ok (im_db s') = drafts_ok (im_db s)"
    "r = UNBOUND \<and> im_connections s' = im_connections s \<or>
     r = BOUND \<and> binding_ok env row m = Inr True \<and>
     im_connections s' = im_connections (bind_external_user (ev_now env) (ic_id row) (ms_sender_external_id m) s)"
proof -
  obtain ok where ok: "binding_ok env row m = Inr ok"
    and s': "s' = (if ok then set_result receipt BOUND (on_db (add_audit (bound_audit row))
        (bind_external_user (ev_now env) (ic_id row) (ms_sender_external_id m) s)) else set_result receipt UNBOUND s)"
    and r: "r = (if ok then BOUND else UNBOUND)"
    using assms by (auto simp: bind_sender_def bindr_Inr_iff split: if_splits)
  have b: "im_db (bind_external_user now c w s) = im_db s" "im_receipts (bind_external_user now c w s) = im_receipts s" for now c w
    by (simp_all add: bind_external_user_def put_connection_def)
  have q: "im_quiet x (set_result receipt c x)" "im_quiet x (on_db (add_audit a) x)" for c x a
    by (rule calm_result, rule calm_audit)
  have k: "receipt_keys (bind_external_user now c w s) = receipt_keys s" for now c w
    by (simp add: receipt_keys_def b)
  have d: "drafts_ok (im_db (set_result receipt c x)) = drafts_ok (im_db x)"
      "drafts_ok (im_db (on_db (add_audit a) x)) = drafts_ok (im_db x)" for c x a
    by (simp_all add: set_result_def put_receipt_def on_db_def drafts_ok_def add_audit_def)
  show "receipt_keys s' = receipt_keys s" "st_tasks (im_db s') = st_tasks (im_db s)"
    using q k b by (simp_all add: s' im_quiet_def)
  show "same_accounts (im_db s) (im_db s')"
    using q b unfolding s' im_quiet_def by (simp add: same_accounts_def)
  show "drafts_ok (im_db s') = drafts_ok (im_db s)" by (simp add: s' d b)
  show "r = UNBOUND \<and> im_connections s' = im_connections s \<or>
     r = BOUND \<and> binding_ok env row m = Inr True \<and>
     im_connections s' = im_connections (bind_external_user (ev_now env) (ic_id row) (ms_sender_external_id m) s)"
    using q ok by (simp add: s' r im_quiet_def)
qed

text \<open>The three ways in which a message with a new identifier is handled.\<close>

lemma handle_inbound_cases:
  assumes "handle_inbound env row m s = Inr (s', r)"
  obtains (ignored) "s' = s" "ms_external_message_id m = [] \<and> r = UNHANDLED \<or>
      ms_external_message_id m \<noteq> [] \<and> r = DUPLICATE \<and> get_receipt (ic_id row) (ms_external_message_id m) s \<noteq> None"
  | (binding) f h s1 receipt where "ms_external_message_id m \<noteq> []"
      "record_receipt (ev_now env) (ic_id row) (ms_external_message_id m) f h ACCEPTED s = Some (s1, receipt)"
      "ic_bound_external_user_id row = None" "bind_sender env row m receipt s1 = Inr (s', r)"
  | (stranger) f h s1 receipt b where "ms_external_message_id m \<noteq> []"
      "record_receipt (ev_now env) (ic_id row) (ms_external_message_id m) f h ACCEPTED s = Some (s1, receipt)"
      "ic_bound_external_user_id row = Some b" "ms_sender_external_id m \<noteq> b" "s' = set_result receipt UNBOUND s1" "r = UNBOUND"
  | (reply) f h s1 receipt b s2 where "ms_external_message_id m \<noteq> []"
      "record_receipt (ev_now env) (ic_id row) (ms_external_message_id m) f h ACCEPTED s = Some (s1, receipt)"
      "ic_bound_external_user_id row = Some b" "ms_sender_external_id m = [] \<or> ms_sender_external_id m = b"
      "submit_task_reply env row m receipt s1 = Inr (s2, r)" "s' = reply_audited receipt r (set_result receipt r s2)"
proof (cases "ms_external_message_id m = []")
  case True
  then show ?thesis using assms ignored by (simp add: handle_inbound_def)
next
  case False
  obtain f h where fh: "sender_fingerprint env row m = Inr f" "payload_hash env m = Inr h"
    using assms False by (auto simp: handle_inbound_def bindr_Inr_iff)
  show ?thesis
  proof (cases "record_receipt (ev_now env) (ic_id row) (ms_external_message_id m) f h ACCEPTED s")
    case None
    then have "s' = s" "r = DUPLICATE" "get_receipt (ic_id row) (ms_external_message_id m) s \<noteq> None"
      using assms False fh by (auto simp: handle_inbound_def record_receipt_def Let_def split: option.splits)
    then show ?thesis using ignored False by blast
  next
    case (Some p)
    obtain s1 receipt where rec: "record_receipt (ev_now env) (ic_id row) (ms_external_message_id m) f h ACCEPTED s = Some (s1, receipt)"
      using Some by (cases p) auto
    show ?thesis
    proof (cases "ic_bound_external_user_id row")
      case None
      then show ?thesis using assms False fh rec binding by (simp add: handle_inbound_def)
    next
      case (Some b)
      show ?thesis
      proof (cases "ms_sender_external_id m \<noteq> [] \<and> ms_sender_external_id m \<noteq> b")
        case True
        then show ?thesis using assms False fh rec Some stranger by (simp add: handle_inbound_def)
      next
        case same: False
        then obtain s2 where "submit_task_reply env row m receipt s1 = Inr (s2, r)"
          "s' = reply_audited receipt r (set_result receipt r s2)"
          using assms False fh rec Some by (auto simp: handle_inbound_def bindr_Inr_iff)
        then show ?thesis using reply False rec Some same by blast
      qed
    qed
  qed
qed

lemma handled_reply:
  assumes "safe (im_db s1)" "submit_task_reply env row m receipt s1 = Inr (s2, r)"
  shows "inbound_effect env (ic_owner_user_id row) s1 (reply_audited receipt r (set_result receipt r s2))"
  by (rule effect_quiet_trans [OF submit_task_reply_effect [OF assms] calm_trans [OF calm_result calm_audited]])

section \<open>The contract\<close>

lemma handle_inbound_keys:
  assumes "safe (im_db s)" "handle_inbound env row m s = Inr (s', r)"
  shows "\<exists>ks. receipt_keys s' = receipt_keys s @ ks \<and>
    (if ms_external_message_id m = [] then ks = []
     else if get_receipt (ic_id row) (ms_external_message_id m) s = None
     then \<exists>i. ks = [(i, ic_id row, ms_external_message_id m)] else ks = [])"
  using assms(2)
proof (cases rule: handle_inbound_cases)
  case ignored
  then show ?thesis using record_receipt_Some by auto
next
  case (binding f h s1 receipt)
  then show ?thesis using record_receipt_Some [OF binding(2)] bind_sender_result(1) [OF binding(4)] by simp
next
  case (stranger f h s1 receipt b)
  then show ?thesis using record_receipt_Some [OF stranger(2)] calm_result [of s1 receipt UNBOUND]
    by (simp add: im_quiet_def)
next
  case (reply f h s1 receipt b s2)
  have "inbound_effect env (ic_owner_user_id row) s1 s'"
    using handled_reply [of s1] assms(1) reply record_receipt_Some(2) [OF reply(2)] by simp
  then show ?thesis using record_receipt_Some [OF reply(2)] reply(1) by (simp add: inbound_effect_def)
qed

text \<open>Only the receipt can say that a message is a duplicate.\<close>

lemma handle_command_new: "handle_command env row task cmd receipt s = Inr (s', r) \<Longrightarrow> r \<noteq> DUPLICATE"
  by (auto simp: handle_command_def stage_draft_def commit_draft_def handle_page_command_def handle_file_command_def
      bindr_Inr_iff Let_def split_beta split: if_splits option.splits)

lemma submit_plain_new: "submit_plain env row t body receipt s = Inr (s', r) \<Longrightarrow> r \<noteq> DUPLICATE"
  by (auto simp: submit_plain_def bindr_Inr_iff Let_def split_beta split: if_splits)

lemma submit_task_reply_new: "submit_task_reply env row m receipt s = Inr (s', r) \<Longrightarrow> r \<noteq> DUPLICATE"
  by (auto simp: submit_task_reply_def Let_def dest: handle_command_new submit_plain_new split: if_splits option.splits)

text \<open>
  C30. A message is handled once. Whatever it led to, when a message with the same identifier comes again over
  the same connection, at once or at any later time at which the receipts are still there, from whomever and
  with whatever content, it is answered DUPLICATE and changes nothing; a new message leaves exactly one
  receipt more, and no receipt is lost.
\<close>

theorem inbound_once:
  assumes "safe (im_db s)" "handle_inbound env row m s = Inr (s1, r)" "ms_external_message_id m \<noteq> []"
    "set (receipt_keys s1) \<subseteq> set (receipt_keys s2)" "ic_id row' = ic_id row"
    "ms_external_message_id m' = ms_external_message_id m" "handle_inbound env' row' m' s2 = Inr (s3, r')"
  shows "s3 = s2 \<and> r' = DUPLICATE \<and> set (receipt_keys s) \<subseteq> set (receipt_keys s1) \<and>
    length (im_receipts s1) = length (im_receipts s) + (if r = DUPLICATE then 0 else 1)"
proof -
  let ?key = "(ic_id row, ms_external_message_id m)"
  obtain ks where ks: "receipt_keys s1 = receipt_keys s @ ks"
    "if get_receipt (ic_id row) (ms_external_message_id m) s = None
     then \<exists>i. ks = [(i, ic_id row, ms_external_message_id m)] else ks = []"
    using handle_inbound_keys [OF assms(1,2)] assms(3) by (auto split: if_splits)
  have seen1: "?key \<in> snd ` set (receipt_keys s1)"
    using ks get_receipt_iff [of "ic_id row" "ms_external_message_id m" s]
    by (cases "get_receipt (ic_id row) (ms_external_message_id m) s") auto
  then have "?key \<in> snd ` set (receipt_keys s2)" using assms(4) by blast
  then have "get_receipt (ic_id row') (ms_external_message_id m') s2 \<noteq> None"
    using assms(5,6) by (simp only: get_receipt_iff)
  then have again: "s3 = s2 \<and> r' = DUPLICATE"
    using assms(3,6) by (cases rule: handle_inbound_cases [OF assms(7)]) (auto dest: record_receipt_Some(5))
  have dup: "r = DUPLICATE \<longleftrightarrow> get_receipt (ic_id row) (ms_external_message_id m) s \<noteq> None"
    using assms(2)
  proof (cases rule: handle_inbound_cases)
    case ignored
    then show ?thesis using assms(3) by auto
  next
    case (binding f h sx receipt)
    then show ?thesis using bind_sender_result(5) [OF binding(4)] record_receipt_Some(5) [OF binding(2)] by auto
  next
    case (stranger f h sx receipt b)
    then show ?thesis using record_receipt_Some(5) [OF stranger(2)] by simp
  next
    case (reply f h sx receipt b sy)
    have "r \<noteq> DUPLICATE"
      using reply(5) by (rule submit_task_reply_new)
    then show ?thesis using record_receipt_Some(5) [OF reply(2)] by simp
  qed
  have "length (im_receipts s1) = length (receipt_keys s) + length ks"
    using arg_cong [OF ks(1), of length] by (simp add: receipt_keys_def)
  moreover have "length ks = (if r = DUPLICATE then 0 else 1)" using ks(2) dup by auto
  ultimately show ?thesis using again ks(1) by (simp add: receipt_keys_def)
qed



section \<open>A connection on the sample database\<close>

definition sample_connection :: im_connection where
  "sample_connection = \<lparr>ic_id = 4, ic_owner_user_id = 7, ic_name = u ''c'', ic_platform = ''webhook'',
     ic_config_ciphertext = [], ic_config_key_version = 1, ic_llm_summary_enabled = False, ic_llm_config_id = None,
     ic_desired_running = True, ic_state = CONN_ONLINE, ic_bound_external_user_id = Some (u ''bob''),
     ic_binding_code_hash = None, ic_binding_code_expires_at = None, ic_last_authenticated_at = None,
     ic_last_health_at = None, ic_last_error_code = None, ic_last_error_message = None, ic_retry_count = 0,
     ic_next_retry_at = None, ic_created_at = 0, ic_updated_at = 0\<rparr>"

definition sample_im :: im where
  "sample_im = \<lparr>im_db = sample_store, im_connections = [sample_connection], im_outbox = [], im_receipts = [],
     im_running = [4], im_sent = []\<rparr>"

definition sample_env :: im_env where
  "sample_env = \<lparr>ev_now = 9, ev_in_loop = False, ev_sends = (\<lambda>_. True), ev_decrypt = Some, ev_decrypt_im = Some, ev_transport = (\<lambda>_ _ _. Refused (mk_domain_error UPSTREAM_ERROR ''down'' 502)),
     ev_configs = [], ev_sha256 = (\<lambda>s. s), ev_upper = (\<lambda>s. s), ev_iter_errors = (\<lambda>_ _. Inr [])\<rparr>"

definition sample_message :: inbound_message where
  "sample_message = \<lparr>ms_external_message_id = u ''1'', ms_sender_external_id = u ''bob'', ms_text = u ''hi'',
     ms_binding_code = None, ms_reply_to_public_id = None\<rparr>"

lemmas sample_im_defs = sample_connection_def sample_im_def sample_env_def sample_message_def

lemma sample_safe: "safe (im_db sample_im)"
  by (simp add: sample_im_def safe_def gateway_ok_def sample_ledger_ok drafts_ok_def)

lemma sample_hashes: "\<exists>f h. sender_fingerprint sample_env sample_connection sample_message = Inr f \<and>
      payload_hash sample_env sample_message = Inr h"
    "\<exists>f h. sender_fingerprint sample_env sample_connection (sample_message\<lparr>ms_text := []\<rparr>) = Inr f \<and>
      payload_hash sample_env (sample_message\<lparr>ms_text := []\<rparr>) = Inr h"
  by (simp_all add: sender_fingerprint_def payload_hash_def sha_text_def sample_im_defs u_def surrogate_def dumps_def
      quote_def escape_char_def int_str_def nat_digits.simps)

lemma sample_located: "locate_task sample_connection sample_message s (u ''hi'') =
    Some (sole_waiting_task sample_connection s, u ''hi'', None)"
  by (simp add: locate_task_def sample_message_def prefix_target_def or_sole_def parse_command_def startswith_def
      u_def strip_def lstrip_def rstrip_def py_space_def)

lemma sample_reply_accepted: "\<exists>s'. handle_inbound sample_env sample_connection sample_message sample_im = Inr (s', ACCEPTED)"
proof -
  obtain f h where fh: "sender_fingerprint sample_env sample_connection sample_message = Inr f"
    "payload_hash sample_env sample_message = Inr h" using sample_hashes(1) by blast
  obtain s1 receipt where rec: "record_receipt 9 4 (u ''1'') f h ACCEPTED sample_im = Some (s1, receipt)"
    by (simp add: record_receipt_def get_receipt_def sample_im_def Let_def)
  then have db: "im_db s1 = sample_store" using record_receipt_Some(2) [OF rec] by (simp add: sample_im_def)
  have "strip (u ''hi'') = u ''hi''" by (simp add: u_def strip_def lstrip_def rstrip_def py_space_def)
  moreover have "sole_waiting_task sample_connection s1 = Some sample_task"
    by (simp add: sole_waiting_task_def db sample_connection_def)
  moreover have v: "validate_im_reply sample_env sample_connection sample_task (plain_reply (u ''hi'')) s1 = Inr (s1, True)"
  proof -
    have "validate_reply_draft ie sample_task (plain_reply (u ''hi'')) True = Inr (plain_reply (u ''hi''))" for ie
      by (simp add: validate_reply_draft_iff Let_def plain_reply_def compliant_def sample_catalog policy_allows_def policy_of_def)
    then show ?thesis by (simp add: validate_im_reply_def assert_tool_call_warning_acknowledged_def plain_reply_def)
  qed
  moreover have "snd (im_first_reply sample_env sample_task (plain_reply (u ''hi'')) s1)"
    by (simp add: im_first_reply_def split_beta db first_reply_wins_iff)
  ultimately have "\<exists>s2. submit_task_reply sample_env sample_connection sample_message receipt s1 = Inr (s2, ACCEPTED)"
    using sample_located [of s1]
    by (simp add: submit_task_reply_def sample_message_def submit_plain_def split_beta)
  then show ?thesis using fh rec
    by (auto simp: handle_inbound_def sample_message_def sample_connection_def sample_env_def u_def)
qed


theorem inbound_once_witness:
  "\<exists>s1 s3 r. handle_inbound sample_env sample_connection sample_message sample_im = Inr (s1, ACCEPTED) \<and>
     handle_inbound sample_env sample_connection (sample_message\<lparr>ms_text := []\<rparr>) s1 = Inr (s3, r) \<and>
     s3 = s1 \<and> r = DUPLICATE \<and> length (im_receipts s1) = 1"
proof -
  let ?m = "sample_message\<lparr>ms_text := []\<rparr>"
  obtain s1 where s1: "handle_inbound sample_env sample_connection sample_message sample_im = Inr (s1, ACCEPTED)"
    using sample_reply_accepted by blast
  obtain f h where fh: "sender_fingerprint sample_env sample_connection ?m = Inr f" "payload_hash sample_env ?m = Inr h"
    using sample_hashes(2) by blast
  have filled: "ms_external_message_id sample_message \<noteq> []" "ms_external_message_id ?m \<noteq> []"
    by (simp_all add: sample_message_def u_def)
  have "get_receipt (ic_id sample_connection) (ms_external_message_id sample_message) s1 \<noteq> None"
    unfolding get_receipt_iff using handle_inbound_keys [OF sample_safe s1] filled(1)
    by (auto simp: image_iff get_receipt_def sample_im_def receipt_keys_def split: if_splits)
  then have "get_receipt (ic_id sample_connection) (ms_external_message_id ?m) s1 \<noteq> None" by simp
  then have s3: "handle_inbound sample_env sample_connection ?m s1 = Inr (s1, DUPLICATE)"
    using filled(2) fh by (auto simp: handle_inbound_def record_receipt_def)
  have "length (im_receipts s1) = 1"
    using inbound_once [OF sample_safe s1 filled(1) subset_refl refl _ s3] by (simp add: sample_im_def)
  then show ?thesis using s1 s3 by blast
qed

end
