(* ===== verification/Delivery.thy ===== *)
theory Delivery
  imports Inbound_Contract
begin

text \<open>
  Delivery of tasks to messaging users: \<open>DeliveryService\<close> (\<open>app/services/delivery_service.py\<close>) with its
  background jobs, and the entry points of the connectors (\<open>app/api/connectors.py\<close>) that pull packages,
  acknowledge them and hand in replies. The call \<open>connector.deliver\<close> is a parameter: \<open>dl c e = None\<close> when
  the connector of \<open>c\<close> takes the package \<open>e\<close>, or the code of its failure.
\<close>

type_synonym deliverer = "int \<Rightarrow> envelope \<Rightarrow> ustr option"

section \<open>Delivery\<close>

record delivery_outcome =
  do_connection_id :: int
  do_platform :: string
  do_delivered :: bool
  do_error_code :: "ustr option"
  do_via_outbox :: bool

text \<open>What runs on the event loop once the caller has committed.\<close>

datatype delivery_job = PushJob envelope int int bool | SummaryJob int int

definition outcome :: "im_connection \<Rightarrow> ustr option \<Rightarrow> delivery_outcome" where
  "outcome row error = \<lparr>do_connection_id = ic_id row, do_platform = ic_platform row, do_delivered = (error = None),
     do_error_code = error, do_via_outbox = pulls (ic_platform row)\<rparr>"

definition delivery_event :: "im_connection \<Rightarrow> request_task \<Rightarrow> ustr option \<Rightarrow> im \<Rightarrow> im" where
  "delivery_event row task error =
     on_db (add_event (rt_id task) EV_DELIVERED ACTOR_SYSTEM None
       (Some ([(u ''connection_id'', JInt (ic_id row)), (u ''platform'', S (ic_platform row)),
               (u ''delivered'', JBool (error = None))] @
              (case error of None \<Rightarrow> [] | Some c \<Rightarrow> if c = [] then [] else [(u ''error_code'', JStr c)]))))"

text \<open>The end of a delivery: the state of the package, and the event.\<close>

definition settle_delivery :: "instant \<Rightarrow> im_connection \<Rightarrow> request_task \<Rightarrow> bool \<Rightarrow> ustr option \<Rightarrow> im \<Rightarrow> im" where
  "settle_delivery now row task via_outbox error s =
     delivery_event row task error
       (if \<not> via_outbox then s
        else case error of
               None \<Rightarrow> fst (mark_outbox_delivered now (ic_id row) (rt_id task) s)
             | Some c \<Rightarrow> fst (mark_outbox_failed now (ic_id row) (rt_id task) c s))"

definition deliver_task ::
  "deliverer \<Rightarrow> im_env \<Rightarrow> im_connection \<Rightarrow> request_task \<Rightarrow> im \<Rightarrow> (im \<times> delivery_outcome \<times> delivery_job option) result" where
  "deliver_task dl env row task s =
     (let want_summary = ic_llm_summary_enabled row \<and> ic_llm_config_id row \<noteq> None;
          online = get_connector (ic_id row) s; via_outbox = pulls (ic_platform row);
          scheduled = outcome row (Some (u ''delivery_scheduled''))
      in if want_summary \<and> online \<and> ev_in_loop env
         then Inr (s, scheduled, Some (SummaryJob (ic_id row) (rt_id task)))
         else
           (let summary = (if want_summary \<and> online
                  then summarize_task_prompt (ev_decrypt env) (ev_transport env) (ev_configs env) row task else None)
            in bindr (build_envelope task summary) (\<lambda>e.
               (let s1 = (if via_outbox then enqueue_outbox (ev_now env) (ic_id row) (rt_id task) (dumps (envelope_json e)) s
                          else s)
                in if \<not> online then Inr (s1, outcome row (Some (u ''connection_offline'')), None)
                   else if ev_in_loop env
                   then Inr (s1, scheduled, Some (PushJob e (ic_id row) (rt_id task) via_outbox))
                   else (let error = dl (ic_id row) e
                         in Inr (settle_delivery (ev_now env) row task via_outbox error s1, outcome row error, None))))))"

text \<open>The background jobs, each in a session of its own; one that raises leaves the database as it was.\<close>

definition settle_in_background ::
  "instant \<Rightarrow> im_connection \<Rightarrow> request_task \<Rightarrow> bool \<Rightarrow> ustr option \<Rightarrow> im \<Rightarrow> im" where
  "settle_in_background now row task via_outbox error s =
     settle_delivery now row task (via_outbox \<and> error \<noteq> Some []) error s"

definition run_job :: "deliverer \<Rightarrow> im_env \<Rightarrow> delivery_job \<Rightarrow> im \<Rightarrow> im" where
  "run_job dl env job s =
     (case job of
        PushJob e c i via_outbox \<Rightarrow>
          (case (get_task (im_db s) i, get_connection c s) of
             (Some task, Some row) \<Rightarrow> settle_in_background (ev_now env) row task via_outbox (dl c e) s
           | _ \<Rightarrow> s)
      | SummaryJob c i \<Rightarrow>
          (case (get_task (im_db s) i, get_connection c s) of
             (Some task, Some row) \<Rightarrow>
               (case build_envelope task (summarize_task_prompt (ev_decrypt env) (ev_transport env) (ev_configs env) row task) of
                  Inl error \<Rightarrow> s
                | Inr e \<Rightarrow>
                    (let via_outbox = pulls (ic_platform row);
                         s1 = (if via_outbox then enqueue_outbox (ev_now env) c i (dumps (envelope_json e)) s else s)
                     in settle_in_background (ev_now env) row task via_outbox (dl c e) s1))
           | _ \<Rightarrow> s))"

section \<open>Entry points of the connectors\<close>

definition api_connection :: "int \<Rightarrow> im \<Rightarrow> im_connection result" where
  "api_connection connection_id s =
     (case get_connection connection_id s of
        None \<Rightarrow> Inl (err NOT_FOUND ''connection not found'' 404) | Some row \<Rightarrow> Inr row)"

definition connection_config :: "im_env \<Rightarrow> im_connection \<Rightarrow> obj result" where
  "connection_config env row =
     (if ic_config_key_version row \<noteq> 1 then Inl (err CONFLICT ''the encryption version of the configuration is not supported'' 409)
      else
        (case ev_decrypt_im env (ic_config_ciphertext row) of
           None \<Rightarrow> Inl (err CONFLICT ''the configuration cannot be decrypted, save it again'' 409)
         | Some encoded \<Rightarrow>
             (case loads encoded of
                None \<Rightarrow> Inl (PyError ValueError)
              | Some (JObj d) \<Rightarrow> Inr d
              | Some v \<Rightarrow> Inl (PyError AttributeError))))"

definition verify_token :: "im_env \<Rightarrow> im_connection \<Rightarrow> ustr option \<Rightarrow> string \<Rightarrow> unit result" where
  "verify_token env row credential key =
     (case credential of
        None \<Rightarrow> Inl (err UNAUTHORIZED ''the credential is missing'' 401)
      | Some t \<Rightarrow>
          if t = [] then Inl (err UNAUTHORIZED ''the credential is missing'' 401)
          else
            bindr (connection_config env row) (\<lambda>config.
            (let expected = py_str (or_else (oget config key) (JStr []))
             in if expected = [] then Inl (err UNAUTHORIZED ''the credential is wrong'' 401)
                else bindr (compare_digest expected t) (\<lambda>ok.
                  raise_if (\<not> ok) (err UNAUTHORIZED ''the credential is wrong'' 401)))))"

definition answered_task_id :: "inbound_message \<Rightarrow> inbound_result \<Rightarrow> ustr option" where
  "answered_task_id m r =
     (if r \<noteq> ACCEPTED \<and> r \<noteq> LATE then None
      else
        (case ms_reply_to_public_id m of
           Some p \<Rightarrow> if p \<noteq> [] then Some p
                     else if startswith (ms_text m) (u ''#'') then Some (fst (partition_at 32 (drop 1 (ms_text m)))) else None
         | None \<Rightarrow> if startswith (ms_text m) (u ''#'') then Some (fst (partition_at 32 (drop 1 (ms_text m)))) else None))"

definition webhook_inbound ::
  "im_env \<Rightarrow> int \<Rightarrow> ustr option \<Rightarrow> inbound_message \<Rightarrow> im \<Rightarrow> im \<times> (inbound_result \<times> ustr option) result" where
  "webhook_inbound env connection_id credential m s =
     (case bindr (api_connection connection_id s) (\<lambda>row.
           bindr (verify_token env row credential ''inbound_token'') (\<lambda>_. handle_inbound env row m s)) of
        Inl e \<Rightarrow> (s, Inl e)
      | Inr (s', r) \<Rightarrow> (s', Inr (r, answered_task_id m r)))"

record http_task_item =
  hi_task_id :: ustr
  hi_model :: ustr
  hi_prompt :: ustr
  hi_created_at :: ustr
  hi_tools :: "ustr list"

definition field_text :: "obj \<Rightarrow> string \<Rightarrow> ustr" where
  "field_text d k = py_str (or_else (oget d k) (JStr []))"

definition task_item :: "connector_outbox \<Rightarrow> http_task_item list result" where
  "task_item o' =
     (case loads (co_payload_json o') of
        None \<Rightarrow> Inr []
      | Some (JObj d) \<Rightarrow>
          bindr (iterate (or_else (oget d ''tools'') (JList []))) (\<lambda>tools.
          Inr [\<lparr>hi_task_id = py_str (or_else (oget d ''task_id'') (JInt (co_task_id o'))), hi_model = field_text d ''model'',
            hi_prompt = field_text d ''prompt'', hi_created_at = field_text d ''created_at'', hi_tools = map py_str tools\<rparr>])
      | Some v \<Rightarrow> Inl (PyError AttributeError))"

definition next_cursor :: "int \<Rightarrow> connector_outbox list \<Rightarrow> int" where
  "next_cursor cursor rows = (if rows = [] then cursor else co_id (last rows))"

definition http_pull_tasks ::
  "im_env \<Rightarrow> int \<Rightarrow> ustr option \<Rightarrow> int \<Rightarrow> nat \<Rightarrow> im \<Rightarrow> im \<times> (int \<times> http_task_item list) result" where
  "http_pull_tasks env connection_id credential cursor limit s =
     (case bindr (api_connection connection_id s) (\<lambda>row.
           bindr (verify_token env row credential ''pull_token'') (\<lambda>_.
           bindr (raise_if (ic_platform row \<noteq> ''http_poll'') (err VALIDATION_FAILED ''the platform does not poll'' 400)) (\<lambda>_.
           (let (s1, rows) = claim_outbox_batch (ev_now env) (ic_id row) cursor limit s
            in bindr (mapr task_item rows) (\<lambda>items. Inr (s1, next_cursor cursor rows, concat items)))))) of
        Inl e \<Rightarrow> (s, Inl e)
      | Inr (s1, answer) \<Rightarrow> (s1, Inr answer))"

definition polled_message :: "im_connection \<Rightarrow> ustr \<Rightarrow> ustr \<Rightarrow> ustr \<Rightarrow> inbound_message" where
  "polled_message row external_message_id task_id body =
     \<lparr>ms_external_message_id = external_message_id,
       ms_sender_external_id = (case ic_bound_external_user_id row of None \<Rightarrow> [] | Some b \<Rightarrow> b),
       ms_text = u ''#'' @ task_id @ u '' '' @ body, ms_binding_code = None, ms_reply_to_public_id = Some task_id\<rparr>"

definition http_submit_reply ::
  "im_env \<Rightarrow> int \<Rightarrow> ustr option \<Rightarrow> ustr \<Rightarrow> ustr \<Rightarrow> ustr \<Rightarrow> im \<Rightarrow> im \<times> (inbound_result \<times> ustr option) result" where
  "http_submit_reply env connection_id credential external_message_id task_id body s =
     (case bindr (api_connection connection_id s) (\<lambda>row.
           bindr (verify_token env row credential ''pull_token'') (\<lambda>_.
             handle_inbound env row (polled_message row external_message_id task_id body) s)) of
        Inl e \<Rightarrow> (s, Inl e)
      | Inr (s', r) \<Rightarrow> (s', Inr (r, Some task_id)))"

definition http_ack :: "im_env \<Rightarrow> int \<Rightarrow> ustr option \<Rightarrow> ustr \<Rightarrow> im \<Rightarrow> im \<times> bool result" where
  "http_ack env connection_id credential task_id s =
     (case bindr (api_connection connection_id s) (\<lambda>row.
           bindr (verify_token env row credential ''pull_token'') (\<lambda>_. Inr row)) of
        Inl e \<Rightarrow> (s, Inl e)
      | Inr row \<Rightarrow>
          (case get_by_public_id (ic_owner_user_id row) task_id (im_db s) of
             None \<Rightarrow> (s, Inr False)
           | Some task \<Rightarrow>
               (let (s', acked) = ack_outbox (ev_now env) (ic_id row) (rt_id task) s in (s', Inr acked))))"

end
