(* ===== verification/Platforms.thy ===== *)
theory Platforms
  imports Delivery
begin

text \<open>
  The platforms a connection can speak to (\<open>app/connectors/registry.py\<close>), the check of a configuration,
  and the connections a user creates, changes and deletes (\<open>ConnectionService\<close>,
  \<open>app/services/connection_service.py\<close>). Labels and descriptions are display texts and left out; a problem
  found in a configuration names its field instead.
\<close>

section \<open>Platforms\<close>

record config_field =
  cf_name :: string
  cf_type :: string
  cf_required :: bool
  cf_secret :: bool
  cf_user_configurable :: bool
  cf_credential_kind :: string
  cf_auto_generate :: bool
  cf_required_at_runtime :: bool

record platform_spec =
  ps_code :: string
  ps_kind :: string
  ps_supports_delivery :: bool
  ps_supports_login :: bool
  ps_requires_binding :: bool
  ps_binding_command :: "string option"
  ps_config_fields :: "config_field list"

definition plain_field :: "string \<Rightarrow> string \<Rightarrow> bool \<Rightarrow> bool \<Rightarrow> bool \<Rightarrow> config_field" where
  "plain_field name ty required secret configurable =
     \<lparr>cf_name = name, cf_type = ty, cf_required = required, cf_secret = secret, cf_user_configurable = configurable,
       cf_credential_kind = [], cf_auto_generate = False, cf_required_at_runtime = False\<rparr>"

definition gateway_field :: "string \<Rightarrow> config_field" where
  "gateway_field name =
     \<lparr>cf_name = name, cf_type = ''string'', cf_required = True, cf_secret = True, cf_user_configurable = True,
       cf_credential_kind = ''gateway_token'', cf_auto_generate = True, cf_required_at_runtime = True\<rparr>"

definition lark_spec :: platform_spec where
  "lark_spec = \<lparr>ps_code = ''lark'', ps_kind = ''client'', ps_supports_delivery = True, ps_supports_login = False,
     ps_requires_binding = True, ps_binding_command = Some ''connect lark'',
     ps_config_fields = [plain_field ''app_id'' ''string'' True False True, plain_field ''app_secret'' ''string'' True True True]\<rparr>"

definition wecom_ilink_spec :: platform_spec where
  "wecom_ilink_spec = \<lparr>ps_code = ''wecom_ilink'', ps_kind = ''client'', ps_supports_delivery = True, ps_supports_login = True,
     ps_requires_binding = True, ps_binding_command = None,
     ps_config_fields = [plain_field ''token'' ''string'' False True False, plain_field ''base_url'' ''url'' False False False]\<rparr>"

definition wecom_aibot_spec :: platform_spec where
  "wecom_aibot_spec = \<lparr>ps_code = ''wecom_aibot'', ps_kind = ''client'', ps_supports_delivery = True, ps_supports_login = False,
     ps_requires_binding = True, ps_binding_command = Some ''connect mycom'',
     ps_config_fields = [plain_field ''bot_id'' ''string'' True False True, plain_field ''secret'' ''string'' True True True]\<rparr>"

definition webhook_spec :: platform_spec where
  "webhook_spec = \<lparr>ps_code = ''webhook'', ps_kind = ''server'', ps_supports_delivery = True, ps_supports_login = False,
     ps_requires_binding = False, ps_binding_command = Some ''connect webhook'',
     ps_config_fields = [gateway_field ''inbound_token'', plain_field ''outbound_url'' ''url'' True False True,
       plain_field ''outbound_token'' ''string'' False True True]\<rparr>"

definition websocket_spec :: platform_spec where
  "websocket_spec = \<lparr>ps_code = ''websocket'', ps_kind = ''server'', ps_supports_delivery = True, ps_supports_login = False,
     ps_requires_binding = False, ps_binding_command = Some ''connect websocket'',
     ps_config_fields = [gateway_field ''connection_token'']\<rparr>"

definition http_poll_spec :: platform_spec where
  "http_poll_spec = \<lparr>ps_code = ''http_poll'', ps_kind = ''server'', ps_supports_delivery = False, ps_supports_login = False,
     ps_requires_binding = False, ps_binding_command = None, ps_config_fields = [gateway_field ''pull_token'']\<rparr>"

definition specs :: "platform_spec list" where
  "specs = [lark_spec, wecom_ilink_spec, wecom_aibot_spec, webhook_spec, websocket_spec, http_poll_spec]"

definition get_spec :: "string \<Rightarrow> platform_spec option" where
  "get_spec code = find (\<lambda>s. ps_code s = code) specs"

definition user_config_field_names :: "platform_spec \<Rightarrow> string list" where
  "user_config_field_names spec = map cf_name (filter cf_user_configurable (ps_config_fields spec))"

definition gateway_token_fields :: "platform_spec \<Rightarrow> config_field list" where
  "gateway_token_fields spec =
     filter (\<lambda>f. cf_credential_kind f = ''gateway_token'' \<and> cf_user_configurable f) (ps_config_fields spec)"

section \<open>Configurations\<close>

text \<open>\<open>^hllm-[A-Za-z0-9_-]{43}$\<close>, in full.\<close>

definition url_safe :: "nat \<Rightarrow> bool" where
  "url_safe c \<longleftrightarrow> name_char c \<or> c = 45"

definition is_im_connection_token :: "json \<Rightarrow> bool" where
  "is_im_connection_token v =
     (case v of
        JStr s \<Rightarrow> startswith s (u ''hllm-'') \<and> length s = 48 \<and> list_all url_safe (drop 5 s)
      | _ \<Rightarrow> False)"

datatype config_problem = UnknownPlatform | MissingField string | BadToken string | NotInteger string | NotBoolean string
  | NotUrl string | BadType string | UnknownFields "ustr list"

definition missing_value :: "json \<Rightarrow> bool" where
  "missing_value v \<longleftrightarrow> v = JNull \<or> v = JStr []"

text \<open>\<open>isinstance(value, int)\<close> holds of booleans too.\<close>

definition type_problem :: "config_field \<Rightarrow> json \<Rightarrow> config_problem list" where
  "type_problem f v =
     (if cf_type f = ''int'' \<and> \<not> (is_int v \<or> is_bool v) then [NotInteger (cf_name f)]
      else if cf_type f = ''boolean'' \<and> \<not> is_bool v then [NotBoolean (cf_name f)]
      else if is_str v \<and> cf_type f = ''url'' \<and>
          \<not> (case v of JStr s \<Rightarrow> startswith s (u ''http://'') \<or> startswith s (u ''https://'') | _ \<Rightarrow> False)
        then [NotUrl (cf_name f)]
      else (case v of JStr s \<Rightarrow> [] | JInt i \<Rightarrow> [] | JFloat x \<Rightarrow> [] | JBool b \<Rightarrow> [] | _ \<Rightarrow> [BadType (cf_name f)]))"

definition field_problems :: "obj \<Rightarrow> config_field \<Rightarrow> config_problem list" where
  "field_problems config f =
     (let v = oget config (cf_name f); missing = missing_value v
      in if cf_required f \<and> missing \<and> \<not> (cf_auto_generate f \<and> cf_credential_kind f \<noteq> []) then [MissingField (cf_name f)]
         else if missing then []
         else if cf_credential_kind f = ''gateway_token'' \<and> \<not> is_im_connection_token v then [BadToken (cf_name f)]
         else type_problem f v)"

definition fields_outside :: "string list \<Rightarrow> obj \<Rightarrow> ustr list" where
  "fields_outside names config = filter (\<lambda>k. k \<notin> set (map u names)) (okeys config)"

definition spec_problems :: "platform_spec \<Rightarrow> obj \<Rightarrow> config_problem list" where
  "spec_problems spec config =
     concat (map (field_problems config) (ps_config_fields spec)) @
     (let extra = fields_outside (map cf_name (ps_config_fields spec)) config
      in if extra \<noteq> [] then [UnknownFields (sort (remdups extra))] else [])"

definition validate_config :: "string \<Rightarrow> obj \<Rightarrow> config_problem list" where
  "validate_config code config =
     (case get_spec code of None \<Rightarrow> [UnknownPlatform] | Some spec \<Rightarrow> spec_problems spec config)"

text \<open>\<open>_public_config\<close>: the values of secret fields never leave the server.\<close>

definition public_field :: "obj \<Rightarrow> config_field \<Rightarrow> obj" where
  "public_field config f =
     (if \<not> cf_user_configurable f then []
      else if cf_secret f then
        [(u (cf_name f), JNull), (u (cf_name f @ ''_set''), JBool (truthy (oget config (cf_name f))))]
      else [(u (cf_name f), oget config (cf_name f))])"

definition public_config :: "im_env \<Rightarrow> im_connection \<Rightarrow> obj result" where
  "public_config env row =
     bindr (connection_config env row) (\<lambda>config.
       Inr (case get_spec (ic_platform row) of
              None \<Rightarrow> [] | Some spec \<Rightarrow> dict_of (concat (map (public_field config) (ps_config_fields spec)))))"

definition reject_manual_gateway_tokens :: "platform_spec \<Rightarrow> obj \<Rightarrow> unit result" where
  "reject_manual_gateway_tokens spec config =
     raise_if (list_ex (\<lambda>f. \<not> missing_value (oget config (cf_name f))) (gateway_token_fields spec))
       (err VALIDATION_FAILED ''the field is generated by the gateway'' 400)"

text \<open>\<open>secrets.token_urlsafe\<close> gives the random part; the fields that are false get a new token.\<close>

definition generate_im_connection_token :: "ustr \<Rightarrow> ustr" where
  "generate_im_connection_token random = u ''hllm-'' @ random"

definition missing_tokens :: "platform_spec \<Rightarrow> obj \<Rightarrow> config_field list" where
  "missing_tokens spec config = filter (\<lambda>f. \<not> truthy (oget config (cf_name f))) (gateway_token_fields spec)"

definition generate_gateway_tokens ::
  "(string \<Rightarrow> ustr) \<Rightarrow> platform_spec \<Rightarrow> obj \<Rightarrow> obj \<times> (string \<times> ustr) list" where
  "generate_gateway_tokens random spec config =
     (let fs = missing_tokens spec config; tokens = (\<lambda>k. generate_im_connection_token (random k))
      in (foldl (\<lambda>d f. oset d (cf_name f) (JStr (tokens (cf_name f)))) config fs,
          map (\<lambda>f. (cf_name f, tokens (cf_name f))) fs))"

section \<open>Creation and change\<close>

definition connection_audit :: "string \<Rightarrow> im_connection \<Rightarrow> int \<Rightarrow> obj \<Rightarrow> audit_log" where
  "connection_audit action row actor metadata =
     \<lparr>al_action = action, al_resource_type = ''im_connection'', al_resource_id = ic_id row, al_actor_user_id = Some actor,
       al_owner_user_id = Some (ic_owner_user_id row), al_metadata = metadata\<rparr>"

definition audit_connection :: "string \<Rightarrow> im_connection \<Rightarrow> int \<Rightarrow> ustr list \<Rightarrow> im \<Rightarrow> im" where
  "audit_connection action row actor changed =
     on_db (add_audit (connection_audit action row actor [(u ''fields'', JList (map JStr changed))]))"

definition valid_connection_name :: "ustr \<Rightarrow> unit result" where
  "valid_connection_name name =
     raise_if (name = [] \<or> length name > 100) (err VALIDATION_FAILED ''a name has 1 to 100 characters'' 400)"

definition reject_unsupported_fields :: "platform_spec \<Rightarrow> obj \<Rightarrow> unit result" where
  "reject_unsupported_fields spec config =
     raise_if (fields_outside (user_config_field_names spec) config \<noteq> [])
       (err VALIDATION_FAILED (if ps_supports_login spec then ''the platform is bound by a scan'' else ''a field is not configurable'') 400)"

definition new_connection :: "instant \<Rightarrow> user \<Rightarrow> ustr \<Rightarrow> string \<Rightarrow> ustr \<Rightarrow> im \<Rightarrow> im_connection" where
  "new_connection now owner name platform ciphertext s =
     \<lparr>ic_id = fresh_id ic_id (im_connections s), ic_owner_user_id = us_id owner, ic_name = name, ic_platform = platform,
       ic_config_ciphertext = ciphertext, ic_config_key_version = 1, ic_llm_summary_enabled = False, ic_llm_config_id = None,
       ic_desired_running = False, ic_state = CONN_STOPPED, ic_bound_external_user_id = None, ic_binding_code_hash = None,
       ic_binding_code_expires_at = None, ic_last_authenticated_at = None, ic_last_health_at = None,
       ic_last_error_code = None, ic_last_error_message = None, ic_retry_count = 0, ic_next_retry_at = None,
       ic_created_at = now, ic_updated_at = now\<rparr>"

definition create_connection ::
  "im_env \<Rightarrow> (ustr \<Rightarrow> ustr) \<Rightarrow> (string \<Rightarrow> ustr) \<Rightarrow> user \<Rightarrow> ustr \<Rightarrow> string \<Rightarrow> obj \<Rightarrow> im \<Rightarrow>
   (im \<times> im_connection \<times> (string \<times> ustr) list) result" where
  "create_connection env encrypt random owner name0 platform config s =
     bindr (raise_if (us_role owner = ADMIN) (err FORBIDDEN ''administrators own no connections'' 403)) (\<lambda>_.
     (let name = strip name0
      in bindr (valid_connection_name name) (\<lambda>_.
         (case get_spec platform of
            None \<Rightarrow> Inl (err VALIDATION_FAILED ''the platform is not supported'' 400)
          | Some spec \<Rightarrow>
              bindr (reject_unsupported_fields spec config) (\<lambda>_.
              bindr (reject_manual_gateway_tokens spec config) (\<lambda>_.
              (let (final, generated) = generate_gateway_tokens random spec config
               in bindr (raise_if (validate_config platform final \<noteq> []) (err VALIDATION_FAILED ''the configuration has problems'' 400)) (\<lambda>_.
                  bindr (raise_if (get_by_owner_platform (us_id owner) platform s \<noteq> None)
                           (err CONFLICT ''one connection for each platform'' 409)) (\<lambda>_.
                  (let row = new_connection (ev_now env) owner name platform (encrypt (dumps_compact (JObj final))) s
                   in Inr (audit_connection ''connection.created'' row (us_id owner) [u ''name'', u ''platform'']
                             (s\<lparr>im_connections := im_connections s @ [row]\<rparr>), row, generated)))))))))))"

text \<open>A value that is missing keeps the one that is stored.\<close>

definition merge_field :: "obj \<Rightarrow> obj \<times> ustr list \<Rightarrow> config_field \<Rightarrow> obj \<times> ustr list" where
  "merge_field changes acc f =
     (let v = oget changes (cf_name f)
      in if missing_value v then acc else (oset (fst acc) (cf_name f) v, snd acc @ [u (cf_name f)]))"

definition merge_config :: "platform_spec \<Rightarrow> obj \<Rightarrow> obj \<Rightarrow> obj \<times> ustr list" where
  "merge_config spec changes old = foldl (merge_field changes) (old, []) (ps_config_fields spec)"

definition unbound_row :: "im_connection \<Rightarrow> im_connection" where
  "unbound_row row = row\<lparr>ic_bound_external_user_id := None, ic_binding_code_hash := None, ic_binding_code_expires_at := None,
     ic_desired_running := False, ic_state := CONN_STOPPED\<rparr>"

definition change_config ::
  "im_env \<Rightarrow> (ustr \<Rightarrow> ustr) \<Rightarrow> platform_spec \<Rightarrow> obj \<Rightarrow> im_connection \<Rightarrow> (im_connection \<times> ustr list) result" where
  "change_config env encrypt spec changes row =
     bindr (connection_config env row) (\<lambda>old.
     if changes = [] then Inr (row, [])
     else
       bindr (reject_unsupported_fields spec changes) (\<lambda>_.
       bindr (reject_manual_gateway_tokens spec changes) (\<lambda>_.
       (let (merged, changed0) = merge_config spec changes old
        in bindr (raise_if (validate_config (ic_platform row) merged \<noteq> []) (err VALIDATION_FAILED ''the configuration has problems'' 400)) (\<lambda>_.
           (let row1 = row\<lparr>ic_config_ciphertext := encrypt (dumps_compact (JObj merged))\<rparr>;
                changed = sort (remdups changed0)
            in if changed \<noteq> [] \<and> ps_requires_binding spec \<and> truthy_text (ic_bound_external_user_id row1)
               then Inr (unbound_row row1, changed @ [u ''binding''])
               else Inr (row1, changed)))))))"

definition change_name :: "ustr option \<Rightarrow> im_connection \<times> ustr list \<Rightarrow> (im_connection \<times> ustr list) result" where
  "change_name name acc =
     (case name of
        None \<Rightarrow> Inr acc
      | Some n \<Rightarrow>
          bindr (valid_connection_name (strip n)) (\<lambda>_.
            Inr (if strip n = ic_name (fst acc) then acc
                 else ((fst acc)\<lparr>ic_name := strip n\<rparr>, snd acc @ [u ''name'']))))"

text \<open>\<open>str.isdigit\<close> holds of more characters than \<open>int\<close> reads: superscripts, circled digits and the like.\<close>

definition other_digits :: "(nat \<times> nat) list" where
  "other_digits = [(178, 179), (185, 185), (4969, 4977), (6618, 6618), (8304, 8304), (8308, 8313), (8320, 8329),
     (9312, 9320), (9332, 9340), (9352, 9360), (9450, 9450), (9461, 9469), (9471, 9471), (10102, 10110),
     (10112, 10120), (10122, 10130), (68160, 68163), (69216, 69224), (69714, 69722), (127232, 127242)]"

definition isdigit :: "ustr \<Rightarrow> bool" where
  "isdigit s \<longleftrightarrow> s \<noteq> [] \<and>
     list_all (\<lambda>c. digit_value c \<noteq> None \<or> list_ex (\<lambda>(lo, hi). lo \<le> c \<and> c \<le> hi) other_digits) s"

definition change_summary_config ::
  "llm_config list \<Rightarrow> ustr option \<Rightarrow> im_connection \<times> ustr list \<Rightarrow> (im_connection \<times> ustr list) result" where
  "change_summary_config configs llm_config_id acc =
     (case llm_config_id of
        None \<Rightarrow> Inr acc
      | Some i \<Rightarrow>
          if i = [] then
            Inr ((fst acc)\<lparr>ic_llm_config_id := None, ic_llm_summary_enabled := False\<rparr>,
                 snd acc @ [u ''llm_config_id'', u ''llm_summary_enabled''])
          else if \<not> isdigit i then Inl (err VALIDATION_FAILED ''llm_config_id is not an id'' 400)
          else
            (case py_int i of
               None \<Rightarrow> Inl (PyError ValueError)
             | Some n \<Rightarrow>
                 (case get_config n configs of
                    None \<Rightarrow> Inl (err NOT_FOUND ''LLM configuration not found'' 404)
                  | Some cfg \<Rightarrow>
                      if lc_owner_user_id cfg \<noteq> ic_owner_user_id (fst acc)
                      then Inl (err NOT_FOUND ''LLM configuration not found'' 404)
                      else Inr ((fst acc)\<lparr>ic_llm_config_id := Some (lc_id cfg)\<rparr>, snd acc @ [u ''llm_config_id'']))))"

definition change_summary_enabled :: "bool option \<Rightarrow> im_connection \<times> ustr list \<Rightarrow> im_connection \<times> ustr list" where
  "change_summary_enabled enabled acc =
     (case enabled of
        None \<Rightarrow> acc
      | Some b \<Rightarrow> ((fst acc)\<lparr>ic_llm_summary_enabled := b\<rparr>, snd acc @ [u ''llm_summary_enabled'']))"

definition store_row :: "instant \<Rightarrow> im_connection \<Rightarrow> im \<Rightarrow> im" where
  "store_row now row = put_connection (ic_id row) (\<lambda>_. row\<lparr>ic_updated_at := now\<rparr>)"

text \<open>A platform that is not registered raises \<open>ConnectorError\<close>, which no handler translates; only changed columns are written.\<close>

definition update_connection ::
  "im_env \<Rightarrow> (ustr \<Rightarrow> ustr) \<Rightarrow> int \<Rightarrow> im_connection \<Rightarrow> ustr option \<Rightarrow> obj \<Rightarrow> bool option \<Rightarrow> ustr option \<Rightarrow> im \<Rightarrow>
   (im \<times> im_connection) result" where
  "update_connection env encrypt actor row name changes enabled llm_config_id s =
     (case get_spec (ic_platform row) of
        None \<Rightarrow> Inl (PyError ValueError)
      | Some spec \<Rightarrow>
          bindr (change_config env encrypt spec changes row) (\<lambda>acc1.
          bindr (change_name name acc1) (\<lambda>acc2.
          bindr (change_summary_config (ev_configs env) llm_config_id (change_summary_enabled enabled acc2)) (\<lambda>(row', changed).
            (let s1 = (if row' = row then s else store_row (ev_now env) row' s)
             in Inr (if changed = [] then s1 else audit_connection ''connection.updated'' row' actor changed s1, row'))))))"

definition delete_connection ::
  "int \<Rightarrow> im_connection \<Rightarrow> im \<Rightarrow> im result" where
  "delete_connection actor row s =
     (if fst (count_api_key_references (ic_id row) False s) \<noteq> 0
      then Inl (err CONFLICT ''the connection is still used by API keys'' 409)
      else Inr (on_db (add_audit (connection_audit ''connection.deleted'' row actor []))
             (delete_connection_row (ic_id row) (delete_related_rows (ic_id row)
               (s\<lparr>im_running := removeAll (ic_id row) (im_running s)\<rparr>)))))"

end
