(* ===== verification/Delivery_Contract.thy ===== *)
theory Delivery_Contract
  imports Delivery
begin

text \<open>
  What the outbox and the delivery promise: one package for each task of a connection, a puller that follows
  the cursors sees every package that waits, in order, and a delivery touches nothing but packages and events.
\<close>

section \<open>The outbox table\<close>

definition outbox_ok :: "im \<Rightarrow> bool" where
  "outbox_ok s \<longleftrightarrow> distinct (map co_id (im_outbox s)) \<and>
     distinct (map (\<lambda>o'. (co_connection_id o', co_task_id o')) (im_outbox s))"

text \<open>The interface of an UPDATE of the table that keeps the keys.\<close>

locale package_update =
  fixes change :: "connector_outbox \<Rightarrow> connector_outbox"
  assumes keys: "co_id (change o') = co_id o'" "co_connection_id (change o') = co_connection_id o'"
    "co_task_id (change o') = co_task_id o'"
begin

lemma ok: "outbox_ok s \<Longrightarrow> outbox_ok (s\<lparr>im_outbox := fst (sql_update c change (im_outbox s))\<rparr>)"
proof -
  have "co_id \<circ> (\<lambda>x. if c x then change x else x) = co_id"
    "(\<lambda>o'. (co_connection_id o', co_task_id o')) \<circ> (\<lambda>x. if c x then change x else x) =
       (\<lambda>o'. (co_connection_id o', co_task_id o'))"
    by (rule ext, simp add: keys)+
  then show "outbox_ok s \<Longrightarrow> outbox_ok (s\<lparr>im_outbox := fst (sql_update c change (im_outbox s))\<rparr>)"
    by (simp add: outbox_ok_def sql_update_def)
qed

lemma update_ok: "outbox_ok s \<Longrightarrow> outbox_ok (fst (update_outbox c change s))"
  using ok [of s c] by (simp add: update_outbox_def split_beta)

end

interpretation delivered_package: package_update
  "\<lambda>o'. o'\<lparr>co_delivery_state := OUTBOX_DELIVERED, co_updated_at := now\<rparr>" for now
  by unfold_locales simp_all

interpretation failed_package: package_update
  "\<lambda>o'. o'\<lparr>co_delivery_state := OUTBOX_PENDING, co_attempt_count := co_attempt_count o' + 1,
     co_last_error_code := Some (take 64 code), co_updated_at := now\<rparr>" for code now
  by unfold_locales simp_all

interpretation acked_package: package_update
  "\<lambda>o'. o'\<lparr>co_delivery_state := OUTBOX_ACKED, co_acked_at := Some now, co_updated_at := now\<rparr>" for now
  by unfold_locales simp_all

interpretation refilled_package: package_update "reset_package now payload" for now payload
  by unfold_locales (simp_all add: reset_package_def)

lemma new_package_ok:
  assumes "outbox_ok s" "find (is_package c i) (im_outbox s) = None"
  shows "outbox_ok (s\<lparr>im_outbox := im_outbox s @ [new_package now c i payload s]\<rparr>)"
proof -
  have "(c, i) \<notin> (\<lambda>o'. (co_connection_id o', co_task_id o')) ` set (im_outbox s)"
    using assms(2) by (auto simp: find_None_iff is_package_def)
  then show ?thesis using assms(1) fresh_id_notin [of co_id "im_outbox s"]
    by (simp add: outbox_ok_def new_package_def)
qed

lemma enqueue_ok: "outbox_ok s \<Longrightarrow> outbox_ok (enqueue_outbox now c i payload s)"
  using new_package_ok by (auto simp: enqueue_outbox_def split: option.split)

lemma refill_ok: "outbox_ok s \<Longrightarrow> outbox_ok (enqueue_outbound_payload now row task k b f s)"
  using new_package_ok refilled_package.ok by (auto simp: enqueue_outbound_payload_def Let_def split: option.split)

lemma mark_ok:
  "outbox_ok s \<Longrightarrow> outbox_ok (fst (mark_outbox_delivered now c i s))"
  "outbox_ok s \<Longrightarrow> outbox_ok (fst (mark_outbox_failed now c i code s))"
  "outbox_ok s \<Longrightarrow> outbox_ok (fst (ack_outbox now c i s))"
  "outbox_ok s \<Longrightarrow> outbox_ok (fst (claim_outbox_batch now c cursor n s))"
  by (simp_all add: mark_outbox_delivered_def mark_outbox_failed_def ack_outbox_def claim_outbox_batch_def Let_def
      delivered_package.update_ok failed_package.update_ok acked_package.update_ok)

lemma outbox_ok_cong: "im_outbox s' = im_outbox s \<Longrightarrow> outbox_ok s' = outbox_ok s"
  by (simp add: outbox_ok_def)

section \<open>Pulling\<close>

text \<open>The packages of a connection that a puller at a cursor still has to see.\<close>

definition waiting_packages :: "int \<Rightarrow> int \<Rightarrow> im \<Rightarrow> connector_outbox list" where
  "waiting_packages c cursor s =
     sort_key co_id (filter (\<lambda>o'. co_connection_id o' = c \<and> co_id o' > cursor \<and> unacked o') (im_outbox s))"

text \<open>Marking a package delivered hides it from no puller.\<close>

definition package_key :: "connector_outbox \<Rightarrow> int \<times> int \<times> ustr" where
  "package_key o' = (co_id o', co_task_id o', co_payload_json o')"

lemma claimed_rows: "snd (claim_outbox_batch now c cursor n s) = take n (waiting_packages c cursor s)"
  by (simp add: claim_outbox_batch_def waiting_packages_def Let_def)

lemma sort_key_map: "(\<And>x. f (g x) = f x) \<Longrightarrow> sort_key f (map g xs) = map g (sort_key f xs)"
proof -
  assume f: "\<And>x. f (g x) = f x"
  have "map g (insort_key f x ys) = insort_key f (g x) (map g ys)" for x ys
    by (induction ys) (simp_all add: f)
  then show "sort_key f (map g xs) = map g (sort_key f xs)"
    by (induction xs) simp_all
qed

lemma claim_keeps_waiting:
  "map package_key (waiting_packages c k (fst (claim_outbox_batch now c cursor n s))) =
   map package_key (waiting_packages c k s)"
proof -
  let ?rows = "take n (sort_key co_id (filter (\<lambda>o'. co_connection_id o' = c \<and> co_id o' > cursor \<and> unacked o') (im_outbox s)))"
  let ?g = "\<lambda>o'. if co_connection_id o' = c \<and> co_id o' > cursor \<and> co_delivery_state o' = OUTBOX_PENDING \<and>
      co_id o' \<in> set (map co_id ?rows) then o'\<lparr>co_delivery_state := OUTBOX_DELIVERED, co_updated_at := now\<rparr> else o'"
  let ?w = "\<lambda>o'. co_connection_id o' = c \<and> co_id o' > k \<and> unacked o'"
  have out: "im_outbox (fst (claim_outbox_batch now c cursor n s)) = map ?g (im_outbox s)"
    by (simp add: claim_outbox_batch_def update_outbox_def sql_update_def Let_def)
  have g: "?w (?g o') = ?w o'" "co_id (?g o') = co_id o'" "package_key (?g o') = package_key o'" for o'
    by (auto simp: unacked_def package_key_def)
  have "filter ?w (map ?g (im_outbox s)) = map ?g (filter ?w (im_outbox s))"
    by (simp only: filter_map comp_def g(1))
  then have "waiting_packages c k (fst (claim_outbox_batch now c cursor n s)) = map ?g (waiting_packages c k s)"
    using sort_key_map [of co_id ?g, OF g(2)] by (simp only: waiting_packages_def out)
  then show ?thesis by (simp only: map_map comp_def g(3))
qed

text \<open>A puller that goes on from the cursor it was given.\<close>

fun pull_rounds :: "nat \<Rightarrow> (nat \<Rightarrow> instant) \<Rightarrow> int \<Rightarrow> nat \<Rightarrow> int \<Rightarrow> im \<Rightarrow> im \<times> connector_outbox list" where
  "pull_rounds 0 clock c n cursor s = (s, [])"
| "pull_rounds (Suc k) clock c n cursor s =
     (let (s1, rows) = claim_outbox_batch (clock k) c cursor n s;
          (s2, more) = pull_rounds k clock c n (next_cursor cursor rows) s1
      in (s2, rows @ more))"

lemma waiting_sorted: "sorted (map co_id (waiting_packages c k s))"
  by (simp add: waiting_packages_def)

lemma waiting_distinct: "outbox_ok s \<Longrightarrow> distinct (map co_id (waiting_packages c k s))"
  by (simp add: waiting_packages_def outbox_ok_def distinct_map distinct_sort) (auto simp: inj_on_def)

lemma filter_take_drop:
  assumes "\<forall>x \<in> set (take n xs). \<not> P x" "\<forall>x \<in> set (drop n xs). P x"
  shows "filter P xs = drop n xs"
proof -
  have "filter P xs = filter P (take n xs) @ filter P (drop n xs)"
    by (simp only: filter_append [symmetric] append_take_drop_id)
  also have "filter P (take n xs) = []" using assms(1) by (simp add: filter_empty_conv)
  also have "filter P (drop n xs) = drop n xs" using assms(2) by (simp add: filter_id_conv)
  finally show ?thesis by simp
qed

text \<open>After the batch, the packages behind the next cursor are those that the batch left.\<close>

lemma waiting_split:
  assumes "outbox_ok s" "0 < n"
  shows "waiting_packages c (next_cursor cursor (take n (waiting_packages c cursor s))) s = drop n (waiting_packages c cursor s)"
proof -
  let ?w = "waiting_packages c cursor s"
  show ?thesis
  proof (cases "?w = []")
    case True
    then show ?thesis by (simp add: next_cursor_def)
  next
    case False
    let ?next = "next_cursor cursor (take n ?w)"
    have strict: "sorted_wrt (<) (map co_id ?w)"
      using waiting_sorted waiting_distinct [OF assms(1)] by (simp add: strict_sorted_iff)
    have split: "?w = take n ?w @ drop n ?w" by simp
    have nonempty: "take n ?w \<noteq> []" using False assms(2) by simp
    have nx: "?next = co_id (last (take n ?w))" using nonempty by (simp add: next_cursor_def)
    have member: "last (take n ?w) \<in> set ?w" using last_in_set [OF nonempty] by (meson in_set_takeD)
    then have "cursor < co_id (last (take n ?w))" by (simp add: waiting_packages_def)
    then have above: "cursor < ?next" using nx by (simp only:)
    have sw: "sorted_wrt (<) (map co_id (take n ?w) @ map co_id (drop n ?w))"
      by (simp only: map_append [symmetric] append_take_drop_id strict)
    have low: "\<forall>x \<in> set (take n ?w). co_id x \<le> ?next"
    proof -
      have "sorted (map co_id (take n ?w))"
        using sorted_wrt_take [OF waiting_sorted [of c cursor s], of n] by (simp only: take_map)
      then have "sorted (map co_id (butlast (take n ?w) @ [last (take n ?w)]))"
        by (simp only: append_butlast_last_id [OF nonempty])
      then have "\<forall>x \<in> set (butlast (take n ?w) @ [last (take n ?w)]). co_id x \<le> co_id (last (take n ?w))"
        by (auto simp: sorted_append)
      then show ?thesis by (simp only: append_butlast_last_id [OF nonempty] nx)
    qed
    have high: "\<forall>x \<in> set (drop n ?w). ?next < co_id x"
      using sw last_in_set [OF nonempty] unfolding nx sorted_wrt_append by auto
    have "waiting_packages c ?next s = filter (\<lambda>x. ?next < co_id x) ?w"
    proof -
      have "filter (\<lambda>x. ?next < co_id x) ?w = sort_key co_id (filter (\<lambda>x. ?next < co_id x)
          (filter (\<lambda>o'. co_connection_id o' = c \<and> co_id o' > cursor \<and> unacked o') (im_outbox s)))"
        by (simp add: waiting_packages_def filter_sort)
      also have "filter (\<lambda>x. ?next < co_id x) (filter (\<lambda>o'. co_connection_id o' = c \<and> co_id o' > cursor \<and> unacked o') (im_outbox s))
          = filter (\<lambda>o'. co_connection_id o' = c \<and> co_id o' > ?next \<and> unacked o') (im_outbox s)"
        using above by (auto simp: filter_filter intro: filter_cong)
      finally show ?thesis by (simp add: waiting_packages_def)
    qed
    also have "\<dots> = drop n ?w"
      by (rule filter_take_drop) (use low high in \<open>auto simp: linorder_not_less\<close>)
    finally show ?thesis .
  qed
qed

text \<open>
  C31. A puller loses no package. From any cursor, going on from the cursor of each answer, the first k rounds of
  n packages bring exactly the first k * n packages that wait behind the cursor, oldest first and each once, with
  the content they have; so enough rounds bring all of them, whatever other pullers marked as delivered.
\<close>

theorem pulls_see_everything:
  assumes "outbox_ok s" "0 < n"
  shows "map package_key (snd (pull_rounds k clock c n cursor s)) =
    map package_key (take (k * n) (waiting_packages c cursor s))"
  using assms(1)
proof (induction k arbitrary: cursor s)
  case (Suc k)
  let ?w = "waiting_packages c cursor s"
  let ?s1 = "fst (claim_outbox_batch (clock k) c cursor n s)"
  let ?next = "next_cursor cursor (take n ?w)"
  have step: "snd (pull_rounds (Suc k) clock c n cursor s) = take n ?w @ snd (pull_rounds k clock c n ?next ?s1)"
    using claimed_rows [of "clock k" c cursor n s] by (simp add: Let_def split_beta)
  have "map package_key (snd (pull_rounds k clock c n ?next ?s1)) = map package_key (take (k * n) (waiting_packages c ?next ?s1))"
    by (rule Suc.IH [OF mark_ok(4) [OF Suc.prems]])
  also have "\<dots> = take (k * n) (map package_key (waiting_packages c ?next s))"
    by (simp only: take_map [symmetric] claim_keeps_waiting)
  also have "\<dots> = take (k * n) (drop n (map package_key ?w))"
    using waiting_split [OF Suc.prems assms(2), of c cursor] by (simp add: drop_map)
  finally show ?case unfolding step by (simp add: take_map drop_map take_add)
qed simp

definition two_packages :: im where
  "two_packages = enqueue_outbox 2 4 2 (u ''b'') (enqueue_outbox 1 4 1 (u ''a'') sample_im)"

theorem pulls_see_everything_witness:
  "map package_key (snd (pull_rounds 2 (\<lambda>_. 9) 4 1 0 two_packages)) =
     map package_key (waiting_packages 4 0 two_packages) \<and> length (waiting_packages 4 0 two_packages) = 2"
proof -
  have "outbox_ok two_packages" unfolding two_packages_def
    by (intro enqueue_ok) (simp add: outbox_ok_def sample_im_def)
  moreover have "length (waiting_packages 4 0 two_packages) = 2"
    by (simp add: two_packages_def waiting_packages_def enqueue_outbox_def new_package_def sample_im_def is_package_def
        fresh_id_def unacked_def)
  ultimately show ?thesis using pulls_see_everything [of two_packages 1 2 "\<lambda>_. 9" 4 0] by simp
qed

section \<open>Delivery\<close>

text \<open>A delivery writes packages and one kind of event, nothing else.\<close>

definition delivery_quiet_im :: "im \<Rightarrow> im \<Rightarrow> bool" where
  "delivery_quiet_im s s' \<longleftrightarrow> im_connections s' = im_connections s \<and> im_receipts s' = im_receipts s \<and>
     im_running s' = im_running s \<and> im_sent s' = im_sent s \<and> same_accounts (im_db s) (im_db s') \<and>
     st_tasks (im_db s') = st_tasks (im_db s) \<and> st_drafts (im_db s') = st_drafts (im_db s) \<and>
     st_audit (im_db s') = st_audit (im_db s) \<and> (outbox_ok s \<longrightarrow> outbox_ok s')"

lemma deliver_refl [simp]: "delivery_quiet_im s s"
  by (simp add: delivery_quiet_im_def)

lemma deliver_trans: "delivery_quiet_im a b \<Longrightarrow> delivery_quiet_im b c \<Longrightarrow> delivery_quiet_im a c"
  by (simp add: delivery_quiet_im_def same_accounts_def)

lemma deliver_outbox:
  assumes "s' = s\<lparr>im_outbox := im_outbox s'\<rparr>" "outbox_ok s \<longrightarrow> outbox_ok s'"
  shows "delivery_quiet_im s s'"
proof -
  have "im_db s' = im_db s" "im_connections s' = im_connections s" "im_receipts s' = im_receipts s"
    "im_running s' = im_running s" "im_sent s' = im_sent s"
    by (subst assms(1), simp)+
  then show ?thesis using assms(2) by (simp add: delivery_quiet_im_def)
qed

lemma deliver_enqueue: "delivery_quiet_im s (enqueue_outbox now c i payload s)"
  by (rule deliver_outbox) (auto simp: enqueue_ok, simp add: enqueue_outbox_def split: option.split)

lemma deliver_mark:
  "delivery_quiet_im s (fst (mark_outbox_delivered now c i s))"
  "delivery_quiet_im s (fst (mark_outbox_failed now c i code s))"
  by (rule deliver_outbox, simp add: mark_outbox_delivered_def mark_outbox_failed_def update_outbox_def split_beta,
      simp add: mark_ok)+

lemma deliver_event: "delivery_quiet_im s (delivery_event row task error s)"
  by (simp add: delivery_quiet_im_def delivery_event_def on_db_def same_accounts_def add_event_def outbox_ok_def)

lemma settle_quiet: "delivery_quiet_im s (settle_delivery now row task via error s)"
  unfolding settle_delivery_def
  by (rule deliver_trans [OF _ deliver_event]) (simp add: deliver_mark split: option.split)

lemma deliver_task_quiet:
  assumes "deliver_task dl env row task s = Inr (s', rest)"
  shows "delivery_quiet_im s s'"
proof -
  have "delivery_quiet_im s (settle_delivery now row task via error (enqueue_outbox now' c i payload s))" for now now' via error c i payload
    by (rule deliver_trans [OF deliver_enqueue settle_quiet])
  then show ?thesis using assms
    by (auto simp: deliver_task_def Let_def bindr_Inr_iff settle_quiet deliver_enqueue split: if_splits)
qed

lemma run_job_quiet: "delivery_quiet_im s (run_job dl env job s)"
proof -
  have "delivery_quiet_im s (settle_delivery now row task via error (enqueue_outbox now' c i payload s))" for now now' row task via error c i payload
    by (rule deliver_trans [OF deliver_enqueue settle_quiet])
  then show ?thesis
    by (auto simp: run_job_def settle_in_background_def Let_def settle_quiet split: delivery_job.split option.split sum.split)
qed

text \<open>The call that the creation of a task makes, for every run of it that returns.\<close>

definition delivery_on :: "deliverer \<Rightarrow> im_env \<Rightarrow> im \<Rightarrow> request_task \<Rightarrow> int \<Rightarrow> store \<Rightarrow> store" where
  "delivery_on dl env s task c st =
     (case get_connection c s of
        None \<Rightarrow> st
      | Some row \<Rightarrow>
          (case deliver_task dl env row task (s\<lparr>im_db := st\<rparr>) of Inl e \<Rightarrow> st | Inr (s', rest) \<Rightarrow> im_db s'))"

text \<open>It meets what the creation of tasks relies on.\<close>

lemma delivery_on_quiet: "delivery_quiet (delivery_on dl env s)"
proof -
  have "st_tasks (delivery_on dl env s task c st) = st_tasks st \<and> st_users (delivery_on dl env s task c st) = st_users st \<and>
      st_drafts (delivery_on dl env s task c st) = st_drafts st" for task c st
  proof (cases "get_connection c s")
    case None
    then show ?thesis by (simp add: delivery_on_def)
  next
    case (Some row)
    show ?thesis
    proof (cases "deliver_task dl env row task (s\<lparr>im_db := st\<rparr>)")
      case (Inr p)
      then show ?thesis using deliver_task_quiet [of dl env row task "s\<lparr>im_db := st\<rparr>" "fst p" "snd p"] Some
        by (simp add: delivery_on_def delivery_quiet_im_def same_accounts_def split_beta)
    qed (simp add: delivery_on_def Some)
  qed
  then show ?thesis by (simp add: delivery_quiet_def delivery_frame_def)
qed

text \<open>
  The text that a poller hands in for a task: it names the task twice, so the number of the task stays at the
  head of the reply.
\<close>

lemma polled_reply_keeps_number:
  assumes "task_id \<noteq> []" "find_task_by_public_id row task_id s = Some t"
  shows "\<exists>text. locate_task row (polled_message row e task_id body) s (strip (ms_text (polled_message row e task_id body))) =
      Some (Some t, strip (u ''#'' @ task_id @ u '' '' @ body), parse_command (strip (u ''#'' @ task_id @ u '' '' @ body)))"
  using assms by (simp add: locate_task_def polled_message_def Let_def)

end
