(* ===== verification/Platforms_Contract.thy ===== *)
theory Platforms_Contract
  imports Platforms Delivery_Contract
begin

text \<open>
  What the configuration of a connection promises: tokens that the gateway makes open exactly the connection they
  were made for, a change keeps what it does not name, and secrets never come back to the browser.
\<close>

section \<open>The registered platforms\<close>

lemmas spec_defs = lark_spec_def wecom_ilink_spec_def wecom_aibot_spec_def webhook_spec_def websocket_spec_def
  http_poll_spec_def plain_field_def gateway_field_def

lemma get_spec_member: "get_spec code = Some spec \<Longrightarrow> spec \<in> set specs"
  by (auto simp: get_spec_def find_Some_iff)

lemma field_names_distinct: "spec \<in> set specs \<Longrightarrow> distinct (map cf_name (ps_config_fields spec))"
  by (auto simp: specs_def spec_defs)

text \<open>A token field keeps its own name, and is a string that the user may not set.\<close>

lemma gateway_fieldD:
  assumes "spec \<in> set specs" "f \<in> set (gateway_token_fields spec)"
  shows "f \<in> set (ps_config_fields spec)" "cf_credential_kind f = ''gateway_token''" "cf_required f"
  using assms by (auto simp: gateway_token_fields_def specs_def spec_defs)

section \<open>Stored configurations\<close>

text \<open>What the code relies on of the authenticated encryption of \<open>core/security.py\<close>.\<close>

definition opens :: "im_env \<Rightarrow> (ustr \<Rightarrow> ustr) \<Rightarrow> bool" where
  "opens env encrypt \<longleftrightarrow> (\<forall>t. ev_decrypt_im env (encrypt t) = Some t)"

lemma stored_config:
  assumes "opens env encrypt" "wf_json (JObj d)" "ic_config_key_version row = 1"
    "ic_config_ciphertext row = encrypt (dumps_compact (JObj d))"
  shows "connection_config env row = Inr d"
  using assms loads_dumps_compact [OF assms(2)] by (simp add: connection_config_def opens_def)

lemma wf_pairs_iff: "wf_pairs d \<longleftrightarrow> (\<forall>(k, v) \<in> set d. wf_json v)"
  by (induction d) auto

lemma wf_oset: "wf_json (JObj d) \<Longrightarrow> wf_json v \<Longrightarrow> wf_json (JObj (oset d k v))"
proof -
  have "wf_pairs d \<Longrightarrow> wf_json v \<Longrightarrow> wf_pairs (oput d j v)" for j
    by (induction d) auto
  then show "wf_json (JObj d) \<Longrightarrow> wf_json v \<Longrightarrow> wf_json (JObj (oset d k v))"
    by (simp add: oset_def distinct_oput)
qed

lemma wf_oget: "wf_json (JObj d) \<Longrightarrow> wf_json (oget d k)"
  by (auto simp: oget_def wf_pairs_iff split: option.split dest!: map_of_SomeD)

lemma config_version:
  assumes "connection_config env row = Inr d"
  shows "ic_config_key_version row = 1"
  using assms by (auto simp: connection_config_def split: if_splits)

section \<open>Tokens\<close>

lemma foldl_tokens:
  "oget (foldl (\<lambda>d f. oset d (cf_name f) (JStr (tokens (cf_name f)))) d fs) k =
     (if k \<in> cf_name ` set fs then JStr (tokens k) else oget d k)"
  "wf_json (JObj d) \<Longrightarrow> wf_json (JObj (foldl (\<lambda>d f. oset d (cf_name f) (JStr (tokens (cf_name f)))) d fs))"
proof (induction fs arbitrary: d)
  case (Cons f fs)
  { case 1 then show ?case using Cons.IH(1) by auto }
  { case 2
    have "wf_json (JObj (oset d (cf_name f) (JStr (tokens (cf_name f)))))" by (rule wf_oset [OF 2]) simp
    then show ?case using Cons.IH(2) by (simp del: wf_json.simps) }
qed simp_all

lemma valid_token_field:
  assumes "spec \<in> set specs" "f \<in> set (gateway_token_fields spec)" "spec_problems spec d = []"
    "oget d (cf_name f) = JStr t" "t \<noteq> []"
  shows "is_im_connection_token (JStr t)"
proof -
  have "field_problems d f = []"
    using assms(3) gateway_fieldD(1) [OF assms(1,2)] by (simp add: spec_problems_def)
  then show ?thesis
    using gateway_fieldD(2) [OF assms(1,2)] assms(4,5)
    by (simp add: field_problems_def missing_value_def Let_def split: if_splits)
qed

lemma token_ascii: "is_im_connection_token (JStr t) \<Longrightarrow> t \<noteq> [] \<and> (\<forall>c \<in> set t. c \<le> 127)"
proof -
  assume t: "is_im_connection_token (JStr t)"
  have five: "length (u ''hllm-'') = 5" by (simp add: u_def)
  have "take 5 t = u ''hllm-''" and tail: "\<forall>c \<in> set (drop 5 t). url_safe c"
    using t unfolding is_im_connection_token_def json.case startswith_def five list_all_iff by blast+
  then have split: "t = u ''hllm-'' @ drop 5 t" by (metis append_take_drop_id)
  have head: "\<forall>c \<in> set (u ''hllm-''). c \<le> 127" by (simp add: u_def)
  have "url_safe c \<Longrightarrow> c \<le> 127" for c by (auto simp: url_safe_def name_char_def name_start_def)
  with tail head have "\<forall>c \<in> set (u ''hllm-'' @ drop 5 t). c \<le> 127" by auto
  then have "\<forall>c \<in> set t. c \<le> 127" using split by simp
  moreover have "t \<noteq> []" using t by (auto simp: is_im_connection_token_def)
  ultimately show ?thesis by blast
qed

lemma verify_token_iff:
  assumes "connection_config env row = Inr d" "oget d k = JStr t" "is_im_connection_token (JStr t)"
  shows "verify_token env row (Some x) k = Inr () \<longleftrightarrow> x = t"
proof -
  have t: "t \<noteq> []" "\<forall>c \<in> set t. c \<le> 127" using token_ascii [OF assms(3)] by auto
  have "py_str (or_else (oget d k) (JStr [])) = t" using assms(2) t(1) by (simp add: or_else_def)
  then show ?thesis using assms(1) t
    by (auto simp: verify_token_def bindr_Inr_iff compare_digest_def raise_if_def list_ex_iff linorder_not_less
        split: if_splits)
qed

text \<open>The primary key, and one connection of a user for each platform.\<close>

definition connections_ok :: "im \<Rightarrow> bool" where
  "connections_ok s \<longleftrightarrow> distinct (map ic_id (im_connections s)) \<and>
     distinct (map (\<lambda>c. (ic_owner_user_id c, ic_platform c)) (im_connections s))"

lemma create_connection_result:
  assumes "create_connection env encrypt random owner name platform config s = Inr (s', row, generated)"
  obtains spec final where "get_spec platform = Some spec" "us_role owner \<noteq> ADMIN"
    "generate_gateway_tokens random spec config = (final, generated)" "validate_config platform final = []"
    "get_by_owner_platform (us_id owner) platform s = None"
    "row = new_connection (ev_now env) owner (strip name) platform (encrypt (dumps_compact (JObj final))) s"
    "im_connections s' = im_connections s @ [row]"
proof -
  obtain spec where spec: "get_spec platform = Some spec"
    using assms by (auto simp: create_connection_def bindr_Inr_iff Let_def split: option.splits)
  obtain final g where g: "generate_gateway_tokens random spec config = (final, g)" by fastforce
  show ?thesis
    by (rule that [of spec final]) (use assms spec g in
      \<open>auto simp: create_connection_def bindr_Inr_iff Let_def raise_if_def audit_connection_def on_db_def
         split: if_splits\<close>)
qed

lemma get_row_append_fresh: "key r \<notin> key ` set rows \<Longrightarrow> get_row key (key r) (rows @ [r]) = Some r"
  by (induction rows) (auto simp: get_row_def)

lemma create_keeps_keys:
  assumes "connections_ok s" "create_connection env encrypt random owner name platform config s = Inr (s', row, generated)"
  shows "connections_ok s'" "get_connection (ic_id row) s' = Some row"
proof -
  obtain final where none: "get_by_owner_platform (us_id owner) platform s = None"
    and row: "row = new_connection (ev_now env) owner (strip name) platform (encrypt (dumps_compact (JObj final))) s"
    and s': "im_connections s' = im_connections s @ [row]"
    by (rule create_connection_result [OF assms(2)])
  have fresh: "ic_id row \<notin> ic_id ` set (im_connections s)"
    using fresh_id_notin [of ic_id "im_connections s"] by (simp add: row new_connection_def)
  have "(us_id owner, platform) \<notin> (\<lambda>c. (ic_owner_user_id c, ic_platform c)) ` set (im_connections s)"
    using none by (auto simp: get_by_owner_platform_def find_None_iff)
  then show "connections_ok s'" using assms(1) fresh
    by (simp add: connections_ok_def s' row) (simp add: new_connection_def)
  show "get_connection (ic_id row) s' = Some row"
    by (simp only: get_connection_def s' get_row_append_fresh [OF fresh])
qed

text \<open>
  C32. The token shown when a connection is created opens it, and nothing else does. Every token that the answer
  shows has the format of the gateway; presented at the entry point it is accepted, and no other credential is. The
  user still has one connection for each platform, and the new one is stored.
\<close>

theorem created_token_opens:
  assumes "create_connection env encrypt random owner name platform config s = Inr (s', row, generated)"
    "(k, t) \<in> set generated" "opens env encrypt" "wf_json (JObj config)" "connections_ok s"
  shows "is_im_connection_token (JStr t) \<and> (verify_token env row (Some x) k = Inr () \<longleftrightarrow> x = t) \<and>
    connections_ok s' \<and> get_connection (ic_id row) s' = Some row"
proof -
  obtain spec final where spec: "get_spec platform = Some spec"
    and g: "generate_gateway_tokens random spec config = (final, generated)" and v: "validate_config platform final = []"
    and row: "row = new_connection (ev_now env) owner (strip name) platform (encrypt (dumps_compact (JObj final))) s"
    by (rule create_connection_result [OF assms(1)])
  define tokens where "tokens = (\<lambda>k. generate_im_connection_token (random k))"
  have final: "final = foldl (\<lambda>d f. oset d (cf_name f) (JStr (tokens (cf_name f)))) config (missing_tokens spec config)"
    and gen: "generated = map (\<lambda>f. (cf_name f, tokens (cf_name f))) (missing_tokens spec config)"
    using g by (simp_all add: generate_gateway_tokens_def Let_def tokens_def)
  obtain f where f: "f \<in> set (missing_tokens spec config)" "k = cf_name f" "t = tokens k"
    using assms(2) by (auto simp: gen)
  have "t \<noteq> []" by (simp add: f(3) tokens_def generate_im_connection_token_def u_def)
  have gw: "f \<in> set (gateway_token_fields spec)" using f(1) by (simp add: missing_tokens_def)
  have get: "oget final k = JStr t" using f by (simp add: final foldl_tokens(1))
  have member: "spec \<in> set specs" using get_spec_member [OF spec] .
  have problems: "spec_problems spec final = []" using v spec by (simp add: validate_config_def)
  have token: "is_im_connection_token (JStr t)"
    by (rule valid_token_field [OF member gw problems _ \<open>t \<noteq> []\<close>]) (use get f(2) in simp)
  have "wf_json (JObj final)" unfolding final by (rule foldl_tokens(2) [OF assms(4)])
  then have "connection_config env row = Inr final"
    by (rule stored_config [OF assms(3)]) (simp_all add: row new_connection_def)
  then show ?thesis using verify_token_iff [OF _ get token] token create_keeps_keys [OF assms(5,1)] by blast
qed

section \<open>Changes\<close>

lemma foldl_merge:
  assumes "distinct (map cf_name fs)"
  shows "oget (fst (foldl (merge_field changes) acc fs)) k =
      (if k \<in> cf_name ` set fs \<and> \<not> missing_value (oget changes k) then oget changes k else oget (fst acc) k)"
    and "set (snd (foldl (merge_field changes) acc fs)) =
      set (snd acc) \<union> u ` {k \<in> cf_name ` set fs. \<not> missing_value (oget changes k)}"
    and "wf_json (JObj (fst acc)) \<Longrightarrow> wf_json (JObj changes) \<Longrightarrow> wf_json (JObj (fst (foldl (merge_field changes) acc fs)))"
  using assms
proof (induction fs arbitrary: acc)
  case (Cons f fs)
  { case 1 then show ?case using Cons.IH(1) by (auto simp: merge_field_def Let_def) }
  { case 2 then show ?case using Cons.IH(2) by (auto simp: merge_field_def Let_def) }
  { case 3
    have "wf_json (JObj (fst (merge_field changes acc f)))"
      using 3(1,2) wf_oset wf_oget by (simp add: merge_field_def Let_def del: wf_json.simps)
    then show ?case using Cons.IH(3) 3(2,3) by (simp del: wf_json.simps) }
qed simp_all

text \<open>The fields that a change names with a value.\<close>

definition named_fields :: "platform_spec \<Rightarrow> obj \<Rightarrow> string set" where
  "named_fields spec changes = {k \<in> cf_name ` set (ps_config_fields spec). \<not> missing_value (oget changes k)}"

lemma change_config_result:
  assumes "change_config env encrypt spec changes row = Inr (row', changed)" "connection_config env row = Inr old"
    "opens env encrypt" "wf_json (JObj old)" "wf_json (JObj changes)" "spec \<in> set specs"
  shows "\<exists>new. connection_config env row' = Inr new \<and>
      (\<forall>k. oget new k = (if k \<in> named_fields spec changes then oget changes k else oget old k)) \<and>
      (if named_fields spec changes \<noteq> {} \<and> ps_requires_binding spec \<and> truthy_text (ic_bound_external_user_id row)
       then row' = unbound_row (row\<lparr>ic_config_ciphertext := ic_config_ciphertext row'\<rparr>)
       else row' = row\<lparr>ic_config_ciphertext := ic_config_ciphertext row'\<rparr>) \<and>
      (changed = [] \<longleftrightarrow> named_fields spec changes = {})"
proof (cases "changes = []")
  case True
  then have "row' = row" "changed = []" "named_fields spec changes = {}"
    using assms(1,2) by (simp_all add: change_config_def named_fields_def missing_value_def)
  then show ?thesis using assms(2) by auto
next
  case False
  define merged where "merged = fst (merge_config spec changes old)"
  define changed0 where "changed0 = snd (merge_config spec changes old)"
  define row1 where "row1 = row\<lparr>ic_config_ciphertext := encrypt (dumps_compact (JObj merged))\<rparr>"
  note m = foldl_merge [OF field_names_distinct [OF assms(6)], where changes = changes and acc = "(old, [])"]
  have get: "oget merged k = (if k \<in> named_fields spec changes then oget changes k else oget old k)" for k
    using m(1) [where k = k] by (simp add: merged_def merge_config_def named_fields_def)
  have "set changed0 = u ` named_fields spec changes"
    using m(2) by (simp add: changed0_def merge_config_def named_fields_def)
  then have changed0: "changed0 = [] \<longleftrightarrow> named_fields spec changes = {}"
    using set_empty [of changed0] by (simp del: set_empty)
  have wf: "wf_json (JObj merged)"
    using m(3) assms(4,5) by (simp add: merged_def merge_config_def del: wf_json.simps)
  have result: "(row', changed) = (if sort (remdups changed0) \<noteq> [] \<and> ps_requires_binding spec \<and>
        truthy_text (ic_bound_external_user_id row)
      then (unbound_row row1, sort (remdups changed0) @ [u ''binding'']) else (row1, sort (remdups changed0)))"
    using assms(1,2) False
    by (auto simp: change_config_def bindr_Inr_iff Let_def split_beta merged_def changed0_def row1_def split: if_splits)
  have empty: "sort (remdups changed0) = [] \<longleftrightarrow> named_fields spec changes = {}"
    using changed0 set_empty [of "sort (remdups changed0)"] by (simp del: set_empty) simp
  have version: "ic_config_key_version row = 1" by (rule config_version [OF assms(2)])
  have "connection_config env row1 = Inr merged" "connection_config env (unbound_row row1) = Inr merged"
    by (rule stored_config [OF assms(3) wf], simp_all add: row1_def unbound_row_def version)+
  then show ?thesis using result empty get
    by (auto simp: row1_def unbound_row_def split: if_splits intro!: exI [of _ merged])
qed

text \<open>The other steps of a change leave the configuration and the binding alone.\<close>

definition same_credentials :: "im_connection \<Rightarrow> im_connection \<Rightarrow> bool" where
  "same_credentials r r' \<longleftrightarrow> ic_config_ciphertext r' = ic_config_ciphertext r \<and>
     ic_config_key_version r' = ic_config_key_version r \<and> ic_platform r' = ic_platform r \<and> ic_id r' = ic_id r \<and>
     ic_owner_user_id r' = ic_owner_user_id r \<and> ic_bound_external_user_id r' = ic_bound_external_user_id r \<and>
     ic_desired_running r' = ic_desired_running r \<and> ic_state r' = ic_state r"

lemma later_changes:
  assumes "change_name name acc1 = Inr acc2"
    "change_summary_config cfgs i (change_summary_enabled enabled acc2) = Inr (row', changed)"
  shows "same_credentials (fst acc1) row'"
proof -
  have "same_credentials (fst acc1) (fst acc2)"
    using assms(1) by (auto simp: change_name_def same_credentials_def bindr_Inr_iff split: option.splits if_splits)
  moreover have "same_credentials (fst acc2) (fst (change_summary_enabled enabled acc2))"
    by (simp add: change_summary_enabled_def same_credentials_def split: option.split)
  moreover have "same_credentials (fst (change_summary_enabled enabled acc2)) row'"
    using assms(2) by (auto simp: change_summary_config_def same_credentials_def split: option.splits if_splits)
  ultimately show ?thesis by (simp add: same_credentials_def)
qed

lemma same_config: "same_credentials r r' \<Longrightarrow> connection_config env r' = connection_config env r"
  by (simp add: same_credentials_def connection_config_def)

text \<open>
  C33. A change of a connection replaces exactly what it names. In the new configuration every field that the
  change gives a value has that value, and every other, a secret left empty among them, keeps the old one. When a
  field changes on a platform that must be bound, the binding made with the old credentials is dropped and the
  connection is switched off; otherwise the binding and the switch stay as they are.
\<close>

theorem update_replaces_exactly:
  assumes "update_connection env encrypt actor row name changes enabled llm_config_id s = Inr (s', row')"
    "get_spec (ic_platform row) = Some spec" "connection_config env row = Inr old" "opens env encrypt"
    "wf_json (JObj old)" "wf_json (JObj changes)"
  shows "\<exists>new. connection_config env row' = Inr new \<and>
    oget new k = (if k \<in> named_fields spec changes then oget changes k else oget old k) \<and>
    (if named_fields spec changes \<noteq> {} \<and> ps_requires_binding spec \<and> truthy_text (ic_bound_external_user_id row)
     then ic_bound_external_user_id row' = None \<and> \<not> ic_desired_running row' \<and> ic_state row' = CONN_STOPPED
     else ic_bound_external_user_id row' = ic_bound_external_user_id row \<and>
       ic_desired_running row' = ic_desired_running row \<and> ic_state row' = ic_state row)"
proof -
  obtain row1 changed acc2 changed' where c: "change_config env encrypt spec changes row = Inr (row1, changed)"
    "change_name name (row1, changed) = Inr acc2"
    "change_summary_config (ev_configs env) llm_config_id (change_summary_enabled enabled acc2) = Inr (row', changed')"
    using assms(1,2) by (auto simp: update_connection_def bindr_Inr_iff Let_def)
  obtain new where new: "connection_config env row1 = Inr new"
    "oget new k = (if k \<in> named_fields spec changes then oget changes k else oget old k)"
    "if named_fields spec changes \<noteq> {} \<and> ps_requires_binding spec \<and> truthy_text (ic_bound_external_user_id row)
     then row1 = unbound_row (row\<lparr>ic_config_ciphertext := ic_config_ciphertext row1\<rparr>)
     else row1 = row\<lparr>ic_config_ciphertext := ic_config_ciphertext row1\<rparr>"
    using change_config_result [OF c(1) assms(3-6) get_spec_member [OF assms(2)]] by blast
  have same: "same_credentials row1 row'" using later_changes [OF c(2,3)] by simp
  have "if named_fields spec changes \<noteq> {} \<and> ps_requires_binding spec \<and> truthy_text (ic_bound_external_user_id row)
     then ic_bound_external_user_id row1 = None \<and> \<not> ic_desired_running row1 \<and> ic_state row1 = CONN_STOPPED
     else ic_bound_external_user_id row1 = ic_bound_external_user_id row \<and>
       ic_desired_running row1 = ic_desired_running row \<and> ic_state row1 = ic_state row"
  proof (cases "named_fields spec changes \<noteq> {} \<and> ps_requires_binding spec \<and> truthy_text (ic_bound_external_user_id row)")
    case True
    then have "row1 = unbound_row (row\<lparr>ic_config_ciphertext := ic_config_ciphertext row1\<rparr>)" using new(3) by simp
    then obtain x where "row1 = unbound_row (row\<lparr>ic_config_ciphertext := x\<rparr>)" ..
    then show ?thesis using True by (simp add: unbound_row_def)
  next
    case False
    then have "row1 = row\<lparr>ic_config_ciphertext := ic_config_ciphertext row1\<rparr>" using new(3) by (simp only: if_False)
    then obtain x where "row1 = row\<lparr>ic_config_ciphertext := x\<rparr>" ..
    then show ?thesis by (simp only: if_not_P [OF False]) simp
  qed
  then show ?thesis using new(1,2) same same_config [OF same, of env] by (simp add: same_credentials_def)
qed

section \<open>Secrets\<close>

text \<open>
  C34. Secrets stay on the server. What a user is shown of a configuration depends on a secret field only through
  whether it is set: two configurations that agree on every other field, and on which secrets are set, look the
  same.
\<close>

theorem secrets_stay_hidden:
  assumes "connection_config env row = Inr d" "connection_config env' row' = Inr d'" "ic_platform row' = ic_platform row"
    "get_spec (ic_platform row) = Some spec"
    "\<And>f. f \<in> set (ps_config_fields spec) \<Longrightarrow> (if cf_secret f then truthy (oget d (cf_name f)) = truthy (oget d' (cf_name f))
       else oget d (cf_name f) = oget d' (cf_name f))"
  shows "public_config env row = public_config env' row'"
proof -
  have "public_field d f = public_field d' f" if "f \<in> set (ps_config_fields spec)" for f
    using assms(5) [OF that] by (simp add: public_field_def split: if_splits)
  then have same: "map (public_field d) (ps_config_fields spec) = map (public_field d') (ps_config_fields spec)" by simp
  have "public_config env row = Inr (dict_of (concat (map (public_field d) (ps_config_fields spec))))"
    using assms(1,4) by (simp add: public_config_def)
  moreover have "public_config env' row' = Inr (dict_of (concat (map (public_field d') (ps_config_fields spec))))"
    using assms(2-4) by (simp add: public_config_def)
  ultimately show ?thesis by (simp only: same)
qed

section \<open>Connections on the sample database\<close>

definition sample_random :: "string \<Rightarrow> ustr" where
  "sample_random k = replicate 43 97"

lemma sample_opens: "opens sample_env (\<lambda>t. t)"
  by (simp add: opens_def sample_env_def)

lemma sample_token: "is_im_connection_token (JStr (generate_im_connection_token (sample_random k)))"
  by (simp add: is_im_connection_token_def generate_im_connection_token_def sample_random_def startswith_def u_def
      url_safe_def name_char_def name_start_def eval_nat_numeral)

lemma http_poll_known: "get_spec ''http_poll'' = Some http_poll_spec"
  by (simp add: get_spec_def specs_def spec_defs)

lemma sample_created:
  "\<exists>s' row. create_connection sample_env (\<lambda>t. t) sample_random sample_user (u ''poll'') ''http_poll'' [] sample_im =
     Inr (s', row, [(''pull_token'', generate_im_connection_token (sample_random ''pull_token''))])"
proof -
  let ?t = "generate_im_connection_token (sample_random ''pull_token'')"
  have name: "strip (u ''poll'') = u ''poll''" by (simp add: u_def strip_def lstrip_def rstrip_def py_space_def)
  have gen: "generate_gateway_tokens sample_random http_poll_spec [] =
      ([(u ''pull_token'', JStr ?t)], [(''pull_token'', ?t)])"
    by (simp add: generate_gateway_tokens_def missing_tokens_def gateway_token_fields_def http_poll_spec_def gateway_field_def
        oset_def)
  have "?t \<noteq> []" by (simp add: generate_im_connection_token_def u_def)
  then have problems: "validate_config ''http_poll'' [(u ''pull_token'', JStr ?t)] = []"
    using sample_token [of "''pull_token''"]
    by (simp add: validate_config_def http_poll_known spec_problems_def http_poll_spec_def gateway_field_def field_problems_def
        missing_value_def type_problem_def fields_outside_def okeys_def)
  have guards: "reject_unsupported_fields http_poll_spec [] = Inr ()" "reject_manual_gateway_tokens http_poll_spec [] = Inr ()"
      "get_by_owner_platform 7 ''http_poll'' sample_im = None" "valid_connection_name (u ''poll'') = Inr ()"
    by (simp_all add: reject_unsupported_fields_def fields_outside_def okeys_def reject_manual_gateway_tokens_def
        gateway_token_fields_def http_poll_spec_def gateway_field_def missing_value_def get_by_owner_platform_def
        sample_im_def sample_connection_def valid_connection_name_def raise_if_def u_def)
  show ?thesis
    by (simp add: create_connection_def name http_poll_known gen problems guards raise_if_def Let_def)
qed

theorem created_token_opens_witness:
  "\<exists>s' row t. create_connection sample_env (\<lambda>t. t) sample_random sample_user (u ''poll'') ''http_poll'' [] sample_im =
     Inr (s', row, [(''pull_token'', t)]) \<and> verify_token sample_env row (Some t) ''pull_token'' = Inr () \<and>
     verify_token sample_env row (Some (u ''guess'')) ''pull_token'' \<noteq> Inr ()"
proof -
  let ?t = "generate_im_connection_token (sample_random ''pull_token'')"
  obtain s' row where c: "create_connection sample_env (\<lambda>t. t) sample_random sample_user (u ''poll'') ''http_poll'' [] sample_im =
     Inr (s', row, [(''pull_token'', ?t)])" using sample_created by blast
  have ok: "connections_ok sample_im" by (simp add: connections_ok_def sample_im_def)
  have "verify_token sample_env row (Some x) ''pull_token'' = Inr () \<longleftrightarrow> x = ?t" for x
    using created_token_opens [OF c _ sample_opens _ ok, of "''pull_token''" ?t x] by simp
  moreover have "u ''guess'' \<noteq> ?t" by (simp add: generate_im_connection_token_def u_def)
  ultimately show ?thesis using c by blast
qed

text \<open>A bot bound to its user, and the same connection with another secret.\<close>

definition bot_config :: "ustr \<Rightarrow> obj" where
  "bot_config secret = [(u ''bot_id'', S ''b''), (u ''secret'', JStr secret)]"

definition sample_bot :: "ustr \<Rightarrow> im_connection" where
  "sample_bot secret = sample_connection\<lparr>ic_platform := ''wecom_aibot'',
     ic_config_ciphertext := dumps_compact (JObj (bot_config secret))\<rparr>"

lemma bot_known: "get_spec ''wecom_aibot'' = Some wecom_aibot_spec"
  by (simp add: get_spec_def specs_def spec_defs)

lemma bot_wf: "wf_json (JObj (bot_config secret))"
  by (simp add: bot_config_def u_def)

lemma bot_stored: "connection_config sample_env (sample_bot secret) = Inr (bot_config secret)"
  by (rule stored_config [OF sample_opens bot_wf]) (simp_all add: sample_bot_def sample_connection_def)

lemma sample_updated:
  "\<exists>s' row'. update_connection sample_env (\<lambda>t. t) 7 (sample_bot (u ''x'')) None [(u ''secret'', S ''y'')] None None sample_im =
     Inr (s', row')"
proof -
  have m: "merge_config wecom_aibot_spec [(u ''secret'', S ''y'')] (bot_config (u ''x'')) =
      (bot_config (u ''y''), [u ''secret''])"
    by (simp add: merge_config_def wecom_aibot_spec_def plain_field_def merge_field_def missing_value_def bot_config_def oset_def)
  have v: "validate_config ''wecom_aibot'' (bot_config (u ''y'')) = []"
    by (simp add: validate_config_def bot_known spec_problems_def wecom_aibot_spec_def plain_field_def field_problems_def
        missing_value_def type_problem_def fields_outside_def okeys_def bot_config_def)
  have "\<exists>acc. change_config sample_env (\<lambda>t. t) wecom_aibot_spec [(u ''secret'', S ''y'')] (sample_bot (u ''x'')) = Inr acc"
    by (simp add: change_config_def bot_stored m) (simp add: v sample_bot_def sample_connection_def reject_unsupported_fields_def
        fields_outside_def okeys_def user_config_field_names_def wecom_aibot_spec_def plain_field_def
        reject_manual_gateway_tokens_def gateway_token_fields_def raise_if_def Let_def)
  then obtain acc where acc: "change_config sample_env (\<lambda>t. t) wecom_aibot_spec [(u ''secret'', S ''y'')] (sample_bot (u ''x'')) = Inr acc" ..
  have p: "ic_platform (sample_bot (u ''x'')) = ''wecom_aibot''" by (simp add: sample_bot_def)
  show ?thesis
    by (simp add: update_connection_def p bot_known acc change_name_def change_summary_enabled_def change_summary_config_def
        split_beta Let_def)
qed

theorem update_replaces_exactly_witness:
  "\<exists>s' row' new. update_connection sample_env (\<lambda>t. t) 7 (sample_bot (u ''x'')) None [(u ''secret'', S ''y'')] None None sample_im =
     Inr (s', row') \<and> connection_config sample_env row' = Inr new \<and> oget new ''secret'' = S ''y'' \<and>
     ic_bound_external_user_id row' = None"
proof -
  let ?row = "sample_bot (u ''x'')"
  have named: "named_fields wecom_aibot_spec [(u ''secret'', S ''y'')] = {''secret''}"
    by (auto simp: named_fields_def wecom_aibot_spec_def plain_field_def missing_value_def oget_def u_def)
  obtain s' row' where c: "update_connection sample_env (\<lambda>t. t) 7 ?row None [(u ''secret'', S ''y'')] None None sample_im = Inr (s', row')"
    using sample_updated by blast
  have spec: "get_spec (ic_platform ?row) = Some wecom_aibot_spec" by (simp add: sample_bot_def bot_known)
  have "truthy_text (ic_bound_external_user_id ?row)"
    by (simp add: sample_bot_def sample_connection_def truthy_text_def u_def)
  moreover have "ps_requires_binding wecom_aibot_spec" by (simp add: wecom_aibot_spec_def)
  ultimately show ?thesis
    using update_replaces_exactly [OF c spec bot_stored sample_opens bot_wf, of "''secret''"] c named by auto
qed

theorem secrets_stay_hidden_witness:
  "public_config sample_env (sample_bot (u ''x'')) = public_config sample_env (sample_bot (u ''y''))"
proof (rule secrets_stay_hidden [OF bot_stored bot_stored])
  show "get_spec (ic_platform (sample_bot (u ''x''))) = Some wecom_aibot_spec" by (simp add: sample_bot_def bot_known)
qed (auto simp: sample_bot_def wecom_aibot_spec_def plain_field_def bot_config_def u_def oget_def)

end
