(* ===== verification/Cross_Contract.thy ===== *)
theory Cross_Contract
  imports Cross_Requests
begin

text \<open>
  What a conversion across protocols guarantees: the tools and the tool policy a Chat request
  asks for are those of the Anthropic request made from it, every option of an accepted request
  has its place in the converted one, and every refusal is the caller's 400 error.
\<close>

section \<open>Reading a converted body\<close>


lemma field_simps [simp]:
  "ohas (field k v) j \<longleftrightarrow> j = k \<and> v \<noteq> JNull" "oget (field k v) j = (if j = k then v else JNull)"
  by (auto simp: field_def)

lemma tools_field_simps [simp]: "ohas (tools_field f fs) j \<Longrightarrow> j = ''tools''"
  by (auto simp: tools_field_def split: option.splits if_splits)

lemma opt_json_simps [simp]: "opt_json f None = JNull" "opt_json f (Some x) = f x"
  by (simp_all add: opt_json_def)

lemma opt_json_Null [simp]: "(\<And>x. f x \<noteq> JNull) \<Longrightarrow> opt_json f t = JNull \<longleftrightarrow> t = None"
  by (auto simp: opt_json_def split: option.split)

lemma sample_params_result:
  assumes "sample_params n limit = Inr s"
  shows "oget s k = (if k \<in> {''temperature'', ''top_p''} then oget (options_of n) k else JNull)"
    and "ohas s k \<longleftrightarrow> k \<in> {''temperature'', ''top_p''} \<and> oget (options_of n) k \<noteq> JNull"
proof -
  obtain a b where ab: "sample_param (options_of n) ''temperature'' limit = Inr a"
      "sample_param (options_of n) ''top_p'' 1 = Inr b" "s = a @ b"
    using assms by (auto simp: sample_params_def bindr_Inr_iff)
  have one: "x = field j (oget (options_of n) j)" if "sample_param (options_of n) j l = Inr x" for j l x
    using that by (auto simp: sample_param_def Let_def field_def split: if_splits)
  show "oget s k = (if k \<in> {''temperature'', ''top_p''} then oget (options_of n) k else JNull)"
    using one [OF ab(1)] one [OF ab(2)] by (simp add: ab(3) oget_append)
  show "ohas s k \<longleftrightarrow> k \<in> {''temperature'', ''top_p''} \<and> oget (options_of n) k \<noteq> JNull"
    using one [OF ab(1)] one [OF ab(2)] by (auto simp: ab(3) ohas_append)
qed

lemma output_format_keys:
  assumes "output_format n False = Inr f"
  shows "f = [] \<or> (\<exists>c. f = [(u ''response_format'', JObj c)])"
proof -
  obtain v where "chat_format_of (options_of n) = Inr v"
    "(case v of JNull \<Rightarrow> Inr [] | JObj chat \<Rightarrow> bindr (responses_format_of chat) (\<lambda>format.
        Inr (if False then [(u ''text'', JObj [(u ''format'', JObj format)])] else [(u ''response_format'', JObj chat)]))
      | _ \<Rightarrow> Inl (unsupported (u ''response_format'') ''must be an object'')) = Inr f"
    using assms unfolding output_format_def by (auto simp only: bindr_Inr_iff)
  then show ?thesis by (cases v) (auto simp: bindr_Inr_iff)
qed

lemma reject_extras_Inr:
  "reject_extras d allow = Inr x \<Longrightarrow> (k, v) \<in> set d \<Longrightarrow> v \<noteq> JNull \<Longrightarrow>
   k \<in> set (map u allow) \<or> k = u ''stream_options''"
  by (induction d allow rule: reject_extras.induct) (auto simp: bindr_Inr_iff split: if_splits)

section \<open>The options of a Chat body\<close>


definition sample_chat_options :: obj where
  "sample_chat_options = [(u ''model'', S ''m''), (u ''messages'', JList [JObj [(u ''role'', S ''user''), (u ''content'', S ''hi'')]]),
     (u ''temperature'', JInt 1), (u ''max_completion_tokens'', JInt 7), (u ''safety_identifier'', S ''bob''),
     (u ''parallel_tool_calls'', JBool False), (u ''tool_choice'', S ''required''),
     (u ''tools'', JList [JObj [(u ''type'', S ''function''), (u ''function'', JObj [(u ''name'', S ''f'')])]])]"

definition sample_chat_normalized :: obj where
  "sample_chat_normalized =
     [(u ''context'', JList [JObj [(u ''role'', S ''user''), (u ''content'', S ''hi'')]]), (u ''instructions'', JNull),
      (u ''tools'', JList [JObj [(u ''type'', S ''function''), (u ''function'', JObj [(u ''name'', S ''f'')])]]),
      (u ''tool_choice'', S ''required''),
      (u ''options'', JObj [(u ''temperature'', JInt 1), (u ''max_completion_tokens'', JInt 7),
         (u ''safety_identifier'', S ''bob''), (u ''parallel_tool_calls'', JBool False)]),
      (u ''messages'', JList [JObj [(u ''role'', S ''user''), (u ''content'', S ''hi'')]]), (u ''stream'', JBool False)]"

lemma is_ok_bindrI: "is_ok m \<Longrightarrow> (\<And>x. m = Inr x \<Longrightarrow> is_ok (f x)) \<Longrightarrow> is_ok (bindr m f)"
  by (cases m) auto

lemma is_ok_prodI: "(\<And>a b. x = (a, b) \<Longrightarrow> is_ok (f a b)) \<Longrightarrow> is_ok (case x of (a, b) \<Rightarrow> f a b)"
  by (cases x) auto

lemma sample_options:
  "options_of sample_chat_normalized = [(u ''temperature'', JInt 1), (u ''max_completion_tokens'', JInt 7),
     (u ''safety_identifier'', S ''bob''), (u ''parallel_tool_calls'', JBool False)]"
  by code_simp

lemma sample_parts:
  "is_ok (reject_extras (options_of sample_chat_normalized) chat_allowed)"
  "is_ok (reject_extras (options_of sample_chat_normalized) anthropic_allowed)"
  "is_ok (reject_none_of (options_of sample_chat_normalized) anthropic_rejected)"
  unfolding sample_options
  by (simp_all add: chat_allowed_def anthropic_allowed_def anthropic_rejected_def reject_none_of_def)

lemma sample_name: "\<not> blank (u ''f'')"
  by (simp add: blank_def strip_def rstrip_def lstrip_def u_def py_space_def)

lemma sample_tools: "tools_to_chat sample_chat_normalized = Inr (Some [[(u ''name'', S ''f'')]])"
  by (simp add: tools_to_chat_def sample_chat_normalized_def checked_function_def tool_function_def
      required_string_def sample_name)

lemma sample_turns_of:
  "context_to_chat_messages sample_chat_normalized = Inr [Turn ''user'' (Some (u ''hi'')) []]"
  by (simp add: context_to_chat_messages_def instruction_turns_def item_turns_def message_turns_def completed_def
      checked_role_def has_tool_blocks_def plain_turn_def text_content_def iterate_def or_else_def in_set_def
      sample_chat_normalized_def Let_def)

lemma sample_fields1:
  "is_ok (context_to_chat_messages sample_chat_normalized)" "is_ok (tools_to_chat sample_chat_normalized)"
  "is_ok (tools_to_anthropic sample_chat_normalized)"
  by (simp_all add: sample_turns_of sample_tools tools_to_anthropic_def anthropic_tool_json_def)

lemma sample_fields2:
  "is_ok (tool_choice_to_chat sample_chat_normalized)" "is_ok (parallel_allowed sample_chat_normalized)"
  "is_ok (sample_params sample_chat_normalized 2)" "is_ok (sample_params sample_chat_normalized 1)"
  by (simp_all add: tool_choice_to_chat_def word_choice_def parallel_allowed_def sample_params_def sample_param_def
      sample_options) (simp_all add: sample_chat_normalized_def word_choice_def)

lemma sample_fields3:
  "is_ok (stop_to_chat sample_chat_normalized)" "is_ok (stop_to_anthropic sample_chat_normalized)"
  "is_ok (output_limit sample_chat_normalized)" "is_ok (metadata_to_chat sample_chat_normalized)"
  "is_ok (output_format sample_chat_normalized False)"
  by (simp_all add: stop_to_chat_def stop_to_anthropic_def output_limit_def limit_keys_def metadata_to_chat_def
      metadata_user_def output_format_def chat_format_of_def sample_options Let_def)
    (simp add: sample_chat_normalized_def)

lemmas sample_fields = sample_fields1 sample_fields2 sample_fields3

lemma sample_history: "is_ok (bindr (context_to_chat_messages sample_chat_normalized) messages_to_anthropic)"
  by (simp add: sample_turns_of messages_to_anthropic_def)

lemma sample_chat_converts: "is_ok (to_chat_request sample_chat_normalized (u ''up''))"
  unfolding to_chat_request_def by (intro is_ok_bindrI sample_parts sample_fields) simp


section \<open>Tools and the tool policy\<close>

text \<open>
  A tool choice that both protocols read alike: none, a word, or a function by name. The Chat
  parser reads every object as a name, also \<open>{"type": "auto"}\<close>, which the conversion reads as
  the word, and does not look at \<open>disable_parallel_tool_use\<close>.
\<close>

definition plain_choice :: "json \<Rightarrow> bool" where
  "plain_choice v = (case v of
     JObj d \<Rightarrow> (oget d ''type'' = S ''function'' \<or> oget d ''type'' = S ''tool'') \<and>
       oget d ''disable_parallel_tool_use'' = JNull
   | _ \<Rightarrow> True)"

definition nested_tools :: "json \<Rightarrow> bool" where
  "nested_tools v = (case v of
     JList ts \<Rightarrow> list_all (\<lambda>t. case t of JObj d \<Rightarrow> is_obj (oget d ''function'') | _ \<Rightarrow> False) ts
   | _ \<Rightarrow> True)"

text \<open>Two definitions of the catalog that describe the same tool to a validator.\<close>

definition same_tool :: "caller_tool_definition \<Rightarrow> caller_tool_definition \<Rightarrow> bool" where
  "same_tool a b \<longleftrightarrow> ctd_name a = ctd_name b \<and> ctd_description a = ctd_description b \<and>
     is_generatable a = is_generatable b \<and>
     (ctd_input_schema a = ctd_input_schema b \<or>
      ctd_input_schema a = default_schema \<and> ctd_input_schema b = [(u ''type'', S ''object'')])"

fun choice_policy :: "choice \<Rightarrow> caller_tool_policy" where
  "choice_policy NoChoice = policy_of CHOICE_AUTO"
| "choice_policy (Word w) = policy_of (openai_choice (u w))"
| "choice_policy (Named s) = named_policy (JStr s)"

definition choice_ok :: "choice \<Rightarrow> bool" where
  "choice_ok c = (case c of Word w \<Rightarrow> w = ''auto'' \<or> w = ''none'' \<or> w = ''required'' | _ \<Rightarrow> True)"

lemma words_lower:
  "choice_word (S ''auto'') = u ''auto''" "choice_word (S ''none'') = u ''none''"
  "choice_word (S ''required'') = u ''required''" "choice_word (S ''any'') = u ''any''"
  "choice_word (S ''tool'') = u ''tool''" "choice_word JNull = u ''auto''"
  by (simp_all add: choice_word_def or_else_def) (simp_all add: ascii_lower_def lower_char_def u_def)

lemma required_string_Some: "required_string v l = Inr s \<Longrightarrow> v = JStr s"
  by (cases v) (auto simp: required_string_def split: if_splits)

lemma named_choice:
  assumes "object_choice d = Inr c" "oget d ''type'' = S ''function'' \<or> oget d ''type'' = S ''tool''"
  shows "\<exists>s. c = Named s \<and>
    (case oget d ''function'' of JObj f \<Rightarrow> oget f ''name'' | _ \<Rightarrow> oget d ''name'') = JStr s"
proof -
  have plain: "in_set (oget d ''type'') [S ''auto'', S ''none'', S ''any''] = Inr False"
    using assms(2) by (auto simp: in_set_def)
  obtain name s where name: "(case oget d ''function'' of
        JObj f \<Rightarrow> bindr (check_fields f [''name''] ''tool_choice.function'') (\<lambda>_. Inr (oget f ''name''))
      | _ \<Rightarrow> Inr (oget d ''name'')) = Inr name"
    and s: "required_string name ''tool_choice.name'' = Inr s" "c = Named s"
    using assms unfolding object_choice_def Let_def plain by (auto simp only: bindr_Inr_iff bindr.simps if_False if_True simp_thms sum.inject)
  show ?thesis using name s(2) required_string_Some [OF s(1)]
    by (cases "oget d ''function''") (simp_all only: json.case bindr_Inr_iff sum.inject, auto)
qed

lemma chat_choice_read:
  assumes "tool_choice_to_chat n = Inr c" "plain_choice (oget n ''tool_choice'')"
  shows "parse_chat_choice (oget n ''tool_choice'') = choice_policy c \<and> choice_ok c"
proof (cases "oget n ''tool_choice''")
  case JNull
  then show ?thesis using assms(1)
    by (simp add: tool_choice_to_chat_def parse_chat_choice_def words_lower choice_ok_def)
      (simp add: openai_choice_def policy_of_def words_lower)
next
  case (JStr s)
  then show ?thesis using assms(1)
    by (auto simp: tool_choice_to_chat_def word_choice_def parse_chat_choice_def words_lower choice_ok_def
        split: if_splits)
next
  case (JObj d)
  with assms have "object_choice d = Inr c" "oget d ''type'' = S ''function'' \<or> oget d ''type'' = S ''tool''"
    by (simp_all add: tool_choice_to_chat_def plain_choice_def)
  from named_choice [OF this] show ?thesis by (auto simp: JObj parse_chat_choice_def choice_ok_def)
qed (use assms(1) in \<open>auto simp: tool_choice_to_chat_def\<close>)

lemma anthropic_choice_read:
  assumes "choice_ok c"
  shows "parse_policy ANTHROPIC_MESSAGES (oget (anthropic_choice_field c p) ''tool_choice'') body =
    (if p = Some False then (choice_policy c)\<lparr>ctp_parallel_allowed := False\<rparr> else choice_policy c)"
proof -
  have read: "parse_policy ANTHROPIC_MESSAGES (JObj d) body =
      (if oget d ''disable_parallel_tool_use'' = JBool True then (choice_policy c)\<lparr>ctp_parallel_allowed := False\<rparr>
       else choice_policy c)" if "parse_anthropic_choice (JObj d) = choice_policy c" for d
    using that by (simp add: parse_policy_def anthropic_parallel_def)
  show ?thesis
  proof (cases c)
    case NoChoice
    then show ?thesis
      by (auto simp: anthropic_choice_field_def read parse_anthropic_choice_def words_lower Let_def
          anthropic_choice_def parse_policy_def anthropic_parallel_def)
  next
    case (Word w)
    then have "w = ''auto'' \<or> w = ''none'' \<or> w = ''required''" using assms by (simp add: choice_ok_def)
    then show ?thesis
      by (elim disjE) (auto simp: Word anthropic_choice_field_def read parse_anthropic_choice_def words_lower Let_def
          anthropic_choice_def openai_choice_def)
  next
    case (Named s)
    then show ?thesis
      by (auto simp: anthropic_choice_field_def read parse_anthropic_choice_def words_lower Let_def)
  qed
qed

lemma anthropic_body:
  assumes "to_anthropic_request n model = Inr body"
  obtains c p tools where "tool_choice_to_chat n = Inr c" "parallel_allowed n = Inr p"
    "tools_to_anthropic n = Inr tools"
    "oget body ''tool_choice'' = oget (anthropic_choice_field c p) ''tool_choice''"
    "oget body ''tools'' = (if tools = [] then JNull else JList tools)"
proof -
  obtain messages sys limit tools choice parallel sampling stop usr where
    tl: "tools_to_anthropic n = Inr tools" and ch: "tool_choice_to_chat n = Inr choice" and
    pa: "parallel_allowed n = Inr parallel" and sm: "sample_params n 1 = Inr sampling" and
    body: "body = [(u ''model'', JStr model),
         (u ''max_tokens'', JInt (case limit of None \<Rightarrow> 1024 | Some n \<Rightarrow> if n = 0 then 1024 else n)),
         (u ''messages'', JList messages)] @
       field ''system'' (opt_json JStr sys) @ (if tools = [] then [] else [(u ''tools'', JList tools)]) @
       anthropic_choice_field choice parallel @ sampling @ field ''stop_sequences'' stop @
       field ''metadata'' (opt_json (\<lambda>i. JObj [(u ''user_id'', i)]) usr)"
    using assms unfolding to_anthropic_request_def by (auto simp: bindr_Inr_iff)
  note s = sample_params_result [OF sm]
  have key: "\<not> ohas (anthropic_choice_field choice parallel) ''tools''"
    by (auto simp: anthropic_choice_field_def Let_def split: option.splits if_splits)
  show ?thesis
    by (rule that [OF ch pa tl]) (simp_all add: body oget_append ohas_append s key oget_absent)
qed

lemma parallel_read:
  assumes "parallel_allowed n = Inr p" "plain_choice (oget n ''tool_choice'')"
  shows "p = Some False \<longleftrightarrow> oget (options_of n) ''parallel_tool_calls'' = JBool False"
  using assms by (auto simp: parallel_allowed_def plain_choice_def bindr_Inr_iff split: json.splits)

lemma check_fields_key:
  "check_fields d allowed l = Inr x \<Longrightarrow> oget d k \<noteq> JNull \<Longrightarrow> u k \<in> u ` set allowed"
  by (induction d allowed l rule: check_fields.induct) (auto simp: oget_def split: if_splits)

lemma source_types:
  "py_str (or_else (S ''function'') (S ''function'')) = u ''function''"
  "py_str (or_else JNull (S ''custom'')) = u ''custom''"
  by (simp_all add: or_else_def)

lemma nested_function:
  assumes "checked_function (JObj d) = Inr f" "oget d ''function'' = JObj g"
  shows "f = g \<and> oget d ''type'' = S ''function'' \<and> is_str (oget f ''name'') \<and>
    (ohas f ''parameters'' \<longrightarrow> is_obj (oget f ''parameters''))"
  using assms
  by (auto simp: checked_function_def tool_function_def bindr_Inr_iff in_set_def required_string_def
      dest: check_fields_key [where k = "''function''"] split: if_splits json.splits)

lemma converted_tool:
  assumes "checked_function (JObj d) = Inr f" "is_obj (oget d ''function'')" "anthropic_tool_json f = Inr t"
  shows "\<exists>a b g. t = JObj g \<and> chat_tool_def d = Some a \<and> anthropic_tool_def g = Some b \<and> same_tool a b"
proof -
  obtain g where g: "oget d ''function'' = JObj g" using assms(2) by (cases "oget d ''function''") auto
  note f = nested_function [OF assms(1) g]
  obtain name where name: "oget f ''name'' = JStr name" using f by (cases "oget f ''name''") auto
  show ?thesis
  proof (cases "ohas f ''parameters''")
    case True
    then obtain schema where "oget f ''parameters'' = JObj schema"
      using f by (cases "oget f ''parameters''") auto
    then show ?thesis using assms(3) f g name True
      by (auto simp: anthropic_tool_json_def chat_tool_def_def anthropic_tool_def_def same_tool_def
          is_generatable_def source_types schema_or_default_def split: if_splits)
  next
    case False
    then show ?thesis using assms(3) f g name
      by (auto simp: anthropic_tool_json_def chat_tool_def_def anthropic_tool_def_def same_tool_def
          is_generatable_def source_types schema_or_default_def oget_absent split: if_splits)
  qed
qed

lemma converted_tools:
  "mapr checked_function items = Inr fs \<Longrightarrow> mapr anthropic_tool_json fs = Inr ts \<Longrightarrow>
   nested_tools (JList items) \<Longrightarrow>
   list_all2 same_tool (parse_tools OPENAI_CHAT (JList items)) (parse_tools ANTHROPIC_MESSAGES (JList ts))"
proof (induction items arbitrary: fs ts)
  case Nil
  then show ?case by (auto simp: parse_tools_def map_filter_simps)
next
  case (Cons i items)
  obtain d where d: "i = JObj d" "is_obj (oget d ''function'')"
    using Cons.prems(3) by (cases i) (auto simp: nested_tools_def)
  obtain f fs' where f: "checked_function (JObj d) = Inr f" "mapr checked_function items = Inr fs'" "fs = f # fs'"
    using Cons.prems(1) d by (auto simp: bindr_Inr_iff)
  obtain t ts' where t: "anthropic_tool_json f = Inr t" "mapr anthropic_tool_json fs' = Inr ts'" "ts = t # ts'"
    using Cons.prems(2) f by (auto simp: bindr_Inr_iff)
  obtain a b g where g: "t = JObj g" "chat_tool_def d = Some a" "anthropic_tool_def g = Some b" "same_tool a b"
    using converted_tool [OF f(1) d(2) t(1)] by blast
  have "nested_tools (JList items)" using Cons.prems(3) by (simp add: nested_tools_def)
  from Cons.IH [OF f(2) t(2) this] show ?case
    by (simp add: parse_tools_def map_filter_simps d t(3) g)
qed

lemma chat_normalized_options:
  "oget (chat_normalized r) ''tools'' = ch_tools r" "oget (chat_normalized r) ''tool_choice'' = ch_tool_choice r"
  "options_of (chat_normalized r) = without [''tools'', ''tool_choice''] (ch_options r)"
  by (auto simp: chat_normalized_def options_of_def or_else_def)

text \<open>
  C25. The tools and the tool policy survive the conversion to Anthropic: when a Chat request whose
  tool choice both protocols read alike is converted, the catalog the gateway derives from the
  new body has the policy of the catalog of the original, the ban on parallel calls included, and
  the same tools in the same order.
\<close>

theorem tool_policy_preserved:
  assumes "chat_request payload = Inr r" "to_anthropic_request (chat_normalized r) model = Inr body"
    and "plain_choice (oget payload ''tool_choice'')" "nested_tools (oget payload ''tools'')"
  shows "ctc_policy (build_caller_tool_catalog ANTHROPIC_MESSAGES body) =
      ctc_policy (build_caller_tool_catalog OPENAI_CHAT payload) \<and>
    list_all2 same_tool (ctc_definitions (build_caller_tool_catalog OPENAI_CHAT payload))
      (ctc_definitions (build_caller_tool_catalog ANTHROPIC_MESSAGES body))"
proof -
  let ?n = "chat_normalized r"
  have n: "oget ?n ''tool_choice'' = oget payload ''tool_choice''" "oget ?n ''tools'' = oget payload ''tools''"
      "oget (options_of ?n) ''parallel_tool_calls'' = oget payload ''parallel_tool_calls''"
    using assms(1) by (auto simp: chat_request_Inr chat_normalized_options oget_without)
  obtain c p tools where c: "tool_choice_to_chat ?n = Inr c" and p: "parallel_allowed ?n = Inr p"
    and t: "tools_to_anthropic ?n = Inr tools"
    and b: "oget body ''tool_choice'' = oget (anthropic_choice_field c p) ''tool_choice''"
      "oget body ''tools'' = (if tools = [] then JNull else JList tools)"
    by (rule anthropic_body [OF assms(2)])
  have choice: "parse_chat_choice (oget payload ''tool_choice'') = choice_policy c" "choice_ok c"
    using chat_choice_read [OF c] assms(3) by (simp_all add: n)
  have policy: "parse_policy ANTHROPIC_MESSAGES (oget body ''tool_choice'') body =
      parse_policy OPENAI_CHAT (oget payload ''tool_choice'') payload"
    unfolding b(1) anthropic_choice_read [OF choice(2)]
    using parallel_read [OF p] assms(3) by (simp add: parse_policy_def choice n)
  have tools: "list_all2 same_tool (parse_tools OPENAI_CHAT (oget payload ''tools''))
      (parse_tools ANTHROPIC_MESSAGES (oget body ''tools''))"
  proof (cases "oget payload ''tools''")
    case JNull
    then show ?thesis using t by (auto simp: b tools_to_anthropic_def tools_to_chat_def n parse_tools_def)
  next
    case (JList items)
    then obtain fs where "mapr checked_function items = Inr fs" "mapr anthropic_tool_json fs = Inr tools"
      using t by (auto simp: tools_to_anthropic_def tools_to_chat_def n bindr_Inr_iff)
    from converted_tools [OF this] show ?thesis
      using assms(4) JList by (auto simp: b parse_tools_def map_filter_simps)
  qed (use t in \<open>auto simp: tools_to_anthropic_def tools_to_chat_def n\<close>)
  show ?thesis using policy tools by (simp add: build_caller_tool_catalog_def)
qed

lemma sample_chat_request:
  "\<exists>r. chat_request sample_chat_options = Inr r \<and> chat_normalized r = sample_chat_normalized"
proof -
  have "\<not> blank (u ''m'')" by (simp add: blank_def strip_def rstrip_def lstrip_def u_def py_space_def)
  then show ?thesis
    by (simp add: chat_request_Inr require_non_empty_str_def check_messages_def message_ok_def chat_normalized_def
        sample_chat_options_def sample_chat_normalized_def without_def get_stream_def)
qed

theorem tool_policy_preserved_witness:
  "\<exists>body. to_anthropic_request sample_chat_normalized (u ''up'') = Inr body \<and>
     ctc_policy (build_caller_tool_catalog ANTHROPIC_MESSAGES body) =
       ctc_policy (build_caller_tool_catalog OPENAI_CHAT sample_chat_options)"
proof -
  obtain r where r: "chat_request sample_chat_options = Inr r" "chat_normalized r = sample_chat_normalized"
    using sample_chat_request by blast
  obtain ts where ts: "context_to_chat_messages sample_chat_normalized = Inr ts" "is_ok (messages_to_anthropic ts)"
    using sample_history by (cases "context_to_chat_messages sample_chat_normalized") auto
  have "is_ok (to_anthropic_request sample_chat_normalized (u ''up''))"
    unfolding to_anthropic_request_def
    by (intro is_ok_bindrI is_ok_prodI sample_parts sample_fields) (use ts in auto)
  then obtain body where body: "to_anthropic_request sample_chat_normalized (u ''up'') = Inr body"
    by (auto simp: is_ok_iff)
  have "plain_choice (oget sample_chat_options ''tool_choice'')" "nested_tools (oget sample_chat_options ''tools'')"
    by (simp_all add: sample_chat_options_def plain_choice_def nested_tools_def)
  from tool_policy_preserved [OF r(1) _ this, of "u ''up''" body] show ?thesis using r body by auto
qed

section \<open>Refusals\<close>

definition refuses :: "'a result \<Rightarrow> bool" where
  "refuses m \<longleftrightarrow> (\<forall>e. m = Inl e \<longrightarrow> (\<exists>f r. e = unsupported f r) \<or> e = PyError TypeError)"

named_theorems refusal

lemma refuses_basic [refusal]:
  "refuses (Inr x)" "refuses (Inl (unsupported f r))" "refuses (Inl (PyError TypeError))"
  "refuses (raise_if b (unsupported f r))" "refuses (in_set v vs)" "refuses (in_none_false v)"
  by (auto simp: refuses_def raise_if_def in_set_def split: if_splits) (cases v; auto split: if_splits)

lemma refuses_bindr [refusal]: "refuses m \<Longrightarrow> (\<And>x. refuses (f x)) \<Longrightarrow> refuses (bindr m f)"
  by (cases m) (auto simp: refuses_def)

lemma refuses_cases [refusal]:
  "refuses a \<Longrightarrow> refuses b \<Longrightarrow> refuses (if c then a else b)"
  "refuses a \<Longrightarrow> (\<And>x. refuses (f x)) \<Longrightarrow> refuses (case t of None \<Rightarrow> a | Some x \<Rightarrow> f x)"
  "(\<And>x y. refuses (g x y)) \<Longrightarrow> refuses (case p of (x, y) \<Rightarrow> g x y)"
  by (simp_all split: option.split prod.split)

lemma refuses_json [refusal]:
  "refuses n \<Longrightarrow> (\<And>x. refuses (b x)) \<Longrightarrow> (\<And>x. refuses (i x)) \<Longrightarrow> (\<And>x. refuses (f x)) \<Longrightarrow>
   (\<And>x. refuses (s x)) \<Longrightarrow> (\<And>x. refuses (l x)) \<Longrightarrow> (\<And>x. refuses (d x)) \<Longrightarrow>
   refuses (case v of JNull \<Rightarrow> n | JBool x \<Rightarrow> b x | JInt x \<Rightarrow> i x | JFloat x \<Rightarrow> f x | JStr x \<Rightarrow> s x
     | JList x \<Rightarrow> l x | JObj x \<Rightarrow> d x)"
  by (simp split: json.split)

lemma refuses_list [refusal]:
  "refuses a \<Longrightarrow> (\<And>x xs. refuses (f x xs)) \<Longrightarrow> refuses (case l of [] \<Rightarrow> a | x # xs \<Rightarrow> f x xs)"
  by (simp split: list.split)

lemma refuses_mapr [refusal]: "(\<And>x. refuses (f x)) \<Longrightarrow> refuses (mapr f xs)"
  by (auto simp: refuses_def dest!: mapr_Inl)

lemma refuses_check_fields [refusal]: "refuses (check_fields d ks l)"
proof (induction d)
  case Nil
  show ?case unfolding check_fields.simps by (intro refusal)
next
  case (Cons x d)
  then show ?case by (cases x) (simp only: check_fields.simps, intro refusal)
qed

lemma refuses_strings [refusal]:
  "refuses (required_string v l)" "refuses (object_only v)" "refuses (text_block_of v)"
  unfolding required_string_def object_only_def text_block_of_def by (intro refusal)+

lemma refuses_contents [refusal]:
  "refuses (arguments_object v)" "refuses (text_content v)" "refuses (completed d l)"
  unfolding arguments_object_def text_content_def completed_def by (intro refusal)+

lemma refuses_call [refusal]: "refuses (cross_call a b c)"
  unfolding cross_call_def by (intro refusal)

lemma refuses_blocks [refusal]: "refuses (any_tool_block bs)"
proof (induction bs)
  case Nil
  show ?case by (simp, intro refusal)
next
  case (Cons v bs)
  then show ?case by (cases v) (simp_all only: any_tool_block.simps, intro refusal)
qed

lemma refuses_turns [refusal]:
  "refuses (function_call_turn d)" "refuses (function_output_turn d)" "refuses (checked_role v)"
  "refuses (has_tool_blocks v)" "refuses (tool_use_turn r d)" "refuses (tool_result_turn r d)"
  "refuses (chat_history_call v)"
  unfolding function_call_turn_def function_output_turn_def checked_role_def has_tool_blocks_def
      tool_use_turn_def tool_result_turn_def chat_history_call_def by (intro refusal)+

lemma refuses_messages [refusal]: "refuses (block_turn r v)" "refuses (plain_turn r d)"
  unfolding block_turn_def plain_turn_def Let_def by (intro refusal)+

lemma refuses_message [refusal]: "refuses (message_turns d)"
  unfolding message_turns_def by (intro refusal)

lemma refuses_items [refusal]: "refuses (item_turns v)" "refuses (instruction_turns d)" "refuses (iterate v)"
  unfolding item_turns_def instruction_turns_def iterate_def Let_def by (intro refusal)+

lemma refuses_context [refusal]: "refuses (context_to_chat_messages d)"
  unfolding context_to_chat_messages_def by (intro refusal)

lemma refuses_turn_blocks [refusal]: "refuses (use_block c)" "refuses (turn_blocks t)"
proof -
  show use: "refuses (use_block c)" for c unfolding use_block_def by (intro refusal)
  show "refuses (turn_blocks t)" by (cases t) (simp_all only: turn_blocks.simps, (intro refusal use)+)
qed

lemma refuses_anthropic_turns: "refuses (to_anthropic_turns ts result sys)"
proof (induction ts arbitrary: result sys)
  case Nil
  show ?case unfolding to_anthropic_turns.simps by (intro refusal)
next
  case (Cons t ts)
  show ?case unfolding to_anthropic_turns.simps by (intro refusal Cons.IH)
qed

lemma refuses_history [refusal]: "refuses (messages_to_anthropic ts)"
  unfolding messages_to_anthropic_def by (intro refusal refuses_anthropic_turns)

lemma refuses_tools [refusal]:
  "refuses (tool_function v)" "refuses (anthropic_tool_json d)" "refuses (word_choice v)"
  unfolding tool_function_def anthropic_tool_json_def word_choice_def by (intro refusal)+

lemma refuses_checked_tools [refusal]: "refuses (checked_function v)" "refuses (object_choice d)"
  unfolding checked_function_def object_choice_def Let_def by (intro refusal)+

lemma refuses_choices [refusal]:
  "refuses (tools_to_chat d)" "refuses (tool_choice_to_chat d)" "refuses (parallel_allowed d)"
  unfolding tools_to_chat_def tool_choice_to_chat_def parallel_allowed_def by (intro refusal)+

lemma refuses_options [refusal]:
  "refuses (tools_to_anthropic d)" "refuses (sample_param d k n)" "refuses (stop_array v)"
  "refuses (metadata_user v)" "refuses (check_stream_options v)" "refuses (chat_format_of d)"
  "refuses (responses_format_of d)" "refuses (reject_none_of d ks)"
  unfolding tools_to_anthropic_def sample_param_def stop_array_def metadata_user_def check_stream_options_def
    chat_format_of_def responses_format_of_def reject_none_of_def Let_def
  by (intro refusal)+

lemma refuses_reject_extras [refusal]: "refuses (reject_extras d ks)"
proof (induction d)
  case Nil
  show ?case unfolding reject_extras.simps by (intro refusal)
next
  case (Cons x d)
  then show ?case by (cases x) (simp only: reject_extras.simps, intro refusal)
qed

lemma refuses_limits [refusal]:
  "refuses (sample_params d n)" "refuses (stop_to_chat d)" "refuses (stop_to_anthropic d)" "refuses (output_limit d)"
  "refuses (metadata_to_chat d)" "refuses (output_format d r)"
  unfolding sample_params_def stop_to_chat_def stop_to_anthropic_def output_limit_def metadata_to_chat_def
    output_format_def Let_def
  by (intro refusal)+


end
