(* ===== verification/Llm_Contract.thy ===== *)
theory Llm_Contract
  imports Llm_Forward
begin

text \<open>
  What the gateway sends to a model of the caller's own protocol: the caller's request, with the
  identity of the fake model added, and that building it never fails.
\<close>

section \<open>Defaults never overwrite\<close>

lemma odefault_le: "map_of d \<subseteq>\<^sub>m map_of (odefault k v d)"
  by (auto simp: odefault_def map_le_def map_add_def split: option.splits)

lemma odefaults_le: "map_of d \<subseteq>\<^sub>m map_of (odefaults ds d)"
proof (induction ds arbitrary: d)
  case (Cons p ds)
  obtain k v where p: "p = (k, v)" by (cases p)
  have "map_of d \<subseteq>\<^sub>m map_of (odefault k v d)" by (rule odefault_le)
  also have "\<dots> \<subseteq>\<^sub>m map_of (odefaults ds (odefault k v d))" by (rule Cons.IH)
  finally show ?case by (simp add: odefaults_def p)
qed (simp add: odefaults_def)

lemma default_opt_le: "map_of d \<subseteq>\<^sub>m map_of (default_opt k v d)"
  by (simp add: default_opt_def odefault_le split: option.split)

lemma default_limit_le: "map_of d \<subseteq>\<^sub>m map_of (default_limit cfg d)"
proof -
  have "map_of d \<subseteq>\<^sub>m map_of (d @ e)" for e by (auto simp: map_le_def map_add_def split: option.split)
  then show ?thesis
    by (simp add: default_limit_def odefault_le split: option.split llm_protocol.split)
qed

lemma default_thinking_le: "map_of d \<subseteq>\<^sub>m map_of (default_thinking cfg d)"
  by (simp add: default_thinking_def odefault_le split: option.split llm_protocol.split thinking_mode.split)

lemma apply_config_le: "map_of body \<subseteq>\<^sub>m map_of (apply_config cfg body)"
proof -
  have "map_of body \<subseteq>\<^sub>m map_of (default_opt ''top_p'' y (default_opt ''temperature'' x (odefaults ds body)))" for x y ds
    using odefaults_le default_opt_le map_le_trans by meson
  then show ?thesis
    unfolding apply_config_def Let_def
    using default_opt_le default_limit_le default_thinking_le map_le_trans by (smt (verit, best))
qed

lemma le_keeps: "map_of d \<subseteq>\<^sub>m map_of e \<Longrightarrow> ohas d k \<Longrightarrow> ohas e k \<and> oget e k = oget d k"
  unfolding map_le_def ohas_def oget_def by (metis domIff)

lemma apply_config_keeps: "ohas d k \<Longrightarrow> ohas (apply_config cfg d) k \<and> oget (apply_config cfg d) k = oget d k"
  by (rule le_keeps [OF apply_config_le])

section \<open>The identity comes after the caller's text\<close>

definition identity_after :: "ustr \<Rightarrow> json \<Rightarrow> json \<Rightarrow> bool" where
  "identity_after identity v v' \<longleftrightarrow>
     (case v of
        JStr s \<Rightarrow> \<exists>gap. v' = JStr (s @ gap @ identity)
      | JList parts \<Rightarrow> v' = JList (parts @ [text_part identity])
      | _ \<Rightarrow> \<exists>before. v' = JStr (before @ identity))"

definition is_system_message :: "json \<Rightarrow> bool" where
  "is_system_message v \<longleftrightarrow> is_obj v \<and> oget (obj_of v) ''role'' = S ''system''"

text \<open>Of the messages of a chat only the first system message changes; without one, the identity is put in front.\<close>

definition identity_merged :: "ustr \<Rightarrow> json list \<Rightarrow> json list \<Rightarrow> bool" where
  "identity_merged identity ms ms' \<longleftrightarrow>
     \<not> list_ex is_system_message ms \<and> ms' = JObj [(u ''role'', S ''system''), (u ''content'', JStr identity)] # ms \<or>
     (\<exists>before m rest c. ms = before @ JObj m # rest \<and> \<not> list_ex is_system_message before \<and> is_system_message (JObj m) \<and>
        ms' = before @ JObj (oset m ''content'' c) # rest \<and> identity_after identity (oget m ''content'') c)"

definition identity_added :: "llm_protocol \<Rightarrow> ustr \<Rightarrow> json \<Rightarrow> json \<Rightarrow> bool" where
  "identity_added p identity v v' \<longleftrightarrow>
     (if p = LLM_CHAT then \<exists>ms ms'. v = JList ms \<and> v' = JList ms' \<and> identity_merged identity ms ms'
      else identity_after identity v v')"

definition carrier_key :: "llm_protocol \<Rightarrow> string" where
  "carrier_key p = (case p of LLM_CHAT \<Rightarrow> ''messages'' | LLM_RESPONSES \<Rightarrow> ''instructions'' | LLM_ANTHROPIC \<Rightarrow> ''system'')"

definition carrier_ok :: "llm_protocol \<Rightarrow> json \<Rightarrow> bool" where
  "carrier_ok p v \<longleftrightarrow>
     (case p of
        LLM_CHAT \<Rightarrow> is_list v
      | LLM_RESPONSES \<Rightarrow> v = JNull \<or> is_str v
      | LLM_ANTHROPIC \<Rightarrow> v = JNull \<or> is_str v \<or> is_list v)"

lemma after_text:
  "identity_after identity v (JStr (py_str (or_else v (S '''')) @ blank_line @ identity))" if "\<not> is_list v"
proof (cases v)
  case (JStr s)
  have "py_str (or_else (JStr s) (S '''')) = s" by (simp add: or_else_def u_def)
  then show ?thesis by (auto simp: JStr identity_after_def)
next
  case (JList xs)
  then show ?thesis using that by simp
qed (auto simp: identity_after_def intro: exI [of _ "py_str (or_else v (S '''')) @ blank_line"])

lemma merged_after: "\<exists>c. merged_identity m identity = oset m ''content'' c \<and> identity_after identity (oget m ''content'') c"
proof (cases "is_list (oget m ''content'')")
  case True
  then obtain parts where "oget m ''content'' = JList parts" by (cases "oget m ''content''") auto
  then show ?thesis by (auto simp: merged_identity_def identity_after_def)
next
  case False
  then have "merged_identity m identity =
      oset m ''content'' (JStr (py_str (or_else (oget m ''content'') (S '''')) @ blank_line @ identity))"
    by (cases "oget m ''content''") (simp_all add: merged_identity_def)
  then show ?thesis using after_text [OF False] by blast
qed

lemma merge_first_system_inv:
  "merge_first_system identity ms = Inr r \<Longrightarrow>
   (case r of
      None \<Rightarrow> \<not> list_ex is_system_message ms
    | Some ms' \<Rightarrow> list_ex is_system_message ms \<and> identity_merged identity ms ms')"
proof (induction ms arbitrary: r)
  case (Cons v ms)
  then obtain m where v: "v = JObj m" by (cases v) auto
  show ?case
  proof (cases "oget m ''role'' = S ''system''")
    case True
    then have "r = Some (JObj (merged_identity m identity) # ms)" "is_system_message v"
      using Cons.prems by (auto simp: v is_system_message_def)
    moreover obtain c where "merged_identity m identity = oset m ''content'' c" "identity_after identity (oget m ''content'') c"
      using merged_after by blast
    ultimately have "identity_merged identity (v # ms) (JObj (merged_identity m identity) # ms)"
      unfolding identity_merged_def v by (intro disjI2 exI [of _ "[]"] exI [of _ m] exI [of _ ms] exI [of _ c]) simp
    with \<open>r = _\<close> \<open>is_system_message v\<close> show ?thesis by simp
  next
    case False
    then obtain r' where r: "merge_first_system identity ms = Inr r'" "r = map_option (\<lambda>ms'. JObj m # ms') r'"
      using Cons.prems by (auto simp: v bindr_Inr_iff)
    have plain: "\<not> is_system_message v" using False by (simp add: v is_system_message_def)
    show ?thesis
    proof (cases r')
      case None
      then show ?thesis using Cons.IH [OF r(1)] r(2) plain by simp
    next
      case (Some ms')
      then have "list_ex is_system_message ms" "identity_merged identity ms ms'" using Cons.IH [OF r(1)] by simp_all
      then obtain before k rest c where "ms = before @ JObj k # rest" "\<not> list_ex is_system_message before"
          "is_system_message (JObj k)" "ms' = before @ JObj (oset k ''content'' c) # rest"
          "identity_after identity (oget k ''content'') c"
        unfolding identity_merged_def by blast
      then have "identity_merged identity (v # ms) (v # ms')"
        using plain unfolding identity_merged_def by (intro disjI2 exI [of _ "v # before"] exI) auto
      then show ?thesis using r(2) Some \<open>list_ex is_system_message ms\<close> by (simp add: v)
    qed
  qed
qed simp

lemma merge_first_system_total: "list_all is_obj ms \<Longrightarrow> \<exists>r. merge_first_system identity ms = Inr r"
proof (induction ms)
  case (Cons v ms)
  then show ?case by (cases v) (auto simp: bindr_Inr_iff)
qed simp

lemma inject_added:
  assumes "inject_identity p body identity = Inr body'" "carrier_ok p (oget body (carrier_key p))"
  shows "identity_added p identity (oget body (carrier_key p)) (oget body' (carrier_key p))"
proof (cases p)
  case LLM_CHAT
  then obtain ms where ms: "oget body ''messages'' = JList ms"
    using assms(2) by (cases "oget body ''messages''") (auto simp: carrier_ok_def carrier_key_def)
  have "iterate (or_else (JList ms) (JList [])) = Inr ms" by (simp add: iterate_def or_else_def)
  then obtain r where r: "merge_first_system identity ms = Inr r" "body' = oset body ''messages'' (JList
       (case r of Some ms' \<Rightarrow> ms' | None \<Rightarrow> JObj [(u ''role'', S ''system''), (u ''content'', JStr identity)] # ms))"
    using assms(1) LLM_CHAT ms by (auto simp: inject_identity_def inject_identity_chat_def bindr_Inr_iff)
  then show ?thesis using merge_first_system_inv [OF r(1)] ms LLM_CHAT
    by (cases r) (auto simp: identity_added_def identity_merged_def carrier_key_def)
next
  case LLM_RESPONSES
  have "\<exists>gap. identity = gap @ identity" by (rule exI [of _ "[]"]) simp
  then show ?thesis using assms LLM_RESPONSES
    by (cases "oget body ''instructions''")
      (auto simp: identity_added_def identity_after_def inject_identity_def inject_identity_responses_def carrier_key_def carrier_ok_def)
next
  case LLM_ANTHROPIC
  have "\<exists>gap. identity = gap @ identity" by (rule exI [of _ "[]"]) simp
  then show ?thesis using assms LLM_ANTHROPIC
    by (cases "oget body ''system''")
      (auto simp: identity_added_def identity_after_def inject_identity_def inject_identity_anthropic_def carrier_key_def carrier_ok_def)
qed

lemma inject_total:
  assumes "p = LLM_CHAT \<Longrightarrow> \<exists>ms. oget body ''messages'' = JList ms \<and> list_all is_obj ms"
  shows "\<exists>body'. inject_identity p body identity = Inr body'"
proof (cases p)
  case LLM_CHAT
  then obtain ms where "oget body ''messages'' = JList ms" "list_all is_obj ms" using assms by blast
  then show ?thesis using merge_first_system_total [of ms identity] LLM_CHAT
    by (auto simp: inject_identity_def inject_identity_chat_def iterate_def or_else_def)
qed (simp_all add: inject_identity_def)

lemma inject_elsewhere:
  assumes "inject_identity p body identity = Inr body'" "k \<noteq> carrier_key p"
  shows "oget body' k = oget body k"
  using assms
  by (auto simp: inject_identity_def carrier_key_def inject_identity_chat_def inject_identity_responses_def
      inject_identity_anthropic_def bindr_Inr_iff split: llm_protocol.splits json.splits)

lemma odel_simps [simp]:
  "oget (odel d k) j = (if j = k then JNull else oget d j)" "ohas (odel d k) j \<longleftrightarrow> j \<noteq> k \<and> ohas d j"
proof -
  have "map_of (filter (\<lambda>(k', v). k' \<noteq> u k) d) (u j) = (if u j = u k then None else map_of d (u j))"
    by (induction d) auto
  then show "oget (odel d k) j = (if j = k then JNull else oget d j)" "ohas (odel d k) j \<longleftrightarrow> j \<noteq> k \<and> ohas d j"
    by (auto simp: odel_def oget_def ohas_def)
qed

section \<open>A request to a model of the caller's protocol\<close>

lemma native_request:
  assumes "inference_to_llm (rt_protocol task) = Some (lc_protocol cfg)" "raw_object task = Some raw"
  shows "build_upstream_request task cfg description normalized =
    bindr (expanded_raw cfg normalized raw) (\<lambda>mid.
      inject_identity (lc_protocol cfg) (apply_config cfg (oset mid ''model'' (JStr (lc_real_model cfg))))
        (identity_system_message description (rt_requested_model task)))"
proof -
  have "bindr (bindr m (\<lambda>x. Inr (f x))) g = bindr m (\<lambda>x. g (f x))" for m :: "obj result" and f g
    by (cases m) simp_all
  then show ?thesis using assms by (simp add: build_upstream_request_def native_body_def)
qed

lemma expanded_elsewhere:
  assumes "expanded_raw cfg normalized raw = Inr mid" "k \<noteq> ''previous_response_id''" "k \<noteq> ''input''"
  shows "oget mid k = oget raw k \<and> (ohas mid k \<longleftrightarrow> ohas raw k)"
  using assms by (auto simp: expanded_raw_def split: if_splits)

lemma expanded_input:
  assumes "expanded_raw cfg normalized raw = Inr mid" "ohas raw ''input''"
  shows "ohas mid ''input'' \<and> oget mid ''input'' =
    (if lc_protocol cfg = LLM_RESPONSES \<and> oget raw ''previous_response_id'' \<noteq> JNull then oget normalized ''context''
     else oget raw ''input'')"
  using assms by (auto simp: expanded_raw_def split: if_splits)



section \<open>Building it cannot fail\<close>

definition parses_to :: "request_task \<Rightarrow> parsed \<Rightarrow> bool" where
  "parses_to task p \<longleftrightarrow>
     (case p of
        PChat r \<Rightarrow> rt_protocol task = OPENAI_CHAT \<and> parse_chat (rt_raw_payload_json task) = Inr r
      | PResponses r \<Rightarrow> rt_protocol task = OPENAI_RESPONSES \<and> parse_responses (rt_raw_payload_json task) = Inr r
      | PAnthropic r \<Rightarrow> rt_protocol task = ANTHROPIC_MESSAGES \<and> parse_anthropic (rt_raw_payload_json task) = Inr r
      | PSystemOne r \<Rightarrow> False)"

lemma decode_object_raw: "decode_object l (rt_raw_payload_json task) = Inr d \<longleftrightarrow> raw_object task = Some d"
  by (auto simp: decode_object_def raw_object_def split: option.splits json.splits)

lemma parses_to_raw: "parses_to task p \<Longrightarrow> \<exists>raw. raw_object task = Some raw"
  by (cases p) (auto simp: parses_to_def parse_chat_def parse_responses_def parse_anthropic_def bindr_Inr_iff decode_object_raw)

lemma chat_messages_typed:
  assumes "chat_request raw = Inr r"
  shows "ohas raw ''messages'' \<and> (\<exists>ms. oget raw ''messages'' = JList ms \<and> list_all is_obj ms)"
proof -
  obtain ms where ms: "check_messages raw = Inr ms" using assms by (auto simp: chat_request_def bindr_Inr_iff)
  then have "oget raw ''messages'' = JList ms" "list_all message_ok ms"
    by (auto simp: check_messages_def split: json.splits if_splits)
  moreover have "is_obj v" if "message_ok v" for v using that by (auto simp: message_ok_def split: json.splits)
  moreover have "ohas raw ''messages''" using \<open>oget raw ''messages'' = JList ms\<close> oget_absent by fastforce
  ultimately show ?thesis by (auto simp: list_all_iff)
qed

text \<open>
  C24. Requests to a model of the caller's own protocol are well typed. For every body that a protocol parser
  accepted and every normalized request that was made of it, whatever the configuration, building the
  request for a model of that protocol ends with a body: no attribute, key or type error can occur.
\<close>

theorem native_request_total:
  assumes "parses_to task p" "build_normalized p previous (rt_protocol task) = Inr normalized"
    and "inference_to_llm (rt_protocol task) = Some (lc_protocol cfg)"
  shows "\<exists>body. build_upstream_request task cfg description normalized = Inr body"
proof -
  obtain raw where raw: "raw_object task = Some raw" using parses_to_raw [OF assms(1)] by blast
  have "\<exists>mid. expanded_raw cfg normalized raw = Inr mid \<and> (lc_protocol cfg = LLM_CHAT \<longrightarrow> mid = raw)"
  proof (cases "lc_protocol cfg = LLM_RESPONSES")
    case True
    then have "rt_protocol task = OPENAI_RESPONSES" using assms(3) by (cases "rt_protocol task") auto
    then obtain r where "p = PResponses r" using assms(1) by (cases p) (auto simp: parses_to_def)
    then have "ohas normalized ''context''"
      using assms(2) by (auto simp: build_normalized_def with_budget_def bindr_Inr_iff Let_def responses_normalized_def)
    then show ?thesis by (auto simp: expanded_raw_def True)
  qed (simp add: expanded_raw_def)
  then obtain mid where mid: "expanded_raw cfg normalized raw = Inr mid" "lc_protocol cfg = LLM_CHAT \<Longrightarrow> mid = raw" by blast
  let ?full = "apply_config cfg (oset mid ''model'' (JStr (lc_real_model cfg)))"
  have "\<exists>ms. oget ?full ''messages'' = JList ms \<and> list_all is_obj ms" if chat: "lc_protocol cfg = LLM_CHAT"
  proof -
    have "rt_protocol task = OPENAI_CHAT" using assms(3) chat by (cases "rt_protocol task") auto
    then obtain r where "parse_chat (rt_raw_payload_json task) = Inr r" using assms(1) by (cases p) (auto simp: parses_to_def)
    then have "chat_request raw = Inr r" using raw by (auto simp: parse_chat_def bindr_Inr_iff decode_object_raw)
    from chat_messages_typed [OF this] show ?thesis
      using apply_config_keeps [of "oset mid ''model'' (JStr (lc_real_model cfg))" "''messages''" cfg] mid(2) [OF chat] by auto
  qed
  then show ?thesis
    using inject_total [of "lc_protocol cfg" ?full] unfolding native_request [OF assms(3) raw] mid(1) by simp
qed

theorem native_request_total_witness:
  "\<exists>body. build_upstream_request (sample_task\<lparr>rt_raw_payload_json := dumps (JObj llm_body)\<rparr>) sample_config None
     [(u ''context'', oget llm_body ''messages''), (u ''instructions'', JNull), (u ''tools'', JNull), (u ''tool_choice'', JNull),
      (u ''options'', JObj []), (u ''messages'', oget llm_body ''messages''), (u ''stream'', JBool False)] = Inr body"
proof -
  let ?t = "sample_task\<lparr>rt_raw_payload_json := dumps (JObj llm_body)\<rparr>"
  let ?r = "\<lparr>ch_model = u ''m'', ch_messages = [JObj [(u ''role'', S ''user''), (u ''content'', S ''hi'')]], ch_stream = False,
      ch_stream_options = JNull, ch_tools = JNull, ch_tool_choice = JNull, ch_options = [], ch_raw = llm_body\<rparr>"
  have "\<not> blank (u ''m'')" by (simp add: blank_def strip_def rstrip_def lstrip_def py_space_def u_def)
  then have "parse_chat (dumps (JObj llm_body)) = Inr ?r"
    by (simp add: parse_chat_def decode_object_def loads_dumps [OF llm_body_wf])
      (simp add: chat_request_def llm_body_def reject_unsupported_field_def require_non_empty_str_def check_messages_def
        message_ok_def get_stream_def without_def raise_if_def)
  then have p: "parses_to ?t (PChat ?r)" by (simp add: parses_to_def)
  have n: "build_normalized (PChat ?r) None (rt_protocol ?t) = Inr (chat_normalized ?r)"
  proof -
    have "enforce_context_budget [JObj [(u ''role'', S ''user''), (u ''content'', S ''hi'')]] = Inr ()"
      by (simp add: enforce_context_budget_def context_item_count_def context_json_bytes_def utf8_length_def utf8_width_def
          surrogate_def dumps_compact_def quote_def escape_char_def MAX_EXPANDED_ITEMS_def MAX_EXPANDED_CONTEXT_BYTES_def u_def)
    then show ?thesis
      by (simp add: build_normalized_def with_budget_def assert_unique_tool_names_def llm_body_def build_caller_tool_catalog_def
          parse_tools_def)
  qed
  have cfg: "inference_to_llm (rt_protocol ?t) = Some (lc_protocol sample_config)"
    by (simp add: sample_config_def)
  show ?thesis using native_request_total [OF p n cfg, of None] by (simp add: chat_normalized_def without_def llm_body_def)
qed

end
