(* ===== verification/Request_View.thy ===== *)
theory Request_View
  imports Inference
begin

text \<open>
  The view of a request in the workbench: \<open>app/domain/request_view.py\<close> and
  \<open>app/services/request_view_service.py\<close>. A block is the dictionary the code builds, and an item
  a record. \<open>sha\<close> stands for the hexadecimal SHA-256 digest of the UTF-8 encoding of a text; the proofs use
  that it does not collide on the seeds of one view. Dates and the task's own columns in
  the answer of the endpoint are left out.
\<close>

section \<open>Ids\<close>

definition TEXT_PREVIEW_CHARS :: nat where "TEXT_PREVIEW_CHARS = 1200"

definition stable_seed :: "json list \<Rightarrow> ustr" where
  "stable_seed parts = dumps (JList parts)"

definition opaque_id :: "(ustr \<Rightarrow> ustr) \<Rightarrow> string \<Rightarrow> ustr \<Rightarrow> ustr" where
  "opaque_id sha prefix seed = u prefix @ 95 # take 20 (sha seed)"

section \<open>Blocks\<close>

type_synonym block = obj

definition text_preview :: "ustr \<Rightarrow> obj" where
  "text_preview t =
     (if length t \<le> TEXT_PREVIEW_CHARS
      then [(u ''text'', JStr t), (u ''text_length'', JInt (int (length t))), (u ''truncated'', JBool False)]
      else [(u ''text'', JStr (take TEXT_PREVIEW_CHARS t)), (u ''text_length'', JInt (int (length t))),
            (u ''truncated'', JBool True)])"

definition text_view :: "json \<Rightarrow> block" where
  "text_view v = (u ''type'', S ''text'') # text_preview (case v of JStr s \<Rightarrow> s | _ \<Rightarrow> [])"

definition some_str :: "ustr \<Rightarrow> json" where
  "some_str s = (if s = [] then JNull else JStr s)"

definition only_str :: "json \<Rightarrow> json" where
  "only_str v = (case v of JStr s \<Rightarrow> JStr s | _ \<Rightarrow> JNull)"

text \<open>The media type and the data of a data URL; nothing of another text.\<close>

definition data_url_parts :: "json \<Rightarrow> json \<times> json" where
  "data_url_parts url =
     (case url of
        JStr s \<Rightarrow>
          if startswith s (u ''data:'') then
            (let (header, payload) = partition_at 44 s
             in (some_str (takeWhile (\<lambda>c. c \<noteq> 59) (drop 5 header)), some_str payload))
          else (JNull, JNull)
      | _ \<Rightarrow> (JNull, JNull))"

definition base64_size :: "json \<Rightarrow> json" where
  "base64_size data = (case data of JStr (c # s) \<Rightarrow> JInt (int (length (c # s) * 3 div 4)) | _ \<Rightarrow> JNull)"

definition media_source :: "json \<Rightarrow> json \<Rightarrow> json" where
  "media_source data url = (if truthy data then S ''base64'' else if truthy url then S ''url'' else JNull)"

definition media_fields :: "string \<Rightarrow> json \<Rightarrow> json \<Rightarrow> json \<Rightarrow> json \<Rightarrow> bool \<Rightarrow> block" where
  "media_fields ty media_type data url filename previewable =
     [(u ''type'', S ty), (u ''media_type'', media_type), (u ''filename'', filename),
      (u ''source'', media_source data url), (u ''url'', url), (u ''size_bytes'', base64_size data),
      (u ''previewable'', JBool previewable), (u ''data'', data)]"

definition previewable_types :: "string list" where
  "previewable_types = [''image/png'', ''image/jpeg'', ''image/gif'', ''image/webp'', ''image/bmp'', ''image/avif'']"

definition image_block :: "json \<Rightarrow> json \<Rightarrow> json \<Rightarrow> block result" where
  "image_block media_type data url =
     bindr (if truthy data then in_set media_type (map S previewable_types) else Inr False) (\<lambda>previewable.
     Inr (media_fields ''image'' media_type data url JNull previewable))"

definition media_block :: "string \<Rightarrow> json \<Rightarrow> json \<Rightarrow> json \<Rightarrow> json \<Rightarrow> block" where
  "media_block ty media_type data url filename = media_fields ty media_type data url filename False"

definition tool_call_block :: "json \<Rightarrow> json \<Rightarrow> json \<Rightarrow> block" where
  "tool_call_block name arguments call_id =
     (let decoded = (case arguments of JStr s \<Rightarrow> (case loads s of Some v \<Rightarrow> v | None \<Rightarrow> JNull) | v \<Rightarrow> v);
          args = obj_of decoded;
          preview = dumps (JObj args)
      in [(u ''type'', S ''tool_call''), (u ''name'', only_str name), (u ''call_id'', only_str call_id),
          (u ''arguments'', JObj args), (u ''arguments_preview'', JStr (take TEXT_PREVIEW_CHARS preview)),
          (u ''truncated'', JBool (length preview > TEXT_PREVIEW_CHARS))])"

definition tool_result_block :: "json \<Rightarrow> json \<Rightarrow> block" where
  "tool_result_block call_id content =
     [(u ''type'', S ''tool_result''), (u ''call_id'', only_str call_id)] @
     text_preview (case content of JStr s \<Rightarrow> s | v \<Rightarrow> dumps v)"

definition unsupported_block :: "ustr \<Rightarrow> block" where
  "unsupported_block kind = [(u ''type'', S ''unsupported''), (u ''raw_type'', JStr kind)]"

definition type_or :: "obj \<Rightarrow> string \<Rightarrow> ustr" where
  "type_or d otherwise = py_str (or_else (oget d ''type'') (S otherwise))"

definition sub_object :: "obj \<Rightarrow> string \<Rightarrow> obj" where
  "sub_object d k = obj_of (oget d k)"

text \<open>An image given by a URL, which may hold the data itself.\<close>

definition url_image :: "json \<Rightarrow> block result" where
  "url_image url =
     (let (media_type, data) = data_url_parts url
      in if data \<noteq> JNull then image_block media_type data JNull else image_block media_type JNull (only_str url))"

text \<open>A file's data, either a data URL or the bare data.\<close>

definition file_data :: "json \<Rightarrow> json \<times> json" where
  "file_data data =
     (let (media_type, extracted) = data_url_parts data
      in (media_type, if extracted = JNull then only_str data else extracted))"

definition chat_part_to_block :: "obj \<Rightarrow> block result" where
  "chat_part_to_block part =
     (let ptype = type_or part ''text''
      in if ptype = u ''text'' \<or> ptype = u ''output_text'' then Inr (text_view (oget part ''text''))
         else if ptype = u ''image_url'' then url_image (oget (sub_object part ''image_url'') ''url'')
         else if ptype = u ''input_audio'' then
           (let audio = sub_object part ''input_audio'';
                media = (case oget audio ''format'' of JStr s \<Rightarrow> JStr (u ''audio/'' @ s) | _ \<Rightarrow> JNull)
            in Inr (media_block ''audio'' media (only_str (oget audio ''data'')) JNull JNull))
         else if ptype = u ''file'' then
           (let info = sub_object part ''file''; (media_type, data) = file_data (oget info ''file_data'')
            in Inr (media_block ''file'' media_type data (only_str (or_else (oget info ''file_url'') (oget info ''url'')))
                 (oget info ''filename'')))
         else Inr (unsupported_block ptype))"

text \<open>The texts of a tool result's content, joined by line feeds.\<close>

definition result_text :: "json \<Rightarrow> ustr list result" where
  "result_text v =
     (case v of
        JObj d \<Rightarrow>
          if oget d ''type'' \<noteq> S ''text'' then Inr []
          else (case (if ohas d ''text'' then oget d ''text'' else JStr []) of
                  JStr s \<Rightarrow> Inr [s] | _ \<Rightarrow> Inl (PyError TypeError))
      | _ \<Rightarrow> Inr [])"

definition result_content :: "json \<Rightarrow> json result" where
  "result_content v =
     (case v of
        JList items \<Rightarrow> bindr (mapr result_text items) (\<lambda>tss. Inr (JStr (join [10] (concat tss))))
      | _ \<Rightarrow> Inr v)"

definition anthropic_part_to_block :: "obj \<Rightarrow> block result" where
  "anthropic_part_to_block part =
     (let ptype = type_or part ''text''; source = sub_object part ''source'';
          data = only_str (oget source ''data''); base64 = (oget source ''type'' = S ''base64'');
          filename = or_else (oget source ''name'') (oget part ''title'')
      in if ptype = u ''text'' then Inr (text_view (oget part ''text''))
         else if ptype = u ''image'' then
           (if base64 then image_block (oget source ''media_type'') data JNull
            else image_block JNull JNull (oget source ''url''))
         else if ptype = u ''document'' then
           (if base64 then Inr (media_block ''document'' (oget source ''media_type'') data JNull filename)
            else Inr (media_block ''document'' JNull JNull (oget source ''url'') filename))
         else if ptype = u ''tool_use'' then
           Inr (tool_call_block (oget part ''name'') (oget part ''input'') (oget part ''id''))
         else if ptype = u ''tool_result'' then
           bindr (result_content (oget part ''content'')) (\<lambda>content.
           Inr (tool_result_block (oget part ''tool_use_id'') content))
         else if ptype = u ''audio'' then
           Inr (media_block ''audio'' (only_str (oget source ''type'')) data JNull JNull)
         else Inr (unsupported_block ptype))"

definition responses_part_to_block :: "obj \<Rightarrow> block result" where
  "responses_part_to_block part =
     (let ptype = type_or part ''input_text''
      in if ptype \<in> {u ''input_text'', u ''output_text'', u ''summary_text''} then Inr (text_view (oget part ''text''))
         else if ptype = u ''input_image'' then url_image (oget part ''image_url'')
         else if ptype = u ''input_file'' then
           (let (media_type, data) = file_data (oget part ''file_data'')
            in Inr (media_block ''file'' media_type data (only_str (oget part ''file_url'')) (oget part ''filename'')))
         else Inr (unsupported_block ptype))"

datatype protocol_kind = KChat | KAnthropic | KResponses | KSystemOne

fun protocol_kind_of :: "inference_protocol \<Rightarrow> protocol_kind" where
  "protocol_kind_of OPENAI_CHAT = KChat"
| "protocol_kind_of ANTHROPIC_MESSAGES = KAnthropic"
| "protocol_kind_of OPENAI_RESPONSES = KResponses"
| "protocol_kind_of TYPE_SAFE_SYSTEMONE = KSystemOne"

fun kind_name :: "protocol_kind \<Rightarrow> string" where
  "kind_name KChat = ''chat''"
| "kind_name KAnthropic = ''anthropic''"
| "kind_name KResponses = ''responses''"
| "kind_name KSystemOne = ''systemone''"

fun type_name :: "json \<Rightarrow> string" where
  "type_name JNull = ''NoneType''"
| "type_name (JBool b) = ''bool''"
| "type_name (JInt i) = ''int''"
| "type_name (JFloat f) = ''float''"
| "type_name (JStr s) = ''str''"
| "type_name (JList xs) = ''list''"
| "type_name (JObj d) = ''dict''"

definition part_to_block :: "protocol_kind \<Rightarrow> json \<Rightarrow> block result" where
  "part_to_block kind v =
     (case v of
        JObj part \<Rightarrow>
          (case kind of
             KChat \<Rightarrow>
               (let ptype = py_str (or_else (oget part ''type'') (JStr []))
                in if ptype \<in> set (map u [''text'', ''image_url'', ''input_audio'', ''file''])
                   then chat_part_to_block part else Inr (unsupported_block ptype))
           | KAnthropic \<Rightarrow> anthropic_part_to_block part
           | _ \<Rightarrow> responses_part_to_block part)
      | _ \<Rightarrow> Inr (unsupported_block (u (type_name v))))"

definition content_parts_to_blocks :: "protocol_kind \<Rightarrow> json \<Rightarrow> block list result" where
  "content_parts_to_blocks kind content =
     (case content of
        JNull \<Rightarrow> Inr []
      | JStr s \<Rightarrow> Inr [text_view (JStr s)]
      | JList parts \<Rightarrow> mapr (part_to_block kind) parts
      | v \<Rightarrow> Inr [unsupported_block (u (type_name v))])"

definition chat_call_blocks :: "json \<Rightarrow> block list" where
  "chat_call_blocks v =
     (case v of
        JObj call \<Rightarrow>
          (let fn = sub_object call ''function''
           in [tool_call_block (oget fn ''name'') (oget fn ''arguments'') (oget call ''id'')])
      | _ \<Rightarrow> [])"

definition message_blocks :: "protocol_kind \<Rightarrow> obj \<Rightarrow> block list result" where
  "message_blocks kind message =
     bindr (content_parts_to_blocks kind (oget message ''content'')) (\<lambda>blocks.
     Inr (blocks @ (case (kind, oget message ''tool_calls'') of
                      (KChat, JList calls) \<Rightarrow> concat (map chat_call_blocks calls) | _ \<Rightarrow> [])))"

definition responses_item_blocks :: "obj \<Rightarrow> block list result" where
  "responses_item_blocks item =
     (let itype = type_or item ''message''
      in if itype = u ''message'' then content_parts_to_blocks KResponses (oget item ''content'')
         else if itype = u ''function_call''
         then Inr [tool_call_block (oget item ''name'') (oget item ''arguments'') (oget item ''call_id'')]
         else if itype = u ''function_call_output''
         then Inr [tool_result_block (oget item ''call_id'') (oget item ''output'')]
         else Inr [unsupported_block itype])"

section \<open>Items\<close>

record view_item =
  vi_id :: ustr
  vi_role :: ustr
  vi_blocks :: "block list"
  vi_text_length :: int

definition assign_block_ids :: "(ustr \<Rightarrow> ustr) \<Rightarrow> block list \<Rightarrow> string \<Rightarrow> ustr \<Rightarrow> block list" where
  "assign_block_ids sha blocks place base_seed =
     map (\<lambda>(i, b). oset b ''id'' (JStr (opaque_id sha ''blk''
       (stable_seed [S place, JStr base_seed, JInt (int i), oget b ''type''])))) (enumerate 0 blocks)"

definition block_text_length :: "block \<Rightarrow> int" where
  "block_text_length b = (if oget b ''type'' = S ''text'' then (case oget b ''text_length'' of JInt n \<Rightarrow> n | _ \<Rightarrow> 0) else 0)"

definition opt_index :: "nat option \<Rightarrow> json" where
  "opt_index i = (case i of None \<Rightarrow> JNull | Some n \<Rightarrow> JInt (int n))"

definition item_seed :: "protocol_kind \<Rightarrow> string \<Rightarrow> nat \<Rightarrow> ustr \<Rightarrow> nat option \<Rightarrow> ustr" where
  "item_seed kind place ordinal role index =
     stable_seed [S (kind_name kind), S place, JInt (int ordinal), JStr role, opt_index index]"

definition context_item ::
  "(ustr \<Rightarrow> ustr) \<Rightarrow> protocol_kind \<Rightarrow> string \<Rightarrow> nat \<Rightarrow> ustr \<Rightarrow> block list \<Rightarrow> nat option \<Rightarrow> view_item" where
  "context_item sha kind place ordinal role blocks index =
     (let seed = item_seed kind place ordinal role index; identified = assign_block_ids sha blocks place seed
      in \<lparr>vi_id = opaque_id sha ''ctx'' seed, vi_role = role, vi_blocks = identified,
           vi_text_length = sum_list (map block_text_length identified)\<rparr>)"

text \<open>\<open>attached_map\<close>: a dictionary from ids to positions in the context.\<close>

record request_view =
  rv_current :: "view_item list"
  rv_system :: "view_item list"
  rv_attached :: "view_item list"
  rv_attached_map :: "(ustr \<times> nat) list"

definition all_blocks :: "request_view \<Rightarrow> block list" where
  "all_blocks v = concat (map vi_blocks (rv_current v @ rv_system v @ rv_attached v))"

definition role_or :: "obj \<Rightarrow> string \<Rightarrow> ustr" where
  "role_or message otherwise = py_str (or_else (oget message ''role'') (S otherwise))"

definition is_system_role :: "ustr \<Rightarrow> bool" where
  "is_system_role role \<longleftrightarrow> role = u ''system'' \<or> role = u ''developer''"

definition list_of :: "json \<Rightarrow> json list" where
  "list_of v = (case v of JList xs \<Rightarrow> xs | _ \<Rightarrow> [])"

definition dict_items :: "json list \<Rightarrow> (nat \<times> obj) list" where
  "dict_items xs = map (\<lambda>(i, v). (i, obj_of v)) (filter (\<lambda>(i, v). is_obj v) (enumerate 0 xs))"

text \<open>\<open>normalized.get("instructions")\<close> when it is a text that is not blank.\<close>

definition filled_instructions :: "obj \<Rightarrow> ustr option" where
  "filled_instructions normalized =
     (case oget normalized ''instructions'' of JStr s \<Rightarrow> if strip s \<noteq> [] then Some s else None | _ \<Rightarrow> None)"

definition instruction_items :: "(ustr \<Rightarrow> ustr) \<Rightarrow> protocol_kind \<Rightarrow> string \<Rightarrow> obj \<Rightarrow> view_item list" where
  "instruction_items sha kind role normalized =
     (case filled_instructions normalized of
        None \<Rightarrow> []
      | Some s \<Rightarrow> [context_item sha kind ''caller_system'' 0 (u role) [text_view (JStr s)] None])"

definition system_block_items :: "(ustr \<Rightarrow> ustr) \<Rightarrow> obj \<Rightarrow> view_item list result" where
  "system_block_items sha normalized =
     (case oget normalized ''system_blocks'' of
        JList (b # bs) \<Rightarrow>
          bindr (content_parts_to_blocks KAnthropic (JList (b # bs))) (\<lambda>blocks.
          Inr [context_item sha KAnthropic ''caller_system'' 1 (u ''system'') blocks None])
      | _ \<Rightarrow> Inr [])"

definition message_item ::
  "(ustr \<Rightarrow> ustr) \<Rightarrow> protocol_kind \<Rightarrow> string \<Rightarrow> string \<Rightarrow> nat \<Rightarrow> obj \<Rightarrow> nat option \<Rightarrow> view_item result" where
  "message_item sha kind place otherwise ordinal message index =
     bindr (message_blocks kind message) (\<lambda>blocks.
     Inr (context_item sha kind place ordinal (role_or message otherwise) blocks index))"

definition attached_entry :: "view_item \<times> nat \<Rightarrow> ustr \<times> nat" where
  "attached_entry p = (vi_id (fst p), snd p)"

definition project_chat_anthropic :: "(ustr \<Rightarrow> ustr) \<Rightarrow> protocol_kind \<Rightarrow> obj \<Rightarrow> request_view result" where
  "project_chat_anthropic sha kind normalized =
     (let messages = dict_items (list_of (oget normalized ''messages''));
          is_sys = (\<lambda>(i, m). kind = KChat \<and> is_system_role (role_or m ''user''));
          systems = filter is_sys messages;
          conversation = filter (\<lambda>p. \<not> is_sys p) messages;
          earlier = butlast conversation
      in bindr (if kind = KAnthropic then system_block_items sha normalized else Inr []) (\<lambda>blocks_item.
         bindr (mapr (\<lambda>(ordinal, i, m). message_item sha kind ''caller_system'' ''system'' ordinal m None) (enumerate 0 systems)) (\<lambda>system_items.
         bindr (if conversation = [] then Inr []
                else bindr (message_item sha kind ''current_input'' ''user'' 0 (snd (last conversation)) (Some (fst (last conversation))))
                  (\<lambda>item. Inr [item])) (\<lambda>current.
         bindr (mapr (\<lambda>(ordinal, i, m). message_item sha kind ''attached_context'' ''user'' ordinal m (Some i)) (enumerate 0 earlier)) (\<lambda>attached.
         Inr \<lparr>rv_current = current,
              rv_system = (if kind = KAnthropic then instruction_items sha kind ''system'' normalized else []) @ blocks_item @ system_items,
              rv_attached = attached,
              rv_attached_map = map attached_entry (zip attached (map fst earlier))\<rparr>)))))"

definition input_items :: "json \<Rightarrow> json list" where
  "input_items v =
     (case v of
        JStr s \<Rightarrow> [JObj [(u ''type'', S ''message''), (u ''role'', S ''user''), (u ''content'', JStr s)]]
      | JList xs \<Rightarrow> xs
      | _ \<Rightarrow> [])"

definition responses_view_item ::
  "(ustr \<Rightarrow> ustr) \<Rightarrow> string \<Rightarrow> string \<Rightarrow> nat \<times> obj \<Rightarrow> nat option \<Rightarrow> view_item result" where
  "responses_view_item sha place otherwise p index =
     bindr (responses_item_blocks (snd p)) (\<lambda>blocks.
     Inr (context_item sha KResponses place (fst p) (role_or (snd p) otherwise) blocks index))"

definition project_responses :: "(ustr \<Rightarrow> ustr) \<Rightarrow> obj \<Rightarrow> request_view result" where
  "project_responses sha normalized =
     (let inputs = input_items (oget normalized ''input''); ctx = list_of (oget normalized ''context'');
          earlier = dict_items (take (length ctx - length inputs) ctx)
      in bindr (mapr (\<lambda>p. responses_view_item sha ''current_input'' ''user'' p None) (dict_items inputs)) (\<lambda>current.
         bindr (mapr (\<lambda>p. responses_view_item sha ''attached_context'' ''tool'' p (Some (fst p))) earlier) (\<lambda>attached.
         Inr \<lparr>rv_current = current, rv_system = instruction_items sha KResponses ''system'' normalized,
              rv_attached = attached, rv_attached_map = map attached_entry (zip attached (map fst earlier))\<rparr>)))"

text \<open>\<open>json.dumps\<close> with \<open>indent=2\<close>, at a depth of \<open>n\<close> spaces.\<close>

definition new_line :: "nat \<Rightarrow> ustr" where
  "new_line n = 10 # replicate n 32"

fun dumps_indent :: "nat \<Rightarrow> json \<Rightarrow> ustr"
  and indent_items :: "nat \<Rightarrow> json list \<Rightarrow> ustr"
  and indent_pairs :: "nat \<Rightarrow> (ustr \<times> json) list \<Rightarrow> ustr" where
  "dumps_indent n (JList []) = u ''[]''"
| "dumps_indent n (JList (x # xs)) = 91 # new_line (n + 2) @ indent_items (n + 2) (x # xs) @ new_line n @ [93]"
| "dumps_indent n (JObj []) = u ''{}''"
| "dumps_indent n (JObj (p # d)) = 123 # new_line (n + 2) @ indent_pairs (n + 2) (p # d) @ new_line n @ [125]"
| "dumps_indent n v = dumps v"
| "indent_items n [] = []"
| "indent_items n [x] = dumps_indent n x"
| "indent_items n (x # y # xs) = dumps_indent n x @ [44] @ new_line n @ indent_items n (y # xs)"
| "indent_pairs n [] = []"
| "indent_pairs n [(k, x)] = quote k @ u '': '' @ dumps_indent n x"
| "indent_pairs n ((k, x) # p # d) = quote k @ u '': '' @ dumps_indent n x @ [44] @ new_line n @ indent_pairs n (p # d)"

definition json_text :: "json \<Rightarrow> ustr" where
  "json_text v = (case v of JStr s \<Rightarrow> s | _ \<Rightarrow> dumps_indent 0 v)"

definition question_items :: "(ustr \<Rightarrow> ustr) \<Rightarrow> obj \<Rightarrow> nat \<Rightarrow> view_item list" where
  "question_items sha normalized ordinal =
     (case oget normalized ''questions'' of
        JObj (q # qs) \<Rightarrow> [context_item sha KSystemOne ''caller_system'' ordinal (u ''questions'')
          [text_view (JStr (json_text (JObj (q # qs))))] None]
      | _ \<Rightarrow> [])"

definition project_systemone :: "(ustr \<Rightarrow> ustr) \<Rightarrow> obj \<Rightarrow> request_view" where
  "project_systemone sha normalized =
     (let state = oget normalized ''state''; instructions = instruction_items sha KSystemOne ''instructions'' normalized
      in \<lparr>rv_current = (if state = JNull then []
            else [context_item sha KSystemOne ''current_input'' 0 (u ''state'') [text_view (JStr (json_text state))] None]),
          rv_system = instructions @ question_items sha normalized (length instructions),
          rv_attached = [], rv_attached_map = []\<rparr>)"

definition project_request_view :: "(ustr \<Rightarrow> ustr) \<Rightarrow> protocol_kind \<Rightarrow> obj \<Rightarrow> request_view result" where
  "project_request_view sha kind normalized =
     (case kind of
        KResponses \<Rightarrow> project_responses sha normalized
      | KSystemOne \<Rightarrow> Inr (project_systemone sha normalized)
      | _ \<Rightarrow> project_chat_anthropic sha kind normalized)"

section \<open>What the view shows\<close>

definition attachment_kinds :: "json list" where
  "attachment_kinds = map S [''image'', ''file'', ''document'', ''audio'']"

definition is_attachment :: "block \<Rightarrow> bool" where
  "is_attachment b \<longleftrightarrow> oget b ''type'' \<in> set attachment_kinds"

definition media_block_present :: "block list \<Rightarrow> bool" where
  "media_block_present blocks \<longleftrightarrow> list_ex is_attachment blocks"

definition attachment_summary :: "block \<Rightarrow> obj" where
  "attachment_summary b =
     map (\<lambda>k. (u k, oget b k)) [''id'', ''type'', ''filename'', ''media_type'', ''source'', ''url'', ''size_bytes''] @
     [(u ''previewable'', JBool (truthy (oget b ''previewable'')))]"

definition summarize_attachments :: "request_view \<Rightarrow> obj list" where
  "summarize_attachments v = map attachment_summary (filter is_attachment (all_blocks v))"

definition strip_block :: "block \<Rightarrow> block" where
  "strip_block b =
     (let entry = without [''data'', ''arguments''] b
      in if oget b ''type'' = S ''tool_call'' then oset entry ''arguments'' (oget b ''arguments'') else entry)"

definition strip_item :: "view_item \<Rightarrow> json" where
  "strip_item item =
     JObj [(u ''id'', JStr (vi_id item)), (u ''role'', JStr (vi_role item)),
       (u ''blocks'', JList (map (JObj \<circ> strip_block) (vi_blocks item))),
       (u ''text_length'', JInt (vi_text_length item)), (u ''block_count'', JInt (int (length (vi_blocks item))))]"

definition public_view :: "request_view \<Rightarrow> obj" where
  "public_view v =
     [(u ''current_input'', JList (map strip_item (rv_current v))),
      (u ''caller_system'', JObj [(u ''items'', JList (map strip_item (rv_system v))),
         (u ''item_count'', JInt (int (length (rv_system v)))),
         (u ''character_count'', JInt (sum_list (map vi_text_length (rv_system v)))),
         (u ''collapsed_by_default'', JBool True)]),
      (u ''attached_context'', JList (map strip_item (rv_attached v)))]"

definition find_block :: "request_view \<Rightarrow> ustr \<Rightarrow> block option" where
  "find_block v block_id = find (\<lambda>b. oget b ''id'' = JStr block_id) (all_blocks v)"

section \<open>RequestViewService\<close>

definition normalized_request :: "request_task \<Rightarrow> obj" where
  "normalized_request task =
     (case loads (if rt_normalized_request_json task = [] then u ''{}'' else rt_normalized_request_json task) of
        Some (JObj d) \<Rightarrow> d | _ \<Rightarrow> [])"

definition view_of_task :: "(ustr \<Rightarrow> ustr) \<Rightarrow> request_task \<Rightarrow> request_view result" where
  "view_of_task sha task = project_request_view sha (protocol_kind_of (rt_protocol task)) (normalized_request task)"

fun choice_value :: "caller_tool_choice \<Rightarrow> string" where
  "choice_value CHOICE_AUTO = ''auto''"
| "choice_value CHOICE_NONE = ''none''"
| "choice_value CHOICE_REQUIRED = ''required''"
| "choice_value CHOICE_NAMED = ''named''"

definition definition_view :: "caller_tool_definition \<Rightarrow> json" where
  "definition_view tool =
     JObj [(u ''name'', JStr (ctd_name tool)), (u ''description'', ctd_description tool),
       (u ''input_schema'', JObj (ctd_input_schema tool)), (u ''source_type'', JStr (ctd_source_type tool)),
       (u ''is_generatable'', JBool (is_generatable tool))]"

definition catalog_view :: "caller_tool_catalog \<Rightarrow> obj" where
  "catalog_view catalog =
     [(u ''definitions'', JList (map definition_view (ctc_definitions catalog))),
      (u ''choice'', S (choice_value (ctp_choice (ctc_policy catalog)))),
      (u ''required_name'', json_opt (ctp_required_name (ctc_policy catalog))),
      (u ''parallel_allowed'', JBool (ctp_parallel_allowed (ctc_policy catalog)))]"

definition warning_view :: "request_task \<Rightarrow> store \<Rightarrow> obj" where
  "warning_view task st =
     (let acknowledged = (case get_inbox_state (rt_id task) st of
            None \<Rightarrow> False | Some i \<Rightarrow> ti_tool_call_warning_acknowledged_at i \<noteq> None)
      in [(u ''required'', JBool (ctc_definitions (catalog_for_task task) \<noteq> [] \<and> \<not> acknowledged)),
          (u ''acknowledged'', JBool acknowledged)])"

definition get_request_view :: "(ustr \<Rightarrow> ustr) \<Rightarrow> request_task \<Rightarrow> store \<Rightarrow> obj result" where
  "get_request_view sha task st =
     bindr (view_of_task sha task) (\<lambda>v.
     Inr (public_view v @
       [(u ''attachments'', JList (map JObj (summarize_attachments v))),
        (u ''caller_tools'', JObj (catalog_view (catalog_for_task task))),
        (u ''tool_call_warning'', JObj (warning_view task st)),
        (u ''raw_request_available'', JBool True)]))"

definition get_block :: "(ustr \<Rightarrow> ustr) \<Rightarrow> request_task \<Rightarrow> ustr \<Rightarrow> obj result" where
  "get_block sha task block_id =
     bindr (view_of_task sha task) (\<lambda>v.
     (case find_block v block_id of
        None \<Rightarrow> Inl (err NOT_FOUND ''block not found'' 404)
      | Some b \<Rightarrow>
          let fields = (\<lambda>ks. map (\<lambda>k. (u k, oget b k)) ks)
          in Inr (fields [''id'', ''type''] @
             (if oget b ''type'' = S ''text'' then fields [''text'']
              else if oget b ''type'' = S ''tool_result'' then fields [''call_id'', ''text'']
              else if oget b ''type'' = S ''tool_call'' then fields [''name'', ''call_id'', ''arguments'']
              else fields [''media_type'', ''filename'', ''source'', ''url'', ''size_bytes''] @
                [(u ''previewable'', JBool (truthy (oget b ''previewable'')))] @
                (if truthy (oget b ''data'') then [(u ''data_base64'', oget b ''data'')] else [])))))"

definition invalid_context_item :: "ustr \<Rightarrow> exn" where
  "invalid_context_item item_id =
     err_text VALIDATION_FAILED (u ''invalid context item id: '' @ item_id) 400 (Some (u ''invalid_context_item''))"

text \<open>A dictionary keeps the last value written under a key.\<close>

definition resolve_item :: "request_view \<Rightarrow> nat \<Rightarrow> ustr \<Rightarrow> int result" where
  "resolve_item v context_length item_id =
     (case map_of (rev (rv_attached_map v)) item_id of
        None \<Rightarrow> Inl (invalid_context_item item_id)
      | Some i \<Rightarrow> if i \<ge> context_length then Inl (invalid_context_item item_id) else Inr (int i))"

definition resolve_excluded_context_ids ::
  "(ustr \<Rightarrow> ustr) \<Rightarrow> request_task \<Rightarrow> ustr list \<Rightarrow> int list option result" where
  "resolve_excluded_context_ids sha task item_ids =
     (if item_ids = [] then Inr None
      else
        bindr (view_of_task sha task) (\<lambda>v.
        bindr (mapr (resolve_item v (length (list_of (oget (normalized_request task) ''context'')))) item_ids) (\<lambda>indices.
        Inr (Some indices))))"

definition attachments_present :: "(ustr \<Rightarrow> ustr) \<Rightarrow> request_task \<Rightarrow> bool result" where
  "attachments_present sha task = bindr (view_of_task sha task) (\<lambda>v. Inr (media_block_present (all_blocks v)))"

end
